(* ===== verification/Rudp_Prelude.thy ===== *)
theory Rudp_Prelude
  imports Main "HOL-Library.Word"
begin

text \<open>
  Shared vocabulary of the development: the machine integer types of the C++ sources as fixed-width
  words, the collections of facts the component theories feed and use, arithmetic of 32-bit
  distances (the sequence space of the protocol is the ring of 32-bit words), and the generic
  notion of a reachable state with the rule that an inductive invariant holds there.
\<close>

unbundle bit_operations_syntax

section \<open>Types\<close>

type_synonym u8 = "8 word"
type_synonym u16 = "16 word"
type_synonym u32 = "32 word"
type_synonym u64 = "64 word"
type_synonym bytes = "u8 list"

section \<open>Collections of facts\<close>

named_theorems codec_simps "byte layout of the wire format"
named_theorems seq_simps "circular comparison of sequence numbers as unsigned distances"
named_theorems frame_simps "fields an operation leaves alone"

section \<open>Reachable states\<close>

inductive reachable :: "('s \<Rightarrow> bool) \<Rightarrow> ('s \<Rightarrow> 's \<Rightarrow> bool) \<Rightarrow> 's \<Rightarrow> bool"
  for init :: "'s \<Rightarrow> bool" and step :: "'s \<Rightarrow> 's \<Rightarrow> bool"
where
  reach_init: "init s \<Longrightarrow> reachable init step s"
| reach_step: "reachable init step s \<Longrightarrow> step s t \<Longrightarrow> reachable init step t"

text \<open>
  The contract of an inductive invariant: it holds initially and every step keeps it. The components
  with state interpret it on their own step relation.
\<close>

locale inductive_invariant =
  fixes init :: "'s \<Rightarrow> bool"
    and step :: "'s \<Rightarrow> 's \<Rightarrow> bool"
    and inv :: "'s \<Rightarrow> bool"
  assumes inv_init: "init s \<Longrightarrow> inv s"
    and inv_step: "inv s \<Longrightarrow> step s t \<Longrightarrow> inv t"
begin

lemma reachable_inv: "reachable init step s \<Longrightarrow> inv s"
  by (induction rule: reachable.induct) (auto intro: inv_init inv_step)

end

text \<open>
  The contract of a main loop that makes passes until the state asks to leave it: a run is driven by the
  list of what the world supplies to each pass, and a pass may fail to have a result.
\<close>

locale main_loop =
  fixes pass :: "'i \<Rightarrow> 's \<Rightarrow> 's option"
    and exits :: "'s \<Rightarrow> bool"
    and run :: "'i list \<Rightarrow> 's \<Rightarrow> 's option"
  assumes run_Nil: "run [] s = Some s"
    and run_Cons: "run (i # inputs) s =
      (if exits s then Some s else case pass i s of None \<Rightarrow> None | Some s' \<Rightarrow> run inputs s')"
begin

lemma run_inv:
  assumes "\<And>i s s'. P s \<Longrightarrow> pass i s = Some s' \<Longrightarrow> P s'"
  shows "P s \<Longrightarrow> run inputs s = Some s' \<Longrightarrow> P s'"
  by (induction inputs arbitrary: s)
    (auto simp: run_Nil run_Cons split: if_splits option.splits intro: assms)

lemma run_exited: "exits s \<Longrightarrow> run inputs s = Some s"
  by (cases inputs) (simp_all add: run_Nil run_Cons)

lemma run_append:
  "run (earlier @ later) s = (case run earlier s of None \<Rightarrow> None | Some s' \<Rightarrow> run later s')"
  by (induction earlier arbitrary: s)
    (auto simp: run_Nil run_Cons run_exited split: option.splits)

end

section \<open>Words\<close>

lemma unat_u32_lt: "unat (x :: u32) < 4294967296"
  using unsigned_less [of x] by simp

lemma sint_u32_neg_iff: "sint (x :: u32) < 0 \<longleftrightarrow> 2147483648 \<le> unat x"
proof -
  have "sint x < 0 \<longleftrightarrow> bit x 31" using bit_last_iff [of x] by simp
  also have "\<dots> \<longleftrightarrow> bit (unat x) 31" by (simp add: bit_unsigned_iff)
  also have "\<dots> \<longleftrightarrow> odd (unat x div 2147483648)" by (simp add: bit_iff_odd)
  also have "unat x div 2147483648 = (if unat x < 2147483648 then 0 else 1)"
    using unat_u32_lt [of x] by (simp add: div_nat_eqI)
  finally show ?thesis by simp
qed

lemma unat_u32_diff:
  "unat ((a :: u32) - b) =
     (if unat b \<le> unat a then unat a - unat b else unat a + 4294967296 - unat b)"
  by (simp add: unat_sub_if_size word_size word_le_nat_alt)

lemma unat_u32_plus:
  "unat ((a :: u32) + b) =
     (if unat a + unat b < 4294967296 then unat a + unat b else unat a + unat b - 4294967296)"
  by (simp add: unat_plus_if')

text \<open>
  Distances in the ring of 32-bit words: measuring two points from a common base turns their
  difference into an ordinary subtraction of distances.
\<close>

lemma unat_diff_base:
  "unat ((a :: u32) - k) =
     (if unat (k - b) \<le> unat (a - b) then unat (a - b) - unat (k - b)
      else unat (a - b) + 4294967296 - unat (k - b))"
proof -
  have "a - k = (a - b) - (k - b)" by simp
  then show ?thesis by (metis unat_u32_diff)
qed

lemma unat_succ_diff:
  assumes "unat ((a :: u32) - k) < 4294967295"
  shows "unat (a + 1 - k) = unat (a - k) + 1"
proof -
  have "a + 1 - k = (a - k) + 1" by simp
  then have "unat (a + 1 - k) = unat ((a - k) + 1)" by (rule arg_cong)
  then show ?thesis using assms by (simp only: unat_u32_plus) simp
qed

lemma u32_diff_eq_iff: "(a :: u32) - b = c \<longleftrightarrow> a = b + c"
  by (auto simp: algebra_simps)

lemma and_one_bit0: "(b :: 'a :: len word) AND 1 = 0 \<longleftrightarrow> \<not> bit b 0"
  by (simp add: and_one_eq bit_0 odd_iff_mod_2_eq_one)

text \<open>\<open>1 << k\<close> is the power \<open>2 ^ k\<close> to the simplifier.\<close>

lemma and_exp_bit: "(b :: 'a :: len word) AND 2 ^ k = 0 \<longleftrightarrow> \<not> bit b k"
proof -
  have "bit (b AND 2 ^ k) n \<longleftrightarrow> n = k \<and> bit b k" for n
    by (auto simp: bit_and_iff bit_exp_iff dest: bit_imp_le_length)
  then show ?thesis by (metis bit_0_eq bit_eq_iff bot_apply bot_bool_def)
qed

lemma bit_or_exp:
  "bit ((b :: 'a :: len word) OR 2 ^ k) n \<longleftrightarrow> bit b n \<or> n = k \<and> k < LENGTH('a)"
  by (auto simp: bit_or_iff bit_exp_iff)

lemma bit_u64_bound: "bit (b :: u64) n \<Longrightarrow> n < 64"
  using bit_imp_le_length [of b n] by simp

end
