(* ===== verification/Rudp_Protocol.thy ===== *)
theory Rudp_Protocol
  imports Rudp_Prelude
begin

text \<open>
  Model of \<open>include/Rudp/Protocol.hpp\<close> and \<open>src/Protocol.cpp\<close>: the constants, enumerations and the
  packet header of the protocol, the flag test, and the circular comparison of sequence numbers.
  The lemmas reduce the signed comparison of the code to unsigned distances and show what it
  promises: a strict order on every window of less than half the sequence space, whatever the
  position of the window (wrap-around included).
\<close>

section \<open>Constants and enumerations\<close>

definition kHeaderLength :: nat where
  "kHeaderLength = 28"

definition kAckBitsWindow :: nat where
  "kAckBitsWindow = 64"

definition kReliableWindowSize :: nat where
  "kReliableWindowSize = 64"

text \<open>
  An \<open>enum class\<close> with underlying type \<open>uint8_t\<close>: a decoder casts an arbitrary byte into it, so its
  values are all the bytes, four of them named.
\<close>

datatype ChannelType = ChannelType (channel_type_byte: u8)

abbreviation ReliableOrdered :: ChannelType where "ReliableOrdered \<equiv> ChannelType 0"
abbreviation ReliableUnordered :: ChannelType where "ReliableUnordered \<equiv> ChannelType 1"
abbreviation Unreliable :: ChannelType where "Unreliable \<equiv> ChannelType 2"
abbreviation MonotonicState :: ChannelType where "MonotonicState \<equiv> ChannelType 3"

text \<open>The values that have a name, which are the ones a valid header may carry.\<close>

definition named_channel :: "ChannelType \<Rightarrow> bool" where
  "named_channel t \<longleftrightarrow> channel_type_byte t \<le> 3"

datatype Flag = FlagSyn | FlagFin | FlagRst | FlagPing | FlagPong | FlagAck

type_synonym Flags = u8

fun flag_value :: "Flag \<Rightarrow> Flags" where
  "flag_value FlagSyn = 0x01"
| "flag_value FlagFin = 0x02"
| "flag_value FlagRst = 0x04"
| "flag_value FlagPing = 0x08"
| "flag_value FlagPong = 0x10"
| "flag_value FlagAck = 0x20"

text \<open>The two overloads of \<open>operator|\<close>.\<close>

definition flags_or :: "Flag \<Rightarrow> Flag \<Rightarrow> Flags" where
  "flags_or lhs rhs = flag_value lhs OR flag_value rhs"

definition flags_or_flag :: "Flags \<Rightarrow> Flag \<Rightarrow> Flags" where
  "flags_or_flag lhs rhs = lhs OR flag_value rhs"

section \<open>The header\<close>

record Header =
  h_conn_id :: u32
  h_seq :: u32
  h_ack :: u32
  h_ack_bits :: u64
  h_channel_id :: u32
  h_channel_type :: ChannelType
  h_flags :: Flags
  h_header_len :: u8
  h_reserved :: u8

text \<open>The member initialisers: the value of \<open>Header{}\<close>.\<close>

definition default_header :: Header where
  "default_header =
     \<lparr>h_conn_id = 0, h_seq = 0, h_ack = 0, h_ack_bits = 0, h_channel_id = 0,
      h_channel_type = Unreliable, h_flags = 0, h_header_len = of_nat kHeaderLength,
      h_reserved = 0\<rparr>"

record PacketView =
  pv_header :: Header
  pv_payload :: bytes

definition hasFlag :: "Header \<Rightarrow> Flag \<Rightarrow> bool" where
  "hasFlag h flag = ((h_flags h AND flag_value flag) \<noteq> 0)"

section \<open>Sequence numbers\<close>

definition seq_lt :: "u32 \<Rightarrow> u32 \<Rightarrow> bool" where
  "seq_lt lhs rhs = (sint (lhs - rhs) < 0)"

definition seq_le :: "u32 \<Rightarrow> u32 \<Rightarrow> bool" where
  "seq_le lhs rhs = (sint (lhs - rhs) \<le> 0)"

definition seq_gt :: "u32 \<Rightarrow> u32 \<Rightarrow> bool" where
  "seq_gt lhs rhs = seq_lt rhs lhs"

definition seq_ge :: "u32 \<Rightarrow> u32 \<Rightarrow> bool" where
  "seq_ge lhs rhs = seq_le rhs lhs"

definition isReliableChannel :: "ChannelType \<Rightarrow> bool" where
  "isReliableChannel type = (type = ReliableOrdered \<or> type = ReliableUnordered)"

section \<open>Circular comparison as distance\<close>

lemma seq_lt_dist [seq_simps]: "seq_lt a b \<longleftrightarrow> 2147483648 \<le> unat (a - b)"
  by (simp add: seq_lt_def sint_u32_neg_iff)

lemma seq_le_dist [seq_simps]: "seq_le a b \<longleftrightarrow> a = b \<or> 2147483648 \<le> unat (a - b)"
proof -
  have z: "sint (a - b) = 0 \<longleftrightarrow> a = b"
    by (simp add: signed_eq_0_iff)
  have "sint (a - b) \<le> 0 \<longleftrightarrow> sint (a - b) = 0 \<or> sint (a - b) < 0"
    by linarith
  then show ?thesis unfolding seq_le_def by (simp only: z sint_u32_neg_iff)
qed

lemma seq_gt_dist [seq_simps]: "seq_gt a b \<longleftrightarrow> 2147483648 \<le> unat (b - a)"
  by (simp add: seq_gt_def seq_lt_dist)

lemma seq_le_iff: "seq_le a b \<longleftrightarrow> a = b \<or> seq_lt a b"
  by (simp only: seq_le_dist seq_lt_dist)

lemma unat_minus_swap:
  assumes "a \<noteq> b"
  shows "unat ((b :: u32) - a) = 4294967296 - unat (a - b)"
proof -
  from assms have "unat (a - b) \<noteq> 0" by (simp add: unat_eq_zero)
  then have "\<not> unat (a - b) \<le> unat (b - b)" by simp
  then show ?thesis by (simp only: unat_diff_base [of b a b] if_False) simp
qed

lemma seq_lt_irrefl [simp]: "\<not> seq_lt a a"
  by (simp add: seq_lt_dist)

lemma seq_gt_short:
  assumes "0 < unat (a - b)" and "unat ((a :: u32) - b) \<le> 2147483648"
  shows "seq_gt a b"
proof -
  from assms(1) have "a \<noteq> b" by auto
  from unat_minus_swap [OF this] assms(2) show ?thesis by (simp only: seq_gt_dist)
qed

text \<open>
  Two positions given by their distance from a common base that is less than half the sequence
  space compare as the distances do.
\<close>

lemma seq_lt_window:
  assumes "unat (a - c) < 2147483648" and "unat (b - c) < 2147483648"
  shows "seq_lt a b \<longleftrightarrow> unat (a - c) < unat (b - c)"
  using assms unat_diff_base [of a b c] by (auto simp: seq_lt_dist)

lemma seq_lt_shift: "seq_lt (a + c) (b + c) = seq_lt a b"
  by (simp add: seq_lt_def)

section \<open>Properties\<close>

text \<open>
  C27. Sequence numbers compare correctly across the wrap-around: on any window of up to half the
  sequence space, wherever it starts, the circular comparison is the order of the positions.
\<close>

theorem seq_order_on_window:
  assumes "i < 2147483648" and "j < 2147483648"
  shows "(seq_lt (c + of_nat i) (c + of_nat j) \<longleftrightarrow> i < j) \<and>
    (seq_le (c + of_nat i) (c + of_nat j) \<longleftrightarrow> i \<le> j) \<and>
    (seq_gt (c + of_nat i) (c + of_nat j) \<longleftrightarrow> j < i) \<and>
    (seq_ge (c + of_nat i) (c + of_nat j) \<longleftrightarrow> j \<le> i)"
proof -
  have u: "unat (c + of_nat i - c) = i" "unat (c + of_nat j - c) = j"
    using assms by (simp_all add: unat_of_nat)
  have lt: "seq_lt (c + of_nat i) (c + of_nat j) \<longleftrightarrow> i < j" "seq_lt (c + of_nat j) (c + of_nat i) \<longleftrightarrow> j < i"
    using seq_lt_window [of "c + of_nat i" c "c + of_nat j"]
      seq_lt_window [of "c + of_nat j" c "c + of_nat i"] u assms by simp_all
  have "c + of_nat i = c + of_nat j \<longleftrightarrow> i = j" using u by metis
  then have "seq_le (c + of_nat i) (c + of_nat j) \<longleftrightarrow> i \<le> j" "seq_le (c + of_nat j) (c + of_nat i) \<longleftrightarrow> j \<le> i"
    using lt by (auto simp only: seq_le_iff le_less)
  then show ?thesis using lt by (simp add: seq_gt_def seq_ge_def)
qed

theorem seq_order_on_window_witness:
  "seq_lt (0xfffffffe + of_nat 1) (0xfffffffe + of_nat 5) \<and> (0xfffffffe + of_nat 5 :: u32) = 3"
  using seq_order_on_window [of 1 5 "0xfffffffe"] by simp

end
