(* ===== verification/Std_Map.thy ===== *)
theory Std_Map
  imports Rudp_Prelude "HOL-Library.AList"
begin

text \<open>
  The two associative containers of the C++ standard library the program uses. A \<open>std::map\<close> is an
  association list in strictly ascending key order, which is its iteration order. A
  \<open>std::unordered_map\<close> is an association list with distinct keys; its list order stands for the
  iteration order, which the standard leaves open. Both provide the contract
  \<open>assoc_container\<close>: the laws of lookup after assignment and erasure.
\<close>

section \<open>The containers\<close>

type_synonym ('k, 'v) std_map = "('k \<times> 'v) list"
type_synonym ('k, 'v) unordered_map = "('k \<times> 'v) list"

definition map_find :: "('k \<times> 'v) list \<Rightarrow> 'k \<Rightarrow> 'v option" where
  "map_find m k = map_of m k"

text \<open>\<open>m[k] = v\<close> and \<open>m.emplace(k, v)\<close>, which keeps an existing binding.\<close>

fun map_assign :: "'k :: linorder \<Rightarrow> 'v \<Rightarrow> ('k, 'v) std_map \<Rightarrow> ('k, 'v) std_map" where
  "map_assign k v [] = [(k, v)]"
| "map_assign k v ((k', v') # m) =
     (if k < k' then (k, v) # (k', v') # m
      else if k = k' then (k, v) # m
      else (k', v') # map_assign k v m)"

definition map_emplace :: "'k :: linorder \<Rightarrow> 'v \<Rightarrow> ('k, 'v) std_map \<Rightarrow> ('k, 'v) std_map" where
  "map_emplace k v m = (if map_find m k = None then map_assign k v m else m)"

definition map_erase :: "'k \<Rightarrow> ('k \<times> 'v) list \<Rightarrow> ('k \<times> 'v) list" where
  "map_erase k m = filter (\<lambda>p. fst p \<noteq> k) m"

text \<open>\<open>it->second = f(it->second)\<close> through an iterator found at \<open>k\<close>.\<close>

definition map_modify :: "'k \<Rightarrow> ('v \<Rightarrow> 'v) \<Rightarrow> ('k \<times> 'v) list \<Rightarrow> ('k \<times> 'v) list" where
  "map_modify k f m = map (\<lambda>(k', v). (k', if k' = k then f v else v)) m"

definition umap_assign :: "'k \<Rightarrow> 'v \<Rightarrow> ('k, 'v) unordered_map \<Rightarrow> ('k, 'v) unordered_map" where
  "umap_assign k v m = AList.update k v m"

definition map_ok :: "('k :: linorder, 'v) std_map \<Rightarrow> bool" where
  "map_ok m = sorted_wrt (<) (map fst m)"

definition umap_ok :: "('k, 'v) unordered_map \<Rightarrow> bool" where
  "umap_ok m = distinct (map fst m)"

section \<open>The contract\<close>

locale assoc_container =
  fixes lookup :: "'m \<Rightarrow> 'k \<Rightarrow> 'v option"
    and assign :: "'k \<Rightarrow> 'v \<Rightarrow> 'm \<Rightarrow> 'm"
    and erase :: "'k \<Rightarrow> 'm \<Rightarrow> 'm"
    and nothing :: "'m"
    and ok :: "'m \<Rightarrow> bool"
  assumes lookup_nothing: "lookup nothing k = None"
    and lookup_assign: "ok m \<Longrightarrow> lookup (assign k v m) k' = (if k' = k then Some v else lookup m k')"
    and lookup_erase: "ok m \<Longrightarrow> lookup (erase k m) k' = (if k' = k then None else lookup m k')"
    and ok_nothing: "ok nothing"
    and ok_assign: "ok m \<Longrightarrow> ok (assign k v m)"
    and ok_erase: "ok m \<Longrightarrow> ok (erase k m)"
begin

lemma lookup_assign_same: "ok m \<Longrightarrow> lookup (assign k v m) k = Some v"
  by (simp add: lookup_assign)

lemma lookup_erase_same: "ok m \<Longrightarrow> lookup (erase k m) k = None"
  by (simp add: lookup_erase)

lemma erase_after_assign:
  "ok m \<Longrightarrow> lookup (erase k (assign k v m)) = lookup (erase k m)"
  by (rule ext) (simp add: lookup_erase lookup_assign ok_assign)

lemma assign_commutes:
  "ok m \<Longrightarrow> k \<noteq> k' \<Longrightarrow>
   lookup (assign k v (assign k' v' m)) = lookup (assign k' v' (assign k v m))"
  by (rule ext) (simp add: lookup_assign ok_assign)

lemma dom_assign: "ok m \<Longrightarrow> dom (lookup (assign k v m)) = insert k (dom (lookup m))"
  by (auto simp: lookup_assign dom_def)

lemma dom_erase: "ok m \<Longrightarrow> dom (lookup (erase k m)) = dom (lookup m) - {k}"
  by (auto simp: lookup_erase dom_def split: if_splits)

end

section \<open>The containers meet the contract\<close>

lemma map_ok_Nil [simp]: "map_ok []"
  by (simp add: map_ok_def)

lemma map_ok_Cons:
  "map_ok ((k, v) # m) \<longleftrightarrow> (\<forall>k' \<in> fst ` set m. k < k') \<and> map_ok m"
  by (auto simp: map_ok_def)

lemma map_ok_distinct: "map_ok m \<Longrightarrow> distinct (map fst m)"
  by (auto simp: map_ok_def strict_sorted_iff)

lemma keys_map_assign: "fst ` set (map_assign k v m) = insert k (fst ` set m)"
  by (induction k v m rule: map_assign.induct) auto

lemma map_find_map_assign:
  "map_find (map_assign k v m) k' = (if k' = k then Some v else map_find m k')"
  by (induction k v m rule: map_assign.induct) (auto simp: map_find_def)

lemma map_ok_map_assign: "map_ok m \<Longrightarrow> map_ok (map_assign k v m)"
proof (induction k v m rule: map_assign.induct)
  case (1 k v)
  show ?case by (simp add: map_ok_def)
next
  case (2 k v k' v' m)
  then show ?case by (auto simp: map_ok_Cons keys_map_assign)
qed

lemma map_find_map_erase:
  "map_find (map_erase k m) k' = (if k' = k then None else map_find m k')"
  by (induction m) (auto simp: map_find_def map_erase_def)

lemma map_ok_filter: "map_ok m \<Longrightarrow> map_ok (filter P m)"
  by (auto simp: map_ok_def sorted_wrt_map intro: sorted_wrt_filter)

lemma map_ok_map_erase: "map_ok m \<Longrightarrow> map_ok (map_erase k m)"
  by (simp add: map_erase_def map_ok_filter)

lemma keys_map_erase: "fst ` set (map_erase k m) = fst ` set m - {k}"
  by (auto simp: map_erase_def)

lemma map_find_None_iff: "map_find m k = None \<longleftrightarrow> k \<notin> fst ` set m"
  by (simp add: map_find_def map_of_eq_None_iff)

lemma map_find_SomeD: "map_find m k = Some v \<Longrightarrow> (k, v) \<in> set m"
  by (simp add: map_find_def map_of_SomeD)

lemma map_find_in: "distinct (map fst m) \<Longrightarrow> (k, v) \<in> set m \<Longrightarrow> map_find m k = Some v"
  by (simp add: map_find_def)

lemma length_map_erase_less: "map_find m k = Some v \<Longrightarrow> length (map_erase k m) < length m"
  unfolding map_erase_def by (rule length_filter_less [of "(k, v)"]) (auto dest: map_find_SomeD)

lemma map_fst_map_modify [simp]: "map fst (map_modify k f m) = map fst m"
  by (induction m) (auto simp: map_modify_def)

lemma map_find_map_modify:
  "map_find (map_modify k f m) k' = (if k' = k then map_option f (map_find m k) else map_find m k')"
  by (induction m) (auto simp: map_find_def map_modify_def)

lemma map_ok_map_modify [simp]: "map_ok (map_modify k f m) = map_ok m"
  by (simp add: map_ok_def)

lemma map_find_map_emplace:
  "map_find (map_emplace k v m) k' =
     (if k' = k \<and> map_find m k = None then Some v else map_find m k')"
  by (auto simp: map_emplace_def map_find_map_assign)

lemma map_ok_map_emplace: "map_ok m \<Longrightarrow> map_ok (map_emplace k v m)"
  by (simp add: map_emplace_def map_ok_map_assign)

lemma keys_map_emplace: "fst ` set (map_emplace k v m) = insert k (fst ` set m)"
  by (auto simp: map_emplace_def keys_map_assign map_find_None_iff)

lemma set_map_assign_subset: "set (map_assign k v m) \<subseteq> insert (k, v) (set m)"
  by (induction k v m rule: map_assign.induct) auto

lemma length_map_assign_le: "length (map_assign k v m) \<le> Suc (length m)"
  by (induction k v m rule: map_assign.induct) auto

lemma set_map_emplace_subset: "set (map_emplace k v m) \<subseteq> insert (k, v) (set m)"
  using set_map_assign_subset [of k v m] by (auto simp: map_emplace_def)

lemma umap_ok_Nil [simp]: "umap_ok []"
  by (simp add: umap_ok_def)

lemma map_find_umap_assign:
  "map_find (umap_assign k v m) k' = (if k' = k then Some v else map_find m k')"
  by (simp add: map_find_def umap_assign_def update_conv')

lemma umap_ok_umap_assign: "umap_ok m \<Longrightarrow> umap_ok (umap_assign k v m)"
  by (simp add: umap_ok_def umap_assign_def distinct_update)

lemma umap_ok_filter: "umap_ok m \<Longrightarrow> umap_ok (filter P m)"
  by (simp add: umap_ok_def distinct_map_filter)

lemma umap_ok_map_erase: "umap_ok m \<Longrightarrow> umap_ok (map_erase k m)"
  by (simp add: map_erase_def umap_ok_filter)

interpretation omap: assoc_container map_find map_assign map_erase "[]" map_ok
  by unfold_locales
    (auto simp: map_find_def [where m = "[]"] map_find_map_assign map_find_map_erase
      map_ok_map_assign map_ok_map_erase)

interpretation umap: assoc_container map_find umap_assign map_erase "[]" umap_ok
  by unfold_locales
    (auto simp: map_find_def [where m = "[]"] map_find_umap_assign map_find_map_erase
      umap_ok_umap_assign umap_ok_map_erase)

end
