(* ===== verification/Session_Types.thy ===== *)
theory Session_Types
  imports Rudp_Protocol Std_Map
begin

text \<open>
  The data of one connection, \<open>include/Rudp/SessionTypes.hpp\<close>: one record per struct with the
  source's fields (prefixed, since record fields share one name space), one datatype per
  enumeration, and the values the member initialisers give.
\<close>

section \<open>Enumerations\<close>

datatype SessionRole = Client | Server

datatype ConnectionState =
  Closed | HandshakeSent | HandshakeReceived | Established | Closing | Reset

datatype SessionEventType =
  DataReceived | Connected | ConnectionClosed | ConnectionReset | ErrorEvent

section \<open>Packets, requests and events\<close>

record OwnedPacket =
  op_header :: Header
  op_payload :: bytes

record SendRequest =
  sr_channel_id :: u32
  sr_channel_type :: ChannelType
  sr_payload :: bytes

record TxEntry =
  te_packet :: OwnedPacket
  te_first_send_ms :: u64
  te_last_send_ms :: u64
  te_retry_count :: u32
  te_gap_evidence_count :: u32
  te_fast_retx_pending :: bool

record SessionEvent =
  ev_type :: SessionEventType
  ev_seq :: u32
  ev_channel_id :: u32
  ev_channel_type :: ChannelType
  ev_payload :: bytes
  ev_error_message :: string

record SessionStats =
  st_packets_sent :: u64
  st_packets_received :: u64
  st_bytes_sent :: u64
  st_bytes_received :: u64
  st_control_packets_sent :: u64
  st_control_packets_received :: u64
  st_data_packets_sent :: u64
  st_data_packets_received :: u64
  st_pings_sent :: u64
  st_pongs_sent :: u64
  st_pings_received :: u64
  st_pongs_received :: u64
  st_retransmissions_sent :: u64
  st_rtt_sample_count :: u64
  st_rtt_sum_ms :: u64
  st_latest_rtt_ms :: "u64 option"
  st_min_rtt_ms :: "u64 option"
  st_max_rtt_ms :: "u64 option"

record TxPollResult =
  pr_datagram :: "bytes option"
  pr_fatal_error :: bool
  pr_retransmission :: bool
  pr_error_message :: string

record TxAckResult =
  ar_acknowledged_fin :: bool

record RxPacketResult =
  rr_schedule_ack_only :: bool

section \<open>Transport state\<close>

record ProbeTxState =
  pb_ping_pending :: bool
  pb_pong_pending :: bool
  pb_ping_outstanding :: bool
  pb_last_sent_ms :: u64
  pb_last_ping_sent_ms :: u64

record TxSessionState =
  tx_next_seq :: u32
  tx_remote_ack :: u32
  tx_remote_ack_bits :: u64
  tx_pending_send :: "SendRequest list"
  tx_inflight :: "(u32, TxEntry) std_map"
  tx_syn_ack_pending :: bool
  tx_final_ack_pending :: bool
  tx_final_ack_linger_until_ms :: u64
  tx_fin_pending :: bool
  tx_ack_only_pending :: bool
  tx_reliable_ack_pending :: bool
  tx_reliable_ack_due_ms :: u64
  tx_activity_ack_pending :: bool
  tx_probe :: ProbeTxState

record RxSessionState =
  rx_next_expected :: u32
  rx_received_bits :: u64
  rx_ordered_reorder_buffer :: "(u32, OwnedPacket) std_map"
  rx_next_ordered_delivery :: u32
  rx_ordered_delivery_started :: bool
  rx_monotonic_versions :: "(u32, u32) unordered_map"
  rx_pending_events :: "SessionEvent list"

record SessionState =
  s_role :: SessionRole
  s_conn_id :: u32
  s_connection_state :: ConnectionState
  s_established_since_ms :: u64
  s_last_rx_ms :: u64
  s_last_tx_ms :: u64
  s_stats :: SessionStats
  s_tx :: TxSessionState
  s_rx :: RxSessionState

section \<open>Member initialisers\<close>

definition default_stats :: SessionStats where
  "default_stats =
     \<lparr>st_packets_sent = 0, st_packets_received = 0, st_bytes_sent = 0, st_bytes_received = 0,
      st_control_packets_sent = 0, st_control_packets_received = 0, st_data_packets_sent = 0,
      st_data_packets_received = 0, st_pings_sent = 0, st_pongs_sent = 0, st_pings_received = 0,
      st_pongs_received = 0, st_retransmissions_sent = 0, st_rtt_sample_count = 0,
      st_rtt_sum_ms = 0, st_latest_rtt_ms = None, st_min_rtt_ms = None, st_max_rtt_ms = None\<rparr>"

definition default_poll_result :: TxPollResult where
  "default_poll_result =
     \<lparr>pr_datagram = None, pr_fatal_error = False, pr_retransmission = False,
      pr_error_message = []\<rparr>"

definition default_probe :: ProbeTxState where
  "default_probe =
     \<lparr>pb_ping_pending = False, pb_pong_pending = False, pb_ping_outstanding = False,
      pb_last_sent_ms = 0, pb_last_ping_sent_ms = 0\<rparr>"

definition default_rx :: RxSessionState where
  "default_rx =
     \<lparr>rx_next_expected = 0, rx_received_bits = 0, rx_ordered_reorder_buffer = [],
      rx_next_ordered_delivery = 0, rx_ordered_delivery_started = False,
      rx_monotonic_versions = [], rx_pending_events = []\<rparr>"

end
