(* ===== verification/Connection_State_Machine.thy ===== *)
theory Connection_State_Machine
  imports Session_Types
begin

text \<open>
  Model of \<open>src/ConnectionStateMachine.cpp\<close>: classification of a header's flags into a control kind
  and the lifecycle decision taken for it. Both are total functions of the code; the lemmas invert
  them.
\<close>

section \<open>Operations\<close>

datatype ControlKind =
  KindNone | KindSyn | KindSynAck | KindAck | KindFin | KindRst | KindPing | KindPong | KindInvalid

record ConnectionDecision =
  cd_valid :: bool
  cd_next_state :: "ConnectionState option"
  cd_schedule_syn_ack :: bool
  cd_schedule_final_ack :: bool
  cd_schedule_ack_only :: bool
  cd_emit_connected :: bool
  cd_emit_connection_closed :: bool
  cd_emit_connection_reset :: bool
  cd_error_message :: string

text \<open>The value of \<open>ConnectionDecision{}\<close>: valid, nothing to do.\<close>

definition default_decision :: ConnectionDecision where
  "default_decision =
     \<lparr>cd_valid = True, cd_next_state = None, cd_schedule_syn_ack = False,
      cd_schedule_final_ack = False, cd_schedule_ack_only = False, cd_emit_connected = False,
      cd_emit_connection_closed = False, cd_emit_connection_reset = False,
      cd_error_message = []\<rparr>"

definition make_invalid_decision :: "string \<Rightarrow> ConnectionDecision" where
  "make_invalid_decision message =
     default_decision\<lparr>cd_valid := False, cd_error_message := message\<rparr>"

definition classify_control_kind :: "Header \<Rightarrow> ControlKind" where
  "classify_control_kind header =
     (let syn = hasFlag header FlagSyn;
          ack = hasFlag header FlagAck;
          fin = hasFlag header FlagFin;
          rst = hasFlag header FlagRst;
          ping = hasFlag header FlagPing;
          pong = hasFlag header FlagPong;
          flag_count = (of_bool syn + of_bool fin + of_bool rst + of_bool ping + of_bool pong :: nat)
      in if ack then
           (if syn \<and> \<not> fin \<and> \<not> rst \<and> \<not> ping \<and> \<not> pong then KindSynAck
            else if \<not> syn \<and> \<not> fin \<and> \<not> rst \<and> \<not> ping \<and> \<not> pong then KindAck
            else KindInvalid)
         else if flag_count = 0 then KindNone
         else if flag_count > 1 then KindInvalid
         else if syn then KindSyn
         else if fin then KindFin
         else if rst then KindRst
         else if ping then KindPing
         else if pong then KindPong
         else KindInvalid)"

fun decide_connection_transition ::
  "SessionRole \<Rightarrow> ConnectionState \<Rightarrow> ControlKind \<Rightarrow> ConnectionDecision"
where
  "decide_connection_transition role current_state KindNone = default_decision"
| "decide_connection_transition role current_state KindPing = default_decision"
| "decide_connection_transition role current_state KindPong = default_decision"
| "decide_connection_transition role current_state KindInvalid =
     make_invalid_decision ''invalid control-flag combination''"
| "decide_connection_transition role current_state KindRst =
     default_decision\<lparr>cd_next_state := Some Reset, cd_emit_connection_reset := True\<rparr>"
| "decide_connection_transition role current_state KindFin =
     default_decision\<lparr>cd_next_state := Some Closing, cd_schedule_ack_only := True,
       cd_emit_connection_closed := True\<rparr>"
| "decide_connection_transition role current_state KindSyn =
     (if role = Server \<and> current_state = Closed then
        default_decision\<lparr>cd_next_state := Some HandshakeReceived, cd_schedule_syn_ack := True\<rparr>
      else if current_state = Established then
        make_invalid_decision ''unexpected SYN in Established state''
      else default_decision)"
| "decide_connection_transition role current_state KindSynAck =
     (if role = Client \<and> current_state = HandshakeSent then
        default_decision\<lparr>cd_next_state := Some Established, cd_schedule_final_ack := True,
          cd_emit_connected := True\<rparr>
      else if role = Client \<and> current_state = Established then default_decision
      else default_decision)"
| "decide_connection_transition role current_state KindAck =
     (if role = Server \<and> current_state = HandshakeReceived then
        default_decision\<lparr>cd_next_state := Some Established, cd_emit_connected := True\<rparr>
      else default_decision)"

section \<open>Inversion\<close>

lemmas decision_defs = default_decision_def make_invalid_decision_def

lemma decide_next_state_cases:
  assumes "cd_next_state (decide_connection_transition role st k) = Some st'"
  shows "k = KindRst \<and> st' = Reset \<or> k = KindFin \<and> st' = Closing \<or>
    k = KindSyn \<and> role = Server \<and> st = Closed \<and> st' = HandshakeReceived \<or>
    k = KindSynAck \<and> role = Client \<and> st = HandshakeSent \<and> st' = Established \<or>
    k = KindAck \<and> role = Server \<and> st = HandshakeReceived \<and> st' = Established"
  using assms
  by (cases k) (auto simp: decision_defs split: if_splits)

lemma invalid_decision_inert:
  "\<not> cd_valid (decide_connection_transition role st k) \<Longrightarrow>
   cd_next_state (decide_connection_transition role st k) = None"
  by (cases k) (auto simp: decision_defs)

section \<open>Properties\<close>

lemma flags_below_64:
  assumes "(f :: u8) AND 0xc0 = 0"
  obtains n where "n < 64" and "f = of_nat n"
proof -
  have bits: "\<not> bit f 6" "\<not> bit f 7"
  proof -
    have "bit (f AND 0xc0) 6 = bit f 6" "bit (f AND 0xc0) 7 = bit f 7"
      by (simp_all add: bit_and_iff bit_numeral_rec)
    then show "\<not> bit f 6" "\<not> bit f 7" using assms by simp_all
  qed
  have "take_bit 6 f = f"
  proof (rule bit_word_eqI)
    fix n :: nat
    assume "n < LENGTH(8)"
    then have "n < 6 \<or> n = 6 \<or> n = 7" by auto
    then show "bit (take_bit 6 f) n = bit f n" using bits by (auto simp: bit_take_bit_iff)
  qed
  then have "take_bit 6 (unat f) = unat f" by (metis unsigned_take_bit_eq)
  moreover have "take_bit 6 (unat f) < 2 ^ 6" by (rule take_bit_nat_less_exp)
  ultimately have "unat f < 64" by simp
  then show thesis using that [of "unat f"] by simp
qed

text \<open>
  Of the 64 flag combinations a valid header can carry exactly eight are meaningful: none, SYN,
  FIN, RST, PING, PONG, ACK and SYN with ACK. Every other combination is classified as invalid, and the
  lifecycle then makes no transition and schedules nothing.
\<close>

lemma meaningful_flags:
  assumes "h_flags h AND 0xc0 = 0"
  shows "classify_control_kind h =
    (if h_flags h = 0 then KindNone else if h_flags h = 0x01 then KindSyn
     else if h_flags h = 0x02 then KindFin else if h_flags h = 0x04 then KindRst
     else if h_flags h = 0x08 then KindPing else if h_flags h = 0x10 then KindPong
     else if h_flags h = 0x20 then KindAck else if h_flags h = 0x21 then KindSynAck
     else KindInvalid)"
proof -
  obtain n where n: "n < 64" "h_flags h = of_nat n" using assms by (rule flags_below_64)
  then have "n \<in> set [0..<64]" by simp
  then show ?thesis unfolding classify_control_kind_def hasFlag_def Let_def n(2)
    by (simp add: upt_rec) (elim disjE; simp)
qed

end
