(* ===== verification/Rx_Handler.thy ===== *)
theory Rx_Handler
  imports Connection_State_Machine
begin

text \<open>
  Model of \<open>src/RxHandler.cpp\<close>: the cumulative front and bitmap of received reliable packets, and the
  delivery of payloads according to the channel type. An operation takes the receive state by value
  and returns it updated, beside the result the code returns or writes.
\<close>

section \<open>Helpers\<close>

definition make_owned_packet :: "PacketView \<Rightarrow> OwnedPacket" where
  "make_owned_packet packet = \<lparr>op_header = pv_header packet, op_payload = pv_payload packet\<rparr>"

definition make_data_event :: "PacketView \<Rightarrow> SessionEvent" where
  "make_data_event packet =
     \<lparr>ev_type = DataReceived,
      ev_seq = h_seq (pv_header packet),
      ev_channel_id = h_channel_id (pv_header packet),
      ev_channel_type = h_channel_type (pv_header packet),
      ev_payload = pv_payload packet,
      ev_error_message = []\<rparr>"

definition is_control_only :: "ControlKind \<Rightarrow> bool" where
  "is_control_only control_kind = (control_kind \<noteq> KindNone)"

definition ensure_ordered_delivery_started :: "u32 \<Rightarrow> RxSessionState \<Rightarrow> RxSessionState" where
  "ensure_ordered_delivery_started seq rx =
     (if \<not> rx_ordered_delivery_started rx
      then rx\<lparr>rx_next_ordered_delivery := seq, rx_ordered_delivery_started := True\<rparr>
      else rx)"

text \<open>The \<open>while\<close> loop of \<open>advance_receive_window\<close> on the two fields it changes.\<close>

function advance_receive_loop :: "u32 \<Rightarrow> u64 \<Rightarrow> u32 \<times> u64" where
  "advance_receive_loop next_expected received_bits =
     (if received_bits AND 1 \<noteq> 0
      then advance_receive_loop (next_expected + 1) (drop_bit 1 received_bits)
      else (next_expected, received_bits))"
  by pat_completeness auto
termination
proof (relation "measure (\<lambda>(ne, b). unat b)")
  fix ne :: u32 and b :: u64
  assume "b AND 1 \<noteq> 0"
  then have "unat b \<noteq> 0" by (auto simp: unat_eq_zero)
  moreover have "unat (drop_bit 1 b) = unat b div 2"
    by (simp add: drop_bit_eq_div unat_div_distrib)
  ultimately show "((ne + 1, drop_bit 1 b), ne, b) \<in> measure (\<lambda>(ne, b). unat b)" by simp
qed simp

declare advance_receive_loop.simps [simp del]

definition advance_receive_window :: "RxSessionState \<Rightarrow> RxSessionState" where
  "advance_receive_window rx =
     (let (ne, b) = advance_receive_loop (rx_next_expected rx + 1) (rx_received_bits rx)
      in rx\<lparr>rx_next_expected := ne, rx_received_bits := b\<rparr>)"

definition owned_data_event :: "OwnedPacket \<Rightarrow> SessionEvent" where
  "owned_data_event packet =
     \<lparr>ev_type = DataReceived,
      ev_seq = h_seq (op_header packet),
      ev_channel_id = h_channel_id (op_header packet),
      ev_channel_type = h_channel_type (op_header packet),
      ev_payload = op_payload packet,
      ev_error_message = []\<rparr>"

function drain_contiguous_loop :: "RxSessionState \<Rightarrow> RxSessionState" where
  "drain_contiguous_loop rx =
     (case map_find (rx_ordered_reorder_buffer rx) (rx_next_ordered_delivery rx) of
        None \<Rightarrow> rx
      | Some packet \<Rightarrow>
          drain_contiguous_loop
            (rx\<lparr>rx_pending_events := rx_pending_events rx @ [owned_data_event packet],
               rx_ordered_reorder_buffer :=
                 map_erase (rx_next_ordered_delivery rx) (rx_ordered_reorder_buffer rx),
               rx_next_ordered_delivery := rx_next_ordered_delivery rx + 1\<rparr>))"
  by pat_completeness auto
termination
  by (relation "measure (\<lambda>rx. length (rx_ordered_reorder_buffer rx))")
    (auto intro: length_map_erase_less)

declare drain_contiguous_loop.simps [simp del]

definition drain_contiguous_ordered :: "RxSessionState \<Rightarrow> RxSessionState" where
  "drain_contiguous_ordered rx =
     (if \<not> rx_ordered_delivery_started rx then rx else drain_contiguous_loop rx)"

section \<open>Reliable receive state\<close>

text \<open>
  Returns whether the payload is to be processed, the result written to \<open>result\<close>, and the new state.
\<close>

definition update_reliable_receive_state ::
  "PacketView \<Rightarrow> ControlKind \<Rightarrow> RxPacketResult \<Rightarrow> RxSessionState
   \<Rightarrow> bool \<times> RxPacketResult \<times> RxSessionState"
where
  "update_reliable_receive_state packet control_kind result rx =
     (let header = pv_header packet in
      if \<not> isReliableChannel (h_channel_type header) \<and>
         control_kind \<noteq> KindSyn \<and> control_kind \<noteq> KindSynAck \<and>
         control_kind \<noteq> KindAck \<and> control_kind \<noteq> KindFin
      then (True, result, rx)
      else
        let result = result\<lparr>rr_schedule_ack_only :=
              isReliableChannel (h_channel_type header) \<or> control_kind = KindFin\<rparr>;
            rx = (if rx_next_expected rx = 0 then rx\<lparr>rx_next_expected := h_seq header\<rparr> else rx)
        in if h_seq header = rx_next_expected rx
           then (True, result, advance_receive_window rx)
           else if seq_gt (h_seq header) (rx_next_expected rx)
           then let delta = h_seq header - rx_next_expected rx in
                if unat delta \<le> kAckBitsWindow
                then let bit_mask = push_bit (unat (delta - 1)) (1 :: u64);
                         already_received = (rx_received_bits rx AND bit_mask \<noteq> 0)
                     in (\<not> already_received, result,
                         rx\<lparr>rx_received_bits := rx_received_bits rx OR bit_mask\<rparr>)
                else (False, result, rx)
           else (False, result, rx))"

section \<open>Delivery by channel type\<close>

definition push_event :: "SessionEvent \<Rightarrow> RxSessionState \<Rightarrow> RxSessionState" where
  "push_event event rx = rx\<lparr>rx_pending_events := rx_pending_events rx @ [event]\<rparr>"

definition handle_reliable_ordered :: "PacketView \<Rightarrow> RxSessionState \<Rightarrow> RxSessionState" where
  "handle_reliable_ordered packet rx =
     (let rx = ensure_ordered_delivery_started (h_seq (pv_header packet)) rx;
          rx = rx\<lparr>rx_ordered_reorder_buffer :=
                 map_assign (h_seq (pv_header packet)) (make_owned_packet packet)
                   (rx_ordered_reorder_buffer rx)\<rparr>
      in drain_contiguous_ordered rx)"

definition handle_reliable_unordered :: "PacketView \<Rightarrow> RxSessionState \<Rightarrow> RxSessionState" where
  "handle_reliable_unordered packet rx = push_event (make_data_event packet) rx"

definition handle_unreliable :: "PacketView \<Rightarrow> RxSessionState \<Rightarrow> RxSessionState" where
  "handle_unreliable packet rx = push_event (make_data_event packet) rx"

definition monotonic_version :: "bytes \<Rightarrow> u32" where
  "monotonic_version payload =
     push_bit 24 (ucast (payload ! 0)) OR push_bit 16 (ucast (payload ! 1)) OR
     push_bit 8 (ucast (payload ! 2)) OR ucast (payload ! 3)"

definition handle_monotonic_state :: "PacketView \<Rightarrow> RxSessionState \<Rightarrow> RxSessionState" where
  "handle_monotonic_state packet rx =
     (if length (pv_payload packet) < 4 then rx
      else
        let version = monotonic_version (pv_payload packet);
            channel = h_channel_id (pv_header packet);
            stale = (case map_find (rx_monotonic_versions rx) channel of
                       None \<Rightarrow> False
                     | Some current \<Rightarrow> sint (version - current) \<le> 0)
        in if stale then rx
           else push_event (make_data_event packet)
                  (rx\<lparr>rx_monotonic_versions :=
                       umap_assign channel version (rx_monotonic_versions rx)\<rparr>))"

section \<open>The handler\<close>

text \<open>The \<open>switch\<close> has no default: a channel type without a name delivers nothing.\<close>

definition deliver_payload :: "PacketView \<Rightarrow> RxSessionState \<Rightarrow> RxSessionState" where
  "deliver_payload packet rx =
     (let type = h_channel_type (pv_header packet) in
      if type = ReliableOrdered then handle_reliable_ordered packet rx
      else if type = ReliableUnordered then handle_reliable_unordered packet rx
      else if type = Unreliable then handle_unreliable packet rx
      else if type = MonotonicState then handle_monotonic_state packet rx
      else rx)"

definition on_packet ::
  "PacketView \<Rightarrow> u64 \<Rightarrow> ControlKind \<Rightarrow> RxSessionState \<Rightarrow> RxPacketResult \<times> RxSessionState"
where
  "on_packet packet now_ms control_kind rx =
     (let (should_process_payload, result, rx) =
            update_reliable_receive_state packet control_kind
              \<lparr>rr_schedule_ack_only = False\<rparr> rx
      in if is_control_only control_kind \<or> \<not> should_process_payload then (result, rx)
         else (result, deliver_payload packet rx))"

definition rx_drain_events :: "RxSessionState \<Rightarrow> SessionEvent list \<times> RxSessionState" where
  "rx_drain_events rx = (rx_pending_events rx, rx\<lparr>rx_pending_events := []\<rparr>)"

section \<open>The receive window\<close>

lemma advance_receive_loop_exact:
  "\<exists>t. (\<forall>i < t. bit b i) \<and> \<not> bit b t \<and>
       advance_receive_loop ne b = (ne + of_nat t, drop_bit t b)"
proof (induction ne b rule: advance_receive_loop.induct)
  case (1 ne b)
  show ?case
  proof (cases "bit b 0")
    case False
    then show ?thesis
      by (intro exI [of _ 0]) (simp add: advance_receive_loop.simps [of ne b] and_one_bit0)
  next
    case True
    then have go: "b AND 1 \<noteq> 0" by (simp add: and_one_bit0)
    from "1.IH" [OF go] obtain t where t: "\<forall>i < t. bit (drop_bit 1 b) i" "\<not> bit (drop_bit 1 b) t"
      "advance_receive_loop (ne + 1) (drop_bit 1 b) = (ne + 1 + of_nat t, drop_bit t (drop_bit 1 b))"
      by blast
    have "\<forall>i < Suc t. bit b i" "\<not> bit b (Suc t)"
      using True t(1,2) by (auto simp: bit_drop_bit_eq less_Suc_eq_0_disj)
    moreover have "advance_receive_loop ne b = (ne + of_nat (Suc t), drop_bit (Suc t) b)"
      using go t(3) by (subst advance_receive_loop.simps) (simp add: add.assoc)
    ultimately show ?thesis by blast
  qed
qed

lemma run_of_bits_bound: "\<forall>i < t. bit (b :: u64) i \<Longrightarrow> t \<le> 64"
  by (metis bit_u64_bound less_irrefl not_le)

text \<open>Which packets touch the receive window, and what they do to it by distance from the front.\<close>

definition tracks_reliable :: "PacketView \<Rightarrow> ControlKind \<Rightarrow> bool" where
  "tracks_reliable packet kind \<longleftrightarrow>
     isReliableChannel (h_channel_type (pv_header packet)) \<or>
     kind \<in> {KindSyn, KindSynAck, KindAck, KindFin}"

abbreviation tracked_result :: "PacketView \<Rightarrow> ControlKind \<Rightarrow> RxPacketResult \<Rightarrow> RxPacketResult" where
  "tracked_result packet kind r \<equiv> r\<lparr>rr_schedule_ack_only :=
     isReliableChannel (h_channel_type (pv_header packet)) \<or> kind = KindFin\<rparr>"

lemma update_untracked:
  "\<not> tracks_reliable packet kind \<Longrightarrow>
   update_reliable_receive_state packet kind r rx = (True, r, rx)"
  by (simp add: tracks_reliable_def update_reliable_receive_state_def Let_def)

lemma update_bootstrap:
  assumes "rx_next_expected rx = 0"
  shows "update_reliable_receive_state packet kind r rx =
    (if tracks_reliable packet kind
     then (True, tracked_result packet kind r,
       advance_receive_window (rx\<lparr>rx_next_expected := h_seq (pv_header packet)\<rparr>))
     else (True, r, rx))"
  using assms by (auto simp: tracks_reliable_def update_reliable_receive_state_def Let_def)

lemma update_in_order:
  assumes "tracks_reliable packet kind" and "rx_next_expected rx \<noteq> 0"
    and "h_seq (pv_header packet) = rx_next_expected rx"
  shows "update_reliable_receive_state packet kind r rx =
    (True, tracked_result packet kind r, advance_receive_window rx)"
  using assms by (auto simp: tracks_reliable_def update_reliable_receive_state_def Let_def)

lemma unat_minus_one: "(x :: u32) \<noteq> 0 \<Longrightarrow> unat (x - 1) = unat x - 1"
  by (simp add: unat_u32_diff Suc_leI unat_gt_0)

lemma update_in_window:
  assumes t: "tracks_reliable packet kind" and ne: "rx_next_expected rx \<noteq> 0"
    and d: "unat (h_seq (pv_header packet) - rx_next_expected rx) = Suc i" and i: "i < 64"
  shows "update_reliable_receive_state packet kind r rx =
    (\<not> bit (rx_received_bits rx) i, tracked_result packet kind r,
     rx\<lparr>rx_received_bits := rx_received_bits rx OR 2 ^ i\<rparr>)"
proof -
  let ?d = "h_seq (pv_header packet) - rx_next_expected rx"
  from d have ned: "?d \<noteq> 0" by auto
  then have "unat (?d - 1) = i" using unat_minus_one [of ?d] d by simp
  moreover have "seq_gt (h_seq (pv_header packet)) (rx_next_expected rx)"
    by (rule seq_gt_short) (use d i in simp_all)
  ultimately show ?thesis
    using t ne ned d i
    by (auto simp: tracks_reliable_def update_reliable_receive_state_def Let_def kAckBitsWindow_def
        and_exp_bit)
qed

lemma update_rejected:
  assumes t: "tracks_reliable packet kind" and ne: "rx_next_expected rx \<noteq> 0"
    and d: "64 < unat (h_seq (pv_header packet) - rx_next_expected rx)"
  shows "update_reliable_receive_state packet kind r rx =
    (False, tracked_result packet kind r, rx)"
proof -
  from d have "h_seq (pv_header packet) \<noteq> rx_next_expected rx" by auto
  with t ne d show ?thesis
    by (auto simp: tracks_reliable_def update_reliable_receive_state_def Let_def kAckBitsWindow_def)
qed

lemma advance_receive_window_exact:
  obtains t where "\<forall>i < t. bit (rx_received_bits rx) i" and "\<not> bit (rx_received_bits rx) t"
    and "advance_receive_window rx =
      rx\<lparr>rx_next_expected := rx_next_expected rx + 1 + of_nat t,
         rx_received_bits := drop_bit t (rx_received_bits rx)\<rparr>"
proof -
  obtain t where "\<forall>i < t. bit (rx_received_bits rx) i" "\<not> bit (rx_received_bits rx) t"
    "advance_receive_loop (rx_next_expected rx + 1) (rx_received_bits rx) =
      (rx_next_expected rx + 1 + of_nat t, drop_bit t (rx_received_bits rx))"
    using advance_receive_loop_exact by blast
  then show thesis by (intro that) (simp_all add: advance_receive_window_def)
qed

text \<open>Only the front and the bitmap change.\<close>

lemma advance_receive_window_frame:
  "\<exists>ne b. advance_receive_window rx = rx\<lparr>rx_next_expected := ne, rx_received_bits := b\<rparr>"
  by (simp add: advance_receive_window_def split_beta) blast

lemma rx_same_window:
  "\<exists>ne b. rx = (rx :: RxSessionState)\<lparr>rx_next_expected := ne, rx_received_bits := b\<rparr>"
  by (rule exI [of _ "rx_next_expected rx"], rule exI [of _ "rx_received_bits rx"]) simp

text \<open>The four ways a packet can meet the window, for case analysis.\<close>

lemma receive_cases [case_names untracked bootstrap in_order in_window rejected]:
  assumes "\<not> tracks_reliable packet kind \<Longrightarrow> P"
    and "tracks_reliable packet kind \<Longrightarrow> rx_next_expected rx = 0 \<Longrightarrow> P"
    and "tracks_reliable packet kind \<Longrightarrow> rx_next_expected rx \<noteq> 0 \<Longrightarrow>
      h_seq (pv_header packet) = rx_next_expected rx \<Longrightarrow> P"
    and "\<And>i. tracks_reliable packet kind \<Longrightarrow> rx_next_expected rx \<noteq> 0 \<Longrightarrow>
      unat (h_seq (pv_header packet) - rx_next_expected rx) = Suc i \<Longrightarrow> i < 64 \<Longrightarrow> P"
    and "tracks_reliable packet kind \<Longrightarrow> rx_next_expected rx \<noteq> 0 \<Longrightarrow>
      64 < unat (h_seq (pv_header packet) - rx_next_expected rx) \<Longrightarrow> P"
  shows P
proof (cases "unat (h_seq (pv_header packet) - rx_next_expected rx)")
  case 0
  then have "h_seq (pv_header packet) = rx_next_expected rx" by (simp add: unat_eq_zero)
  then show P using assms(1-3) by blast
next
  case (Suc i)
  then show P using assms by (cases "i < 64") auto
qed

lemma update_frame:
  obtains ok r' ne b where "update_reliable_receive_state packet kind r rx =
     (ok, r', rx\<lparr>rx_next_expected := ne, rx_received_bits := b\<rparr>)"
proof (cases rule: receive_cases [of packet kind _ rx])
  case untracked
  then show thesis using that rx_same_window [of rx] by (metis update_untracked)
next
  case bootstrap
  obtain ne b where "advance_receive_window (rx\<lparr>rx_next_expected := h_seq (pv_header packet)\<rparr>) =
      rx\<lparr>rx_next_expected := ne, rx_received_bits := b\<rparr>"
    using advance_receive_window_frame [of "rx\<lparr>rx_next_expected := h_seq (pv_header packet)\<rparr>"] by auto
  with bootstrap show thesis using that by (simp add: update_bootstrap)
next
  case in_order
  then show thesis using that advance_receive_window_frame [of rx] by (metis update_in_order)
next
  case (in_window i)
  then have "update_reliable_receive_state packet kind r rx =
      (\<not> bit (rx_received_bits rx) i, tracked_result packet kind r,
       rx\<lparr>rx_next_expected := rx_next_expected rx,
          rx_received_bits := rx_received_bits rx OR 2 ^ i\<rparr>)"
    by (simp add: update_in_window)
  then show thesis by (rule that)
next
  case rejected
  then show thesis using that rx_same_window [of rx] by (metis update_rejected)
qed

lemma or_exp_absorb: "bit (b :: u64) i \<Longrightarrow> b OR 2 ^ i = b"
  by (rule bit_word_eqI) (auto simp: bit_or_exp)

section \<open>Ordered delivery\<close>

text \<open>The sequence numbers \<open>n, n + 1, \<dots>\<close> (\<open>k\<close> of them), and those of the ordered data events.\<close>

definition consecutive :: "u32 \<Rightarrow> nat \<Rightarrow> u32 list" where
  "consecutive n k = map (\<lambda>i. n + of_nat i) [0..<k]"

definition is_ordered_event :: "SessionEvent \<Rightarrow> bool" where
  "is_ordered_event e \<longleftrightarrow> ev_type e = DataReceived \<and> ev_channel_type e = ReliableOrdered"

definition ordered_seqs :: "RxSessionState \<Rightarrow> u32 list" where
  "ordered_seqs rx = map ev_seq (filter is_ordered_event (rx_pending_events rx))"

definition buffer_ok :: "(u32, OwnedPacket) std_map \<Rightarrow> bool" where
  "buffer_ok b \<longleftrightarrow> map_ok b \<and>
     (\<forall>(k, packet) \<in> set b.
        h_seq (op_header packet) = k \<and> h_channel_type (op_header packet) = ReliableOrdered)"

lemma consecutive_0 [simp]: "consecutive n 0 = []"
  by (simp add: consecutive_def)

lemma consecutive_Suc: "consecutive n (Suc k) = n # consecutive (n + 1) k"
  by (simp add: consecutive_def upt_conv_Cons map_Suc_upt [symmetric] o_def add_ac del: upt_Suc)

lemma consecutive_append:
  "consecutive n (k + l) = consecutive n k @ consecutive (n + of_nat k) l"
  by (induction k arbitrary: n) (simp_all add: consecutive_Suc add_ac)

lemma length_consecutive [simp]: "length (consecutive n k) = k"
  by (simp add: consecutive_def)

lemma buffer_ok_erase: "buffer_ok b \<Longrightarrow> buffer_ok (map_erase k b)"
  by (auto simp: buffer_ok_def map_ok_map_erase map_erase_def map_ok_filter)

lemma buffer_ok_assign:
  "buffer_ok b \<Longrightarrow> h_seq (op_header packet) = k \<Longrightarrow>
   h_channel_type (op_header packet) = ReliableOrdered \<Longrightarrow> buffer_ok (map_assign k packet b)"
  using set_map_assign_subset [of k packet b]
  by (fastforce simp: buffer_ok_def map_ok_map_assign)

lemma ev_seq_owned [simp]: "ev_seq (owned_data_event packet) = h_seq (op_header packet)"
  by (simp add: owned_data_event_def)

lemma is_ordered_owned [simp]:
  "is_ordered_event (owned_data_event packet) \<longleftrightarrow>
   h_channel_type (op_header packet) = ReliableOrdered"
  by (simp add: owned_data_event_def is_ordered_event_def)

lemma is_ordered_make_data [simp]:
  "is_ordered_event (make_data_event packet) \<longleftrightarrow>
   h_channel_type (pv_header packet) = ReliableOrdered"
  by (simp add: make_data_event_def is_ordered_event_def)

text \<open>
  Draining delivers a run of consecutive sequence numbers from the delivery front, each with the
  buffered packet, and stops at the first hole.
\<close>

lemma drain_contiguous_loop_run:
  assumes "buffer_ok (rx_ordered_reorder_buffer rx)"
  obtains k evs b where
    "drain_contiguous_loop rx =
       rx\<lparr>rx_pending_events := rx_pending_events rx @ evs, rx_ordered_reorder_buffer := b,
          rx_next_ordered_delivery := rx_next_ordered_delivery rx + of_nat k\<rparr>"
    and "map ev_seq evs = consecutive (rx_next_ordered_delivery rx) k"
    and "list_all is_ordered_event evs"
    and "buffer_ok b" and "map_find b (rx_next_ordered_delivery rx + of_nat k) = None"
  using assms
proof (induction rx arbitrary: thesis rule: drain_contiguous_loop.induct)
  case (1 rx)
  show ?case
  proof (cases "map_find (rx_ordered_reorder_buffer rx) (rx_next_ordered_delivery rx)")
    case None
    show ?thesis
      by (rule "1.prems"(1) [where evs = "[]" and b = "rx_ordered_reorder_buffer rx" and k = 0])
        (use None "1.prems"(2) in \<open>simp_all add: drain_contiguous_loop.simps [of rx]\<close>)
  next
    case (Some packet)
    let ?rx = "rx\<lparr>rx_pending_events := rx_pending_events rx @ [owned_data_event packet],
      rx_ordered_reorder_buffer :=
        map_erase (rx_next_ordered_delivery rx) (rx_ordered_reorder_buffer rx),
      rx_next_ordered_delivery := rx_next_ordered_delivery rx + 1\<rparr>"
    have eq: "drain_contiguous_loop rx = drain_contiguous_loop ?rx"
      using Some by (simp add: drain_contiguous_loop.simps [of rx])
    have packet: "h_seq (op_header packet) = rx_next_ordered_delivery rx"
      "h_channel_type (op_header packet) = ReliableOrdered"
      using "1.prems"(2) map_find_SomeD [OF Some] by (auto simp: buffer_ok_def)
    obtain k evs b where IH: "drain_contiguous_loop ?rx =
         ?rx\<lparr>rx_pending_events := rx_pending_events ?rx @ evs, rx_ordered_reorder_buffer := b,
            rx_next_ordered_delivery := rx_next_ordered_delivery ?rx + of_nat k\<rparr>"
      "map ev_seq evs = consecutive (rx_next_ordered_delivery ?rx) k" "list_all is_ordered_event evs"
      "buffer_ok b" "map_find b (rx_next_ordered_delivery ?rx + of_nat k) = None"
      using "1.IH" [OF Some] "1.prems"(2) by (auto simp: buffer_ok_erase)
    show ?thesis
      by (rule "1.prems"(1) [where evs = "owned_data_event packet # evs" and b = b and k = "Suc k"])
        (use eq IH packet in \<open>simp_all add: consecutive_Suc add_ac\<close>)
  qed
qed

text \<open>
  The delivery log: what a receiver that only processes packets has queued for the application on the
  ordered channels is a gap-free run up to the delivery front.
\<close>

definition delivery_inv :: "RxSessionState \<Rightarrow> bool" where
  "delivery_inv rx \<longleftrightarrow> buffer_ok (rx_ordered_reorder_buffer rx) \<and>
     (\<exists>start n. ordered_seqs rx = consecutive start n \<and>
        (if rx_ordered_delivery_started rx then rx_next_ordered_delivery rx = start + of_nat n
         else n = 0))"

lemma ordered_seqs_window [simp]:
  "ordered_seqs (rx\<lparr>rx_next_expected := ne, rx_received_bits := b\<rparr>) = ordered_seqs rx"
  by (simp add: ordered_seqs_def)

lemma delivery_inv_window [simp]:
  "delivery_inv (rx\<lparr>rx_next_expected := ne, rx_received_bits := b\<rparr>) = delivery_inv rx"
  by (simp add: delivery_inv_def)

lemma delivery_inv_versions [simp]:
  "delivery_inv (rx\<lparr>rx_monotonic_versions := m\<rparr>) = delivery_inv rx"
  by (simp add: delivery_inv_def ordered_seqs_def)

lemma delivery_inv_push:
  "\<not> is_ordered_event e \<Longrightarrow> delivery_inv (push_event e rx) = delivery_inv rx"
  by (simp add: delivery_inv_def push_event_def ordered_seqs_def)

lemma handle_reliable_ordered_inv:
  assumes "h_channel_type (pv_header packet) = ReliableOrdered" and "delivery_inv rx"
  shows "delivery_inv (handle_reliable_ordered packet rx)"
proof -
  let ?seq = "h_seq (pv_header packet)"
  let ?rx = "(ensure_ordered_delivery_started ?seq rx)\<lparr>rx_ordered_reorder_buffer :=
      map_assign ?seq (make_owned_packet packet) (rx_ordered_reorder_buffer rx)\<rparr>"
  have b: "buffer_ok (rx_ordered_reorder_buffer ?rx)"
    using assms by (simp add: delivery_inv_def buffer_ok_assign make_owned_packet_def)
  obtain start n where log: "ordered_seqs ?rx = consecutive start n"
      "rx_next_ordered_delivery ?rx = start + of_nat n" and started: "rx_ordered_delivery_started ?rx"
    using assms(2)
    by (cases "rx_ordered_delivery_started rx")
      (fastforce simp: delivery_inv_def ensure_ordered_delivery_started_def ordered_seqs_def
        intro: that [of ?seq 0])+
  obtain k evs b' where drain: "drain_contiguous_loop ?rx =
       ?rx\<lparr>rx_pending_events := rx_pending_events ?rx @ evs, rx_ordered_reorder_buffer := b',
          rx_next_ordered_delivery := rx_next_ordered_delivery ?rx + of_nat k\<rparr>"
    "map ev_seq evs = consecutive (rx_next_ordered_delivery ?rx) k" "list_all is_ordered_event evs"
    "buffer_ok b'"
    using drain_contiguous_loop_run [OF b] by metis
  have eq: "handle_reliable_ordered packet rx = drain_contiguous_loop ?rx"
    using started
    by (simp add: handle_reliable_ordered_def drain_contiguous_ordered_def Let_def
        ensure_ordered_delivery_started_def)
  have "filter is_ordered_event evs = evs"
    using drain(3) by (simp add: list_all_iff filter_id_conv)
  then have "ordered_seqs (drain_contiguous_loop ?rx) = ordered_seqs ?rx @ map ev_seq evs"
    by (simp add: drain(1) ordered_seqs_def)
  then have "ordered_seqs (drain_contiguous_loop ?rx) = consecutive start (n + k)"
    by (simp add: log drain(2) consecutive_append)
  then show ?thesis
    using drain(1,4) started log(2) unfolding eq delivery_inv_def
    by (intro conjI exI [of _ start] exI [of _ "n + k"]) (simp_all add: add.assoc)
qed

lemma handle_monotonic_inv:
  "h_channel_type (pv_header packet) = MonotonicState \<Longrightarrow> delivery_inv rx \<Longrightarrow>
   delivery_inv (handle_monotonic_state packet rx)"
  by (auto simp: handle_monotonic_state_def Let_def delivery_inv_push)

lemma deliver_payload_inv: "delivery_inv rx \<Longrightarrow> delivery_inv (deliver_payload packet rx)"
  by (auto simp: deliver_payload_def Let_def handle_reliable_ordered_inv handle_monotonic_inv
      handle_reliable_unordered_def handle_unreliable_def delivery_inv_push)

lemma on_packet_delivery_inv:
  assumes "delivery_inv rx"
  shows "delivery_inv (snd (on_packet packet now kind rx))"
proof -
  obtain ok r' ne b where "update_reliable_receive_state packet kind \<lparr>rr_schedule_ack_only = False\<rparr> rx =
     (ok, r', rx\<lparr>rx_next_expected := ne, rx_received_bits := b\<rparr>)"
    by (rule update_frame)
  then show ?thesis using assms by (simp add: on_packet_def deliver_payload_inv)
qed

text \<open>A receiver in use: it processes packets and hands its queued events to the application.\<close>

definition rx_init :: "RxSessionState \<Rightarrow> bool" where
  "rx_init rx \<longleftrightarrow> rx = default_rx"

inductive rx_step :: "RxSessionState \<Rightarrow> RxSessionState \<Rightarrow> bool" where
  rx_packet: "rx_step rx (snd (on_packet packet now kind rx))"
| rx_drain: "rx_step rx (snd (rx_drain_events rx))"

inductive_cases rx_stepE: "rx_step rx rx'"

lemma rx_drain_delivery_inv: "delivery_inv rx \<Longrightarrow> delivery_inv (snd (rx_drain_events rx))"
  unfolding delivery_inv_def rx_drain_events_def
  by (clarsimp, rule exI [of _ "rx_next_ordered_delivery rx"], rule exI [of _ "0 :: nat"])
    (simp add: ordered_seqs_def)

interpretation rx_sys: inductive_invariant rx_init rx_step delivery_inv
proof unfold_locales
  show "delivery_inv rx" if "rx_init rx" for rx
    using that by (simp add: rx_init_def delivery_inv_def default_rx_def ordered_seqs_def
        buffer_ok_def exI [of _ 0])
  show "delivery_inv rx'" if "delivery_inv rx" "rx_step rx rx'" for rx rx'
    using that(2,1) by (cases rule: rx_stepE) (auto intro: on_packet_delivery_inv rx_drain_delivery_inv)
qed

text \<open>Delivery leaves the window alone.\<close>

lemma drain_contiguous_loop_window:
  "rx_next_expected (drain_contiguous_loop rx) = rx_next_expected rx \<and>
   rx_received_bits (drain_contiguous_loop rx) = rx_received_bits rx"
  by (induction rx rule: drain_contiguous_loop.induct)
    (subst (1 2) drain_contiguous_loop.simps, auto split: option.splits)

lemma deliver_payload_window [frame_simps]:
  "rx_next_expected (deliver_payload packet rx) = rx_next_expected rx"
  "rx_received_bits (deliver_payload packet rx) = rx_received_bits rx"
  using drain_contiguous_loop_window
  by (auto simp: deliver_payload_def handle_reliable_ordered_def ensure_ordered_delivery_started_def
      drain_contiguous_ordered_def handle_reliable_unordered_def handle_unreliable_def
      handle_monotonic_state_def push_event_def Let_def split: option.splits)

lemma on_packet_window:
  "rx_next_expected (snd (on_packet packet now kind rx)) = rx_next_expected (snd (snd
     (update_reliable_receive_state packet kind \<lparr>rr_schedule_ack_only = False\<rparr> rx)))"
  "rx_received_bits (snd (on_packet packet now kind rx)) = rx_received_bits (snd (snd
     (update_reliable_receive_state packet kind \<lparr>rr_schedule_ack_only = False\<rparr> rx)))"
  by (auto simp: on_packet_def frame_simps split_beta)

section \<open>How far a number of steps can carry a receiver\<close>

text \<open>An initialised front moves forward by at most 65 numbers per step.\<close>

lemma in_order_front:
  assumes "tracks_reliable packet kind" and "rx_next_expected rx \<noteq> 0"
    and "h_seq (pv_header packet) = rx_next_expected rx"
  obtains t where "t \<le> 64"
    and "rx_next_expected (snd (on_packet packet now kind rx)) = h_seq (pv_header packet) + 1 + of_nat t"
proof -
  obtain t where t: "\<forall>i < t. bit (rx_received_bits rx) i"
      "advance_receive_window rx = rx\<lparr>rx_next_expected := rx_next_expected rx + 1 + of_nat t,
         rx_received_bits := drop_bit t (rx_received_bits rx)\<rparr>"
    by (rule advance_receive_window_exact)
  show thesis
    by (rule that [of t]) (simp_all add: run_of_bits_bound [OF t(1)] on_packet_window t(2)
        update_in_order [OF assms] assms(3))
qed

lemma unat_of_nat_u32: "k < 4294967296 \<Longrightarrow> unat (of_nat k :: u32) = k"
  by (simp only: unat_of_nat) simp

lemma behind_front:
  assumes "k \<le> 64"
  shows "64 < unat ((q :: u32) - (q + 1 + of_nat k))"
proof -
  have d: "unat (q + 1 + of_nat k - q) = Suc k" using assms unat_of_nat_u32 [of "Suc k"] by simp
  then have "q + 1 + of_nat k \<noteq> q" by (metis diff_self nat.simps(3) unat_0)
  from unat_minus_swap [OF this] show ?thesis using d assms by simp
qed

lemma front_step:
  assumes "rx_step rx rx'" and "rx_next_expected rx \<noteq> 0"
  shows "\<exists>k \<le> 65. rx_next_expected rx' = rx_next_expected rx + of_nat k"
  using assms(1)
proof cases
  case (rx_packet packet now kind)
  show ?thesis
  proof (cases rule: receive_cases [of packet kind _ rx])
    case in_order
    from in_order_front [OF in_order] obtain t where "t \<le> 64"
      "rx_next_expected rx' = rx_next_expected rx + 1 + of_nat t"
      unfolding rx_packet in_order(3) by metis
    then show ?thesis by (intro exI [of _ "Suc t"]) simp
  qed (use assms(2) in \<open>simp_all add: rx_packet on_packet_window update_untracked
      update_in_window update_rejected exI [of _ 0]\<close>)
next
  case rx_drain
  then show ?thesis by (intro exI [of _ 0]) (simp add: rx_drain_events_def)
qed

lemma front_steps:
  assumes "(rx_step ^^ k) rx rx'" and "rx_next_expected rx \<noteq> 0"
    and "unat (rx_next_expected rx) + 65 * k < 4294967296"
  shows "\<exists>j \<le> 65 * k. unat (rx_next_expected rx') = unat (rx_next_expected rx) + j"
  using assms
proof (induction k arbitrary: rx')
  case (Suc k)
  then obtain mid where mid: "(rx_step ^^ k) rx mid" "rx_step mid rx'" by auto
  from Suc.IH [OF mid(1)] Suc.prems obtain j where
    j: "j \<le> 65 * k" "unat (rx_next_expected mid) = unat (rx_next_expected rx) + j" by auto
  with Suc.prems(2) have "rx_next_expected mid \<noteq> 0" by (auto simp: unat_eq_zero)
  then obtain l where l: "l \<le> 65" "rx_next_expected rx' = rx_next_expected mid + of_nat l"
    using front_step [OF mid(2)] by blast
  from l(1) have "unat (of_nat l :: u32) = l" by (simp add: unat_of_nat_u32)
  with l j Suc.prems(3) show ?case
    by (intro exI [of _ "j + l"]) (simp add: unat_u32_plus)
qed simp

lemma packet_behind_front:
  assumes "isReliableChannel (h_channel_type (pv_header packet))" and "rx_next_expected rx \<noteq> 0"
    and "64 < unat (h_seq (pv_header packet) - rx_next_expected rx)"
  shows "snd (on_packet packet now KindNone rx) = rx"
  using assms by (simp add: on_packet_def tracks_reliable_def update_rejected)

lemma in_order_left_behind:
  assumes "tracks_reliable packet kind" and "rx_next_expected rx \<noteq> 0"
    and "h_seq (pv_header packet) = rx_next_expected rx"
    and "(rx_step ^^ k) (snd (on_packet packet now kind rx)) rx2"
    and "unat (rx_next_expected rx) + 65 * (k + 2) < 4294967296"
  shows "rx_next_expected rx2 \<noteq> 0 \<and> 64 < unat (rx_next_expected rx - rx_next_expected rx2)"
proof -
  let ?rx1 = "snd (on_packet packet now kind rx)"
  obtain i where "i \<le> 64" and "rx_next_expected ?rx1 = rx_next_expected rx + 1 + of_nat i"
    using in_order_front [OF assms(1-3)] unfolding assms(3) by blast
  then have "rx_next_expected ?rx1 = rx_next_expected rx + of_nat (Suc i)" by simp
  with \<open>i \<le> 64\<close> have front: "unat (rx_next_expected ?rx1) = unat (rx_next_expected rx) + Suc i"
    using assms(5) unat_of_nat_u32 [of "Suc i"] by (simp add: unat_u32_plus del: of_nat_Suc)
  then have "rx_next_expected ?rx1 \<noteq> 0" by auto
  with front_steps [OF assms(4)] front \<open>i \<le> 64\<close> assms(5) obtain j where "j \<le> 65 * k"
    and j: "unat (rx_next_expected rx2) = unat (rx_next_expected rx) + Suc (i + j)" by auto
  then have "unat (rx_next_expected rx - rx_next_expected rx2) = 4294967296 - Suc (i + j)"
    by (simp add: unat_u32_diff)
  moreover have "Suc (i + j) + 65 \<le> 65 * (k + 2)" using \<open>i \<le> 64\<close> \<open>j \<le> 65 * k\<close> by simp
  ultimately have "64 < unat (rx_next_expected rx - rx_next_expected rx2)" using assms(5) by linarith
  moreover have "rx_next_expected rx2 \<noteq> 0" using j by auto
  ultimately show ?thesis by simp
qed

text \<open>
  An ordered packet that the delivery front has passed: it stays in the reorder buffer as long as the
  front has not gone round the ring of sequence numbers, and every number the front moves is a packet
  that was buffered since.
\<close>

definition left_behind :: "u32 \<Rightarrow> nat \<Rightarrow> RxSessionState \<Rightarrow> bool" where
  "left_behind n k rx \<longleftrightarrow> rx_ordered_delivery_started rx \<and> buffer_ok (rx_ordered_reorder_buffer rx) \<and>
     map_find (rx_ordered_reorder_buffer rx) n \<noteq> None \<and> n \<notin> set (ordered_seqs rx) \<and>
     (\<exists>j. rx_next_ordered_delivery rx = n + 2 + of_nat j \<and>
          j + length (rx_ordered_reorder_buffer rx) \<le> k + 1)"

lemma left_behind_window [simp]:
  "left_behind n k (rx\<lparr>rx_next_expected := ne, rx_received_bits := b\<rparr>) = left_behind n k rx"
  "left_behind n k (rx\<lparr>rx_monotonic_versions := m\<rparr>) = left_behind n k rx"
  by (simp_all add: left_behind_def ordered_seqs_def)

lemma left_behind_push:
  "\<not> is_ordered_event e \<Longrightarrow> left_behind n k (push_event e rx) = left_behind n k rx"
  by (simp add: left_behind_def push_event_def ordered_seqs_def)

lemma left_behind_Suc: "left_behind n k rx \<Longrightarrow> left_behind n (Suc k) rx"
  unfolding left_behind_def by fastforce

lemma ahead_of_left_behind:
  assumes "j < 4294967294"
  shows "n + 2 + of_nat j \<noteq> (n :: u32)"
proof
  assume "n + 2 + of_nat j = n"
  then have "(of_nat (2 + j) :: u32) = 0" by (simp add: add.assoc)
  then show False using assms unat_of_nat_u32 [of "2 + j"] by simp
qed

lemma left_behind_drain:
  "left_behind n k rx \<Longrightarrow> k < 4294967294 \<Longrightarrow> left_behind n k (drain_contiguous_loop rx)"
proof (induction rx rule: drain_contiguous_loop.induct)
  case (1 rx)
  show ?case
  proof (cases "map_find (rx_ordered_reorder_buffer rx) (rx_next_ordered_delivery rx)")
    case None
    then show ?thesis using "1.prems"(1) by (simp add: drain_contiguous_loop.simps [of rx])
  next
    case (Some packet)
    let ?b = "rx_ordered_reorder_buffer rx" and ?next = "rx_next_ordered_delivery rx"
    let ?rx = "rx\<lparr>rx_pending_events := rx_pending_events rx @ [owned_data_event packet],
      rx_ordered_reorder_buffer := map_erase ?next ?b, rx_next_ordered_delivery := ?next + 1\<rparr>"
    from "1.prems"(1) obtain j where j: "?next = n + 2 + of_nat j" "j + length ?b \<le> k + 1"
      and ok: "buffer_ok ?b" "map_find ?b n \<noteq> None" "rx_ordered_delivery_started rx"
        "n \<notin> set (ordered_seqs rx)" by (auto simp: left_behind_def)
    have less: "length (map_erase ?next ?b) < length ?b" by (rule length_map_erase_less [OF Some])
    then have "j \<le> k" using j(2) by (cases "length ?b") simp_all
    then have ne: "?next \<noteq> n" using "1.prems"(2) j(1) ahead_of_left_behind [of j n] by simp
    have packet: "h_seq (op_header packet) = ?next"
      using ok(1) map_find_SomeD [OF Some] by (auto simp: buffer_ok_def)
    have "left_behind n k ?rx" unfolding left_behind_def
      using ok ne packet less j
      by (intro conjI exI [of _ "Suc j"])
        (simp_all add: buffer_ok_erase map_find_map_erase ordered_seqs_def)
    then have "left_behind n k (drain_contiguous_loop ?rx)" using "1.IH" [OF Some] "1.prems"(2) by simp
    then show ?thesis using Some by (simp add: drain_contiguous_loop.simps [of rx])
  qed
qed

lemma left_behind_ordered:
  assumes "left_behind n k rx" and "Suc k < 4294967294"
    and "h_channel_type (pv_header packet) = ReliableOrdered"
  shows "left_behind n (Suc k) (handle_reliable_ordered packet rx)"
proof -
  let ?seq = "h_seq (pv_header packet)" and ?b = "rx_ordered_reorder_buffer rx"
  let ?rx = "rx\<lparr>rx_ordered_reorder_buffer := map_assign ?seq (make_owned_packet packet) ?b\<rparr>"
  from assms(1) obtain j where j: "rx_next_ordered_delivery rx = n + 2 + of_nat j"
    "j + length ?b \<le> k + 1" and ok: "buffer_ok ?b" "map_find ?b n \<noteq> None"
      "rx_ordered_delivery_started rx" "n \<notin> set (ordered_seqs rx)" by (auto simp: left_behind_def)
  have "left_behind n (Suc k) ?rx" unfolding left_behind_def
    using ok j length_map_assign_le [of ?seq "make_owned_packet packet" ?b] assms(3)
    by (intro conjI exI [of _ j]) (simp_all add: buffer_ok_assign make_owned_packet_def
        map_find_map_assign ordered_seqs_def)
  then have "left_behind n (Suc k) (drain_contiguous_loop ?rx)" using assms(2) by (rule left_behind_drain)
  then show ?thesis using ok(3)
    by (simp add: handle_reliable_ordered_def ensure_ordered_delivery_started_def
        drain_contiguous_ordered_def Let_def)
qed

lemma left_behind_deliver:
  assumes "left_behind n k rx" and "Suc k < 4294967294"
  shows "left_behind n (Suc k) (deliver_payload packet rx)"
  using assms left_behind_Suc [OF assms(1)]
  by (auto simp: deliver_payload_def Let_def left_behind_ordered handle_reliable_unordered_def
      handle_unreliable_def handle_monotonic_state_def left_behind_push)

lemma left_behind_step:
  assumes "rx_step rx rx'" and "left_behind n k rx" and "Suc k < 4294967294"
  shows "left_behind n (Suc k) rx'"
  using assms(1)
proof cases
  case (rx_packet packet now kind)
  obtain ok r' ne b where "update_reliable_receive_state packet kind \<lparr>rr_schedule_ack_only = False\<rparr> rx =
     (ok, r', rx\<lparr>rx_next_expected := ne, rx_received_bits := b\<rparr>)"
    by (rule update_frame)
  then show ?thesis using assms(2,3)
    by (simp add: rx_packet on_packet_def left_behind_deliver left_behind_Suc)
next
  case rx_drain
  then show ?thesis using left_behind_Suc [OF assms(2)]
    by (simp add: rx_drain_events_def left_behind_def ordered_seqs_def)
qed

lemma left_behind_steps:
  assumes "(rx_step ^^ k) rx rx'" and "left_behind n 0 rx" and "k < 4294967294"
  shows "left_behind n k rx'"
  using assms by (induction k arbitrary: rx') (auto intro: left_behind_step)

text \<open>A data packet, for concrete instances.\<close>

definition data_packet :: "ChannelType \<Rightarrow> u32 \<Rightarrow> bytes \<Rightarrow> PacketView" where
  "data_packet t seq payload =
     \<lparr>pv_header = default_header\<lparr>h_seq := seq, h_channel_type := t, h_channel_id := 5\<rparr>,
      pv_payload = payload\<rparr>"

lemma data_packet_fields [simp]:
  "h_seq (pv_header (data_packet t seq payload)) = seq"
  "h_channel_type (pv_header (data_packet t seq payload)) = t"
  "h_channel_id (pv_header (data_packet t seq payload)) = 5"
  "pv_payload (data_packet t seq payload) = payload"
  by (simp_all add: data_packet_def)

section \<open>Properties\<close>

text \<open>
  C7. A tracked packet (a reliable channel, or a handshake, ACK or FIN frame) meets an initialised
  receive window in one of three ways, decided by its distance \<open>d\<close> ahead of the front in the ring of
  sequence numbers: at the front it is accepted and the window advances; one to 64 ahead it is
  accepted exactly if bit \<open>d - 1\<close> was clear, and that bit (no other) is set; anything else (too far
  ahead or already behind the front) is rejected and changes nothing.
\<close>

theorem receive_window_exact:
  assumes "tracks_reliable packet kind" and "rx_next_expected rx \<noteq> 0"
    and "d = unat (h_seq (pv_header packet) - rx_next_expected rx)"
  shows "update_reliable_receive_state packet kind r rx =
    (if d = 0 then (True, tracked_result packet kind r, advance_receive_window rx)
     else if d \<le> kAckBitsWindow
     then (\<not> bit (rx_received_bits rx) (d - 1), tracked_result packet kind r,
           rx\<lparr>rx_received_bits := rx_received_bits rx OR 2 ^ (d - 1)\<rparr>)
     else (False, tracked_result packet kind r, rx))"
proof (cases rule: receive_cases [of packet kind _ rx])
  case (in_window i)
  then show ?thesis using assms(3) by (simp add: update_in_window kAckBitsWindow_def)
qed (use assms in \<open>simp_all add: update_in_order update_rejected kAckBitsWindow_def\<close>)

theorem receive_window_exact_witness:
  "update_reliable_receive_state (data_packet ReliableOrdered 12 []) KindNone
     \<lparr>rr_schedule_ack_only = False\<rparr> (default_rx\<lparr>rx_next_expected := 10\<rparr>) =
   (True, \<lparr>rr_schedule_ack_only = True\<rparr>, default_rx\<lparr>rx_next_expected := 10, rx_received_bits := 2\<rparr>)"
proof -
  let ?p = "data_packet ReliableOrdered 12 []" and ?rx = "default_rx\<lparr>rx_next_expected := 10\<rparr>"
  have t: "tracks_reliable ?p KindNone" by (simp add: tracks_reliable_def isReliableChannel_def)
  have ne: "rx_next_expected ?rx \<noteq> 0" by simp
  have d: "2 = unat (h_seq (pv_header ?p) - rx_next_expected ?rx)" by simp
  show ?thesis unfolding receive_window_exact [OF t ne d]
    by (simp add: kAckBitsWindow_def default_rx_def isReliableChannel_def)
qed

text \<open>
  C31. Advancing the window always returns, and skips exactly the run of set bits at the bottom of the
  bitmap: with \<open>t\<close> such bits the front moves by \<open>1 + t\<close> and the bitmap is shifted by \<open>t\<close>.
\<close>

theorem advance_receive_window_total:
  "\<exists>t. t \<le> 64 \<and> {i. i < t} \<subseteq> {i. bit (rx_received_bits rx) i} \<and> \<not> bit (rx_received_bits rx) t \<and>
     rx_next_expected (advance_receive_window rx) = rx_next_expected rx + 1 + of_nat t \<and>
     (\<forall>i. bit (rx_received_bits (advance_receive_window rx)) i = bit (rx_received_bits rx) (t + i))"
proof -
  obtain t where t: "\<forall>i < t. bit (rx_received_bits rx) i" "\<not> bit (rx_received_bits rx) t"
    "advance_receive_window rx = rx\<lparr>rx_next_expected := rx_next_expected rx + 1 + of_nat t,
       rx_received_bits := drop_bit t (rx_received_bits rx)\<rparr>"
    by (rule advance_receive_window_exact)
  moreover have "t \<le> 64" using t(1) by (rule run_of_bits_bound)
  ultimately show ?thesis by (auto simp: bit_drop_bit_eq)
qed

text \<open>
  A data packet on a channel that is not reliable leaves all reliable receive state alone, whatever
  sequence number it carries, and asks for no ACK.
\<close>

lemma unreliable_leaves_reliable_state:
  assumes "\<not> isReliableChannel (h_channel_type (pv_header packet))"
  shows "rx_next_expected (snd (on_packet packet now KindNone rx)) = rx_next_expected rx \<and>
    rx_received_bits (snd (on_packet packet now KindNone rx)) = rx_received_bits rx \<and>
    rx_ordered_reorder_buffer (snd (on_packet packet now KindNone rx)) = rx_ordered_reorder_buffer rx \<and>
    rx_next_ordered_delivery (snd (on_packet packet now KindNone rx)) = rx_next_ordered_delivery rx \<and>
    \<not> rr_schedule_ack_only (fst (on_packet packet now KindNone rx))"
proof -
  have "\<not> tracks_reliable packet KindNone" using assms by (simp add: tracks_reliable_def)
  then show ?thesis using assms
    by (auto simp: on_packet_def update_untracked is_control_only_def deliver_payload_def Let_def
        isReliableChannel_def handle_unreliable_def push_event_def handle_monotonic_state_def)
qed

text \<open>
  C8. In every state a receiver reaches by processing packets (in any order, with any loss,
  duplication or forgery) and draining its events, the ordered-channel payloads queued for the
  application carry consecutive sequence numbers ending just before the delivery front: ordered
  delivery has no gap, no repetition and no inversion, also across drains.
\<close>

theorem ordered_delivery_gap_free:
  assumes "reachable rx_init rx_step rx" and "rx_ordered_delivery_started rx"
  shows "\<exists>n. ordered_seqs rx = consecutive (rx_next_ordered_delivery rx - of_nat n) n"
proof -
  from assms(1) have "delivery_inv rx" by (rule rx_sys.reachable_inv)
  with assms(2) obtain start n where "ordered_seqs rx = consecutive start n"
    and "rx_next_ordered_delivery rx = start + of_nat n"
    by (auto simp: delivery_inv_def)
  then show ?thesis by (intro exI [of _ n]) simp
qed

theorem ordered_delivery_gap_free_witness:
  "\<exists>n. ordered_seqs (snd (on_packet (data_packet ReliableOrdered 7 [1]) 0 KindNone default_rx)) =
     consecutive (rx_next_ordered_delivery (snd (on_packet (data_packet ReliableOrdered 7 [1]) 0
       KindNone default_rx)) - of_nat n) n"
proof (rule ordered_delivery_gap_free)
  show "reachable rx_init rx_step
      (snd (on_packet (data_packet ReliableOrdered 7 [1]) 0 KindNone default_rx))"
    by (rule reach_step [where step = rx_step, OF reach_init rx_packet]) (simp add: rx_init_def)
  show "rx_ordered_delivery_started
      (snd (on_packet (data_packet ReliableOrdered 7 [1]) 0 KindNone default_rx))"
    by (simp add: on_packet_def update_bootstrap default_rx_def tracks_reliable_def
        isReliableChannel_def is_control_only_def deliver_payload_def handle_reliable_ordered_def
        ensure_ordered_delivery_started_def drain_contiguous_ordered_def drain_contiguous_loop.simps
        map_find_def map_erase_def advance_receive_window_def advance_receive_loop.simps Let_def)
qed

text \<open>
  C28. On a monotonic-state channel the recorded version only moves forward in the circular order, a
  payload is delivered exactly when it is at least four bytes long and its version is newer than the
  recorded one (or the first), and the delivered version becomes the recorded one.
\<close>

theorem monotonic_state_newest_wins:
  assumes "h_channel_type (pv_header packet) = MonotonicState"
    and "channel = h_channel_id (pv_header packet)"
    and "version = monotonic_version (pv_payload packet)"
    and "rx' = snd (on_packet packet now KindNone rx)"
    and "fresh \<longleftrightarrow> 4 \<le> length (pv_payload packet) \<and>
      (\<forall>v. map_find (rx_monotonic_versions rx) channel = Some v \<longrightarrow> \<not> seq_le version v)"
  shows "rx_pending_events rx' =
      rx_pending_events rx @ (if fresh then [make_data_event packet] else []) \<and>
    (\<forall>c. map_find (rx_monotonic_versions rx') c =
      (if fresh \<and> c = channel then Some version else map_find (rx_monotonic_versions rx) c))"
proof -
  have "\<not> tracks_reliable packet KindNone"
    using assms(1) by (simp add: tracks_reliable_def isReliableChannel_def)
  then have "rx' = handle_monotonic_state packet rx"
    using assms(1,4) by (simp add: on_packet_def update_untracked is_control_only_def
        deliver_payload_def)
  then show ?thesis using assms(2,3,5)
    by (auto simp: handle_monotonic_state_def Let_def push_event_def map_find_umap_assign seq_le_def
        split: option.splits)
qed

theorem monotonic_state_newest_wins_witness:
  "rx_pending_events (snd (on_packet (data_packet MonotonicState 0 [0, 0, 0, 9]) 0 KindNone
     (default_rx\<lparr>rx_monotonic_versions := [(5, 8)]\<rparr>))) =
   [make_data_event (data_packet MonotonicState 0 [0, 0, 0, 9])]"
  using monotonic_state_newest_wins [where packet = "data_packet MonotonicState 0 [0, 0, 0, 9]"
      and now = 0 and rx = "default_rx\<lparr>rx_monotonic_versions := [(5, 8)]\<rparr>",
      OF _ refl refl refl refl]
  by (simp add: map_find_def monotonic_version_def seq_le_def default_rx_def)

text \<open>
  C37. Ordered delivery starts at whichever ordered packet arrives first. If packet \<open>n + 1\<close> overtakes
  packet \<open>n\<close> at the start of the stream, the window acknowledges both, \<open>n + 1\<close> is delivered, and \<open>n\<close>
  goes to the reorder buffer behind the delivery front. There it stays: whatever packets the receiver
  processes and however it drains its events afterwards, for up to \<open>2^32 - 3\<close> further steps (by then
  the sequence numbers may have gone round), number \<open>n\<close> is still buffered and has not been among the
  queued events of the ordered channels.
\<close>

theorem ordered_start_reordered_not_delivered:
  assumes "\<not> rx_ordered_delivery_started rx" and "rx_ordered_reorder_buffer rx = []"
    and "n \<notin> set (ordered_seqs rx)"
    and "rx_next_expected rx = n" and "n \<noteq> 0" and "rx_received_bits rx = 0"
    and "h_channel_type (pv_header first) = ReliableOrdered" and "h_seq (pv_header first) = n + 1"
    and "h_channel_type (pv_header second) = ReliableOrdered" and "h_seq (pv_header second) = n"
    and "rx' = snd (on_packet second now' KindNone (snd (on_packet first now KindNone rx)))"
  shows "rx_next_expected rx' = n + 2 \<and> rx_received_bits rx' = 0 \<and>
    rx_pending_events rx' = rx_pending_events rx @ [make_data_event first] \<and>
    rx_next_ordered_delivery rx' = n + 2 \<and>
    rx_ordered_reorder_buffer rx' = [(n, make_owned_packet second)] \<and>
    (\<forall>k rx''. k < 4294967294 \<longrightarrow> (rx_step ^^ k) rx' rx'' \<longrightarrow>
       map_find (rx_ordered_reorder_buffer rx'') n \<noteq> None \<and> n \<notin> set (ordered_seqs rx''))"
proof -
  let ?rx1 = "rx\<lparr>rx_received_bits := 1\<rparr>"
  have "tracks_reliable first KindNone" "tracks_reliable second KindNone"
    using assms(7,9) by (simp_all add: tracks_reliable_def isReliableChannel_def)
  note tracked = this
  have u1: "update_reliable_receive_state first KindNone r rx =
      (True, tracked_result first KindNone r, ?rx1)" for r
    using update_in_window [OF tracked(1), of rx 0 r] assms by simp
  have d1: "snd (on_packet first now KindNone rx) =
      ?rx1\<lparr>rx_pending_events := rx_pending_events rx @ [make_data_event first],
        rx_next_ordered_delivery := n + 2, rx_ordered_delivery_started := True\<rparr>"
    using assms(1,2,7,8) by (simp add: on_packet_def u1 is_control_only_def deliver_payload_def
        handle_reliable_ordered_def ensure_ordered_delivery_started_def Let_def
        drain_contiguous_ordered_def drain_contiguous_loop.simps map_find_def map_erase_def
        owned_data_event_def make_owned_packet_def make_data_event_def add_ac)
  have rx': "rx_next_expected rx' = n + 2" "rx_received_bits rx' = 0"
    "rx_pending_events rx' = rx_pending_events rx @ [make_data_event first]"
    "rx_next_ordered_delivery rx' = n + 2" "rx_ordered_delivery_started rx'"
    "rx_ordered_reorder_buffer rx' = [(n, make_owned_packet second)]"
    unfolding assms(11) d1
    using update_in_order [OF tracked(2)] assms(2,4-6,9,10)
    by (simp_all add: on_packet_def is_control_only_def deliver_payload_def handle_reliable_ordered_def
        ensure_ordered_delivery_started_def Let_def drain_contiguous_ordered_def
        drain_contiguous_loop.simps map_find_def advance_receive_window_def
        advance_receive_loop.simps add_ac)
  then have "left_behind n 0 rx'" unfolding left_behind_def
    using assms(3,7-10) by (intro conjI exI [of _ 0])
      (simp_all add: buffer_ok_def map_ok_Cons make_owned_packet_def map_find_def ordered_seqs_def
        make_data_event_def)
  then show ?thesis using rx' left_behind_steps [of _ rx' _ n] by (simp add: left_behind_def)
qed

theorem ordered_start_reordered_not_delivered_witness:
  "map_find (rx_ordered_reorder_buffer (snd (on_packet (data_packet ReliableOrdered 12 [3]) 4 KindNone
     (snd (on_packet (data_packet ReliableOrdered 10 [1]) 2 KindNone
       (snd (on_packet (data_packet ReliableOrdered 11 [2]) 1 KindNone
          (default_rx\<lparr>rx_next_expected := 10\<rparr>)))))))) 10 \<noteq> None"
proof -
  let ?rx' = "snd (on_packet (data_packet ReliableOrdered 10 [1]) 2 KindNone
       (snd (on_packet (data_packet ReliableOrdered 11 [2]) 1 KindNone
          (default_rx\<lparr>rx_next_expected := 10\<rparr>))))"
  have "(rx_step ^^ 1) ?rx' (snd (on_packet (data_packet ReliableOrdered 12 [3]) 4 KindNone ?rx'))"
    unfolding relpowp_1 by (rule rx_packet)
  moreover have "\<forall>k rx''. k < 4294967294 \<longrightarrow> (rx_step ^^ k) ?rx' rx'' \<longrightarrow>
      map_find (rx_ordered_reorder_buffer rx'') 10 \<noteq> None \<and> 10 \<notin> set (ordered_seqs rx'')"
    using ordered_start_reordered_not_delivered [where rx = "default_rx\<lparr>rx_next_expected := 10\<rparr>"
      and n = 10 and first = "data_packet ReliableOrdered 11 [2]"
      and second = "data_packet ReliableOrdered 10 [1]" and now = 1 and now' = 2,
      OF _ _ _ _ _ _ _ _ _ _ refl]
    by (simp add: default_rx_def ordered_seqs_def)
  moreover have "(1 :: nat) < 4294967294" by simp
  ultimately show ?thesis by blast
qed

text \<open>
  C38. The ordered channels wait for every reliable sequence number, also for those other reliable
  traffic consumed. With the ordered stream at \<open>n\<close>, receiving an unordered packet \<open>n\<close> and then the
  ordered packet \<open>n + 1\<close>, both in order and both acknowledged, delivers the first and leaves the
  second in the reorder buffer.
\<close>

theorem ordered_blocked_by_unordered:
  assumes "rx_ordered_delivery_started rx" and "rx_next_ordered_delivery rx = n"
    and "rx_ordered_reorder_buffer rx = []"
    and "rx_next_expected rx = n" and "n \<noteq> 0" and "n + 1 \<noteq> 0" and "rx_received_bits rx = 0"
    and "h_channel_type (pv_header first) = ReliableUnordered" and "h_seq (pv_header first) = n"
    and "h_channel_type (pv_header second) = ReliableOrdered" and "h_seq (pv_header second) = n + 1"
    and "rx' = snd (on_packet second now KindNone (snd (on_packet first now KindNone rx)))"
  shows "rx_next_expected rx' = n + 2 \<and>
    rx_pending_events rx' = rx_pending_events rx @ [make_data_event first] \<and>
    rx_next_ordered_delivery rx' = n \<and>
    rx_ordered_reorder_buffer rx' = [(n + 1, make_owned_packet second)]"
proof -
  have tracked: "tracks_reliable first KindNone" "tracks_reliable second KindNone"
    using assms(8,10) by (simp_all add: tracks_reliable_def isReliableChannel_def)
  have d1: "snd (on_packet first now KindNone rx) =
      rx\<lparr>rx_next_expected := n + 1, rx_pending_events := rx_pending_events rx @ [make_data_event first]\<rparr>"
    using update_in_order [OF tracked(1), of rx] assms(4,5,7-9)
    by (simp add: on_packet_def is_control_only_def deliver_payload_def handle_reliable_unordered_def
        push_event_def advance_receive_window_def advance_receive_loop.simps)
  show ?thesis
    unfolding assms(12) d1
    using update_in_order [OF tracked(2)] assms(1-3,5-7,10,11)
    by (simp add: on_packet_def is_control_only_def deliver_payload_def handle_reliable_ordered_def
        ensure_ordered_delivery_started_def Let_def drain_contiguous_ordered_def
        drain_contiguous_loop.simps map_find_def advance_receive_window_def
        advance_receive_loop.simps add_ac)
qed

theorem ordered_blocked_by_unordered_witness:
  "rx_ordered_reorder_buffer (snd (on_packet (data_packet ReliableOrdered 11 [1]) 0 KindNone
     (snd (on_packet (data_packet ReliableUnordered 10 [2]) 0 KindNone
        (default_rx\<lparr>rx_next_expected := 10, rx_next_ordered_delivery := 10,
           rx_ordered_delivery_started := True\<rparr>))))) =
   [(11, make_owned_packet (data_packet ReliableOrdered 11 [1]))]"
  using ordered_blocked_by_unordered [where rx = "default_rx\<lparr>rx_next_expected := 10,
        rx_next_ordered_delivery := 10, rx_ordered_delivery_started := True\<rparr>"
      and n = 10 and first = "data_packet ReliableUnordered 10 [2]"
      and second = "data_packet ReliableOrdered 11 [1]" and now = 0, OF _ _ _ _ _ _ _ _ _ _ _ refl]
  by (simp add: default_rx_def)

text \<open>
  C39. The front value 0 doubles as "not initialised". When the front has wrapped to 0 (packet
  \<open>2^32 - 1\<close> arrived in order), the next tracked packet is taken as the new start whatever its
  sequence number \<open>q\<close>: the front jumps to \<open>q + 1\<close>, so packets \<open>0\<close> to \<open>q - 1\<close> are acknowledged unseen.
\<close>

theorem wrapped_front_is_reset:
  assumes "rx_next_expected rx = 0xffffffff" and "rx_received_bits rx = 0"
    and "tracks_reliable first kind" and "h_seq (pv_header first) = 0xffffffff"
    and "tracks_reliable second kind'" and "h_seq (pv_header second) = q"
    and "rx' = snd (snd (update_reliable_receive_state first kind r rx))"
  shows "rx_next_expected rx' = 0 \<and>
    update_reliable_receive_state second kind' r' rx' =
      (True, tracked_result second kind' r', rx'\<lparr>rx_next_expected := q + 1\<rparr>)"
  using update_in_order [OF assms(3), of rx r] assms
  by (simp add: update_bootstrap advance_receive_window_def advance_receive_loop.simps)

theorem wrapped_front_is_reset_witness:
  "rx_next_expected (snd (snd (update_reliable_receive_state (data_packet ReliableUnordered 0xffffffff [])
     KindNone \<lparr>rr_schedule_ack_only = False\<rparr> (default_rx\<lparr>rx_next_expected := 0xffffffff\<rparr>)))) = 0"
  using wrapped_front_is_reset [where rx = "default_rx\<lparr>rx_next_expected := 0xffffffff\<rparr>"
      and first = "data_packet ReliableUnordered 0xffffffff []" and kind = KindNone
      and second = "data_packet ReliableUnordered 40 []" and kind' = KindNone and q = 40
      and r = "\<lparr>rr_schedule_ack_only = False\<rparr>", OF _ _ _ _ _ _ refl]
  by (simp add: default_rx_def tracks_reliable_def isReliableChannel_def)

text \<open>
  A pure ACK carries sequence number 0 and consumes none, yet it updates the receive window: when
  the front is at most 64 short of the wrap it marks packet 0 as received, and the real packet 0 of a
  reliable channel is then rejected as a duplicate and never delivered.
\<close>

lemma pure_ack_marks_sequence_zero:
  assumes "rx_next_expected rx \<noteq> 0" and "unat (- rx_next_expected rx) \<le> 64"
    and "h_seq (pv_header ack) = 0"
    and "h_seq (pv_header packet) = 0" and "isReliableChannel (h_channel_type (pv_header packet))"
    and "rx' = snd (on_packet ack now KindAck rx)"
  shows "bit (rx_received_bits rx') (unat (- rx_next_expected rx) - 1) \<and>
    rx_next_expected rx' = rx_next_expected rx \<and>
    rx_pending_events (snd (on_packet packet now' KindNone rx')) = rx_pending_events rx'"
proof -
  obtain i where i: "unat (- rx_next_expected rx) = Suc i"
    using assms(1) by (cases "unat (- rx_next_expected rx)") (auto simp: unat_eq_zero)
  with assms(2) have "i < 64" by simp
  note u = update_in_window [of _ _ _ i, OF _ _ _ this]
  have rx': "rx' = rx\<lparr>rx_received_bits := rx_received_bits rx OR 2 ^ i\<rparr>"
    using assms(1,3,6) i by (simp add: on_packet_def u tracks_reliable_def is_control_only_def)
  then show ?thesis
    using assms(1,4,5) i \<open>i < 64\<close> by (simp add: on_packet_def u tracks_reliable_def bit_or_exp)
qed

text \<open>
  C23. Copies of a reliable packet are suppressed, as far as the code suppresses them. Unless the
  front is 0 before or after it (there the receiver counts as not initialised), once a receiver has
  processed a packet of a reliable channel, in whatever position of the window (accepted, duplicate or
  out of reach), another packet with the same sequence number that comes next leaves the whole state
  unchanged. If the packet was in order, a copy does so also after any \<open>k\<close> further packets and drains,
  provided the numbers cannot wrap meanwhile (65 per step, the most the front can move, and the width of the window).
\<close>

theorem reliable_copy_suppressed:
  assumes "isReliableChannel (h_channel_type (pv_header packet))" and "rx_next_expected rx \<noteq> 0"
    and "rx1 = snd (on_packet packet now KindNone rx)"
    and "isReliableChannel (h_channel_type (pv_header copy))"
    and "h_seq (pv_header copy) = h_seq (pv_header packet)"
  shows "(rx_next_expected rx1 \<noteq> 0 \<longrightarrow> snd (on_packet copy now' KindNone rx1) = rx1) \<and>
    (\<forall>k rx2. h_seq (pv_header packet) = rx_next_expected rx \<longrightarrow> (rx_step ^^ k) rx1 rx2 \<longrightarrow>
       unat (rx_next_expected rx) + 65 * (k + 2) < 4294967296 \<longrightarrow>
       snd (on_packet copy now' KindNone rx2) = rx2)"
proof -
  have t: "tracks_reliable packet KindNone" "tracks_reliable copy KindNone"
    using assms(1,4) by (simp_all add: tracks_reliable_def)
  note ignored = packet_behind_front [OF assms(4), unfolded assms(5)]
  have "snd (on_packet copy now' KindNone rx1) = rx1" if ne: "rx_next_expected rx1 \<noteq> 0"
  proof (cases rule: receive_cases [of packet KindNone _ rx])
    case in_order
    from in_order_front [OF in_order] obtain k where "k \<le> 64"
      and "rx_next_expected rx1 = h_seq (pv_header packet) + 1 + of_nat k" unfolding assms(3) by blast
    then have "64 < unat (h_seq (pv_header packet) - rx_next_expected rx1)"
      by (simp only: behind_front)
    then show ?thesis using ignored ne by simp
  next
    case (in_window i)
    note w = update_in_window [OF in_window]
    have "rx_next_expected rx1 = rx_next_expected rx" "bit (rx_received_bits rx1) i"
      using w in_window(4) by (simp_all add: assms(3) on_packet_window bit_or_exp)
    moreover from this have "rx1\<lparr>rx_received_bits := rx_received_bits rx1 OR 2 ^ i\<rparr> = rx1"
      by (simp add: or_exp_absorb)
    ultimately show ?thesis
      using update_in_window [OF t(2) ne _ in_window(4)] in_window(3) assms(5)
      by (simp add: on_packet_def)
  next
    case rejected
    then have "rx_next_expected rx1 = rx_next_expected rx"
      by (simp add: assms(3) on_packet_window update_rejected)
    then show ?thesis using ignored ne rejected(3) by simp
  qed (use assms(2) t in simp_all)
  moreover have "snd (on_packet copy now' KindNone rx2) = rx2"
    if here: "h_seq (pv_header packet) = rx_next_expected rx" and run: "(rx_step ^^ k) rx1 rx2"
      and far: "unat (rx_next_expected rx) + 65 * (k + 2) < 4294967296" for k rx2
    using ignored in_order_left_behind [OF t(1) assms(2) here run [unfolded assms(3)] far]
    by (simp add: assms(3) here)
  ultimately show ?thesis by blast
qed

theorem reliable_copy_suppressed_witness:
  "snd (on_packet (data_packet ReliableUnordered 12 [1]) 7 KindNone
     (snd (on_packet (data_packet ReliableUnordered 12 [1]) 6 KindNone
        (default_rx\<lparr>rx_next_expected := 10\<rparr>)))) =
   snd (on_packet (data_packet ReliableUnordered 12 [1]) 6 KindNone
        (default_rx\<lparr>rx_next_expected := 10\<rparr>)) \<and>
   snd (on_packet (data_packet ReliableOrdered 10 [1]) 9 KindNone
     (snd (on_packet (data_packet ReliableOrdered 11 [2]) 8 KindNone
       (snd (on_packet (data_packet ReliableOrdered 10 [1]) 7 KindNone
          (default_rx\<lparr>rx_next_expected := 10\<rparr>)))))) =
     snd (on_packet (data_packet ReliableOrdered 11 [2]) 8 KindNone
       (snd (on_packet (data_packet ReliableOrdered 10 [1]) 7 KindNone
          (default_rx\<lparr>rx_next_expected := 10\<rparr>))))"
proof
  let ?rx = "default_rx\<lparr>rx_next_expected := 10\<rparr>"
  have "rx_next_expected (snd (on_packet (data_packet ReliableUnordered 12 [1]) 6 KindNone ?rx)) \<noteq> 0"
    by (simp add: on_packet_window update_in_window [where i = 1] tracks_reliable_def
        isReliableChannel_def)
  then show "snd (on_packet (data_packet ReliableUnordered 12 [1]) 7 KindNone
     (snd (on_packet (data_packet ReliableUnordered 12 [1]) 6 KindNone ?rx))) =
     snd (on_packet (data_packet ReliableUnordered 12 [1]) 6 KindNone ?rx)"
    using reliable_copy_suppressed [where rx = ?rx and packet = "data_packet ReliableUnordered 12 [1]"
        and copy = "data_packet ReliableUnordered 12 [1]" and now = 6 and now' = 7, OF _ _ refl]
    by (simp add: isReliableChannel_def)
  let ?rx1 = "snd (on_packet (data_packet ReliableOrdered 10 [1]) 7 KindNone ?rx)"
  have "(rx_step ^^ 1) ?rx1 (snd (on_packet (data_packet ReliableOrdered 11 [2]) 8 KindNone ?rx1))"
    unfolding relpowp_1 by (rule rx_packet)
  moreover have "unat (rx_next_expected ?rx) + 65 * (1 + 2) < 4294967296"
    "h_seq (pv_header (data_packet ReliableOrdered 10 [1])) = rx_next_expected ?rx" by simp_all
  moreover have "\<forall>k rx2. h_seq (pv_header (data_packet ReliableOrdered 10 [1])) = rx_next_expected ?rx \<longrightarrow>
      (rx_step ^^ k) ?rx1 rx2 \<longrightarrow> unat (rx_next_expected ?rx) + 65 * (k + 2) < 4294967296 \<longrightarrow>
      snd (on_packet (data_packet ReliableOrdered 10 [1]) 9 KindNone rx2) = rx2"
    using reliable_copy_suppressed [where rx = ?rx and packet = "data_packet ReliableOrdered 10 [1]"
        and copy = "data_packet ReliableOrdered 10 [1]" and now = 7 and now' = 9, OF _ _ refl]
    by (simp add: isReliableChannel_def)
  ultimately show "snd (on_packet (data_packet ReliableOrdered 10 [1]) 9 KindNone
     (snd (on_packet (data_packet ReliableOrdered 11 [2]) 8 KindNone ?rx1))) =
     snd (on_packet (data_packet ReliableOrdered 11 [2]) 8 KindNone ?rx1)" by blast
qed

end
