(* ===== verification/Rudp_Utils.thy ===== *)
theory Rudp_Utils
  imports Rudp_Protocol
begin

text \<open>
  Model of \<open>src/Utils.cpp\<close>: big-endian reads and writes at an offset of a byte buffer, and the string
  helpers. Reads and writes index the span without a check, as the code does; the callers establish
  that the offsets are in range. The lemmas give the round trip of a write and a read, what a write
  leaves alone, and the meaning of \<open>trim\<close>.
\<close>

section \<open>Big-endian access\<close>

definition readU32 :: "bytes \<Rightarrow> nat \<Rightarrow> u32" where
  "readU32 bs offset =
     push_bit 24 (ucast (bs ! (offset + 0))) OR
     push_bit 16 (ucast (bs ! (offset + 1))) OR
     push_bit 8 (ucast (bs ! (offset + 2))) OR
     ucast (bs ! (offset + 3))"

fun readU64_loop :: "bytes \<Rightarrow> nat \<Rightarrow> nat list \<Rightarrow> u64 \<Rightarrow> u64" where
  "readU64_loop bs offset [] value = value"
| "readU64_loop bs offset (index # rest) value =
     readU64_loop bs offset rest (push_bit 8 value OR ucast (bs ! (offset + index)))"

definition readU64 :: "bytes \<Rightarrow> nat \<Rightarrow> u64" where
  "readU64 bs offset = readU64_loop bs offset [0..<8] 0"

definition writeU32 :: "bytes \<Rightarrow> nat \<Rightarrow> u32 \<Rightarrow> bytes" where
  "writeU32 bs offset value =
     (((bs[offset + 0 := ucast (drop_bit 24 value AND 0xff)])
          [offset + 1 := ucast (drop_bit 16 value AND 0xff)])
          [offset + 2 := ucast (drop_bit 8 value AND 0xff)])
          [offset + 3 := ucast (value AND 0xff)]"

fun writeU64_loop :: "bytes \<Rightarrow> nat \<Rightarrow> nat list \<Rightarrow> u64 \<Rightarrow> bytes" where
  "writeU64_loop bs offset [] value = bs"
| "writeU64_loop bs offset (index # rest) value =
     (let shift = (7 - index) * 8
      in writeU64_loop (bs[offset + index := ucast (drop_bit shift value AND 0xff)])
           offset rest value)"

definition writeU64 :: "bytes \<Rightarrow> nat \<Rightarrow> u64 \<Rightarrow> bytes" where
  "writeU64 bs offset value = writeU64_loop bs offset [0..<8] value"

section \<open>Strings\<close>

text \<open>\<open>std::isspace\<close> in the C locale.\<close>

definition isspace :: "char \<Rightarrow> bool" where
  "isspace c = (of_char c \<in> {9, 10, 11, 12, 13, 32 :: nat})"

function trim_first :: "string \<Rightarrow> nat \<Rightarrow> nat" where
  "trim_first value first =
     (if first < length value \<and> isspace (value ! first) then trim_first value (first + 1)
      else first)"
  by pat_completeness auto
termination
  by (relation "measure (\<lambda>(value, first). length value - first)") auto

fun trim_last :: "string \<Rightarrow> nat \<Rightarrow> nat \<Rightarrow> nat" where
  "trim_last value first 0 = 0"
| "trim_last value first (Suc l) =
     (if first < Suc l \<and> isspace (value ! l) then trim_last value first l else Suc l)"

definition trim :: "string \<Rightarrow> string" where
  "trim value =
     (let first = trim_first value 0;
          last = trim_last value first (length value)
      in take (last - first) (drop first value))"

definition unquote :: "string \<Rightarrow> string" where
  "unquote value =
     (if 2 \<le> length value \<and>
         (hd value = CHR 0x22 \<and> last value = CHR 0x22 \<or>
          hd value = CHR 0x27 \<and> last value = CHR 0x27)
      then take (length value - 2) (drop 1 value)
      else value)"

text \<open>
  \<open>parseBool\<close> returns whether it recognised the text and writes the target only then: \<open>None\<close> leaves
  the target alone.
\<close>

definition parseBool :: "string \<Rightarrow> bool option" where
  "parseBool value =
     (if value = ''true'' then Some True
      else if value = ''false'' then Some False
      else None)"

definition channelTypeName :: "ChannelType \<Rightarrow> string" where
  "channelTypeName type =
     (if type = ReliableOrdered then ''reliable_ordered''
      else if type = ReliableUnordered then ''reliable_unordered''
      else if type = Unreliable then ''unreliable''
      else if type = MonotonicState then ''monotonic_state''
      else ''unknown'')"

section \<open>Bytes of words\<close>

lemma length_writeU32 [simp]: "length (writeU32 bs i v) = length bs"
  by (simp add: writeU32_def)

lemma length_writeU64_loop: "length (writeU64_loop bs i xs v) = length bs"
  by (induction bs i xs v rule: writeU64_loop.induct) (auto simp: Let_def)

lemma length_writeU64 [simp]: "length (writeU64 bs i v) = length bs"
  by (simp add: writeU64_def length_writeU64_loop)

lemma upt_8: "[0..<8] = [0, 1, 2, 3, 4, 5, 6, 7 :: nat]"
  by (simp add: upt_rec)

lemma ff_mask: "(0xff :: 'a :: len word) = mask 8"
  by (simp add: mask_eq_exp_minus_1)

lemma bit_byte:
  "bit (ucast (ucast (drop_bit k (v :: 'a :: len word) AND 0xff) :: u8) :: 'a word) n \<longleftrightarrow>
   n < 8 \<and> bit v (k + n)"
  by (simp only: ff_mask) (auto simp: bit_simps dest: bit_imp_le_length)

lemma bit_byte0:
  "bit (ucast (ucast ((v :: 'a :: len word) AND 0xff) :: u8) :: 'a word) n \<longleftrightarrow> n < 8 \<and> bit v n"
  using bit_byte [of 0 v n] by simp

lemma bit_push_byte:
  "bit (push_bit k (ucast (ucast (drop_bit k (v :: 'a :: len word) AND 0xff) :: u8) :: 'a word)) n
   \<longleftrightarrow> k \<le> n \<and> n < k + 8 \<and> bit v n"
  by (auto simp only: bit_push_bit_iff bit_byte) (auto dest: bit_imp_le_length)

lemma byte_join_u32:
  "push_bit 24 (ucast (ucast (drop_bit 24 v AND 0xff) :: u8)) OR
   push_bit 16 (ucast (ucast (drop_bit 16 v AND 0xff) :: u8)) OR
   push_bit 8 (ucast (ucast (drop_bit 8 v AND 0xff) :: u8)) OR
   ucast (ucast (v AND 0xff) :: u8) = (v :: u32)"
  by (rule bit_word_eqI) (simp only: bit_or_iff bit_push_byte bit_byte0, auto)

lemma byte_join_u64:
  "push_bit 56 (ucast (ucast (drop_bit 56 v AND 0xff) :: u8)) OR
   push_bit 48 (ucast (ucast (drop_bit 48 v AND 0xff) :: u8)) OR
   push_bit 40 (ucast (ucast (drop_bit 40 v AND 0xff) :: u8)) OR
   push_bit 32 (ucast (ucast (drop_bit 32 v AND 0xff) :: u8)) OR
   push_bit 24 (ucast (ucast (drop_bit 24 v AND 0xff) :: u8)) OR
   push_bit 16 (ucast (ucast (drop_bit 16 v AND 0xff) :: u8)) OR
   push_bit 8 (ucast (ucast (drop_bit 8 v AND 0xff) :: u8)) OR
   ucast (ucast (v AND 0xff) :: u8) = (v :: u64)"
  by (rule bit_word_eqI) (simp only: bit_or_iff bit_push_byte bit_byte0, auto)

lemma readU64_unfold:
  "readU64 bs i =
     push_bit 56 (ucast (bs ! i)) OR push_bit 48 (ucast (bs ! (i + 1))) OR
     push_bit 40 (ucast (bs ! (i + 2))) OR push_bit 32 (ucast (bs ! (i + 3))) OR
     push_bit 24 (ucast (bs ! (i + 4))) OR push_bit 16 (ucast (bs ! (i + 5))) OR
     push_bit 8 (ucast (bs ! (i + 6))) OR ucast (bs ! (i + 7))"
  by (simp add: readU64_def upt_8 push_bit_or or.assoc)

section \<open>Round trips\<close>

lemma readU32_writeU32:
  "i + 3 < length bs \<Longrightarrow> readU32 (writeU32 bs i v) i = v"
  by (simp add: readU32_def writeU32_def byte_join_u32 nth_list_update)

lemma readU64_writeU64:
  "i + 7 < length bs \<Longrightarrow> readU64 (writeU64 bs i v) i = v"
  by (simp add: readU64_unfold writeU64_def upt_8 Let_def nth_list_update byte_join_u64)

text \<open>A write leaves every byte outside its range alone, so reads of other fields do not see it.\<close>

lemma nth_writeU32: "j < i \<or> i + 3 < j \<Longrightarrow> writeU32 bs i v ! j = bs ! j"
  by (auto simp: writeU32_def)

lemma nth_writeU64: "j < i \<or> i + 7 < j \<Longrightarrow> writeU64 bs i v ! j = bs ! j"
  by (auto simp: writeU64_def upt_8 Let_def)

lemma readU32_frame:
  "(\<And>j. i \<le> j \<Longrightarrow> j \<le> i + 3 \<Longrightarrow> bs ! j = cs ! j) \<Longrightarrow> readU32 bs i = readU32 cs i"
  by (simp add: readU32_def)

lemma readU64_frame:
  "(\<And>j. i \<le> j \<Longrightarrow> j \<le> i + 7 \<Longrightarrow> bs ! j = cs ! j) \<Longrightarrow> readU64 bs i = readU64 cs i"
  by (simp add: readU64_unfold)

lemma readU32_writeU32_other:
  "j + 3 < i \<or> i + 3 < j \<Longrightarrow> readU32 (writeU32 bs i v) j = readU32 bs j"
  by (rule readU32_frame) (auto intro: nth_writeU32)

lemma readU32_writeU64_other:
  "j + 3 < i \<or> i + 7 < j \<Longrightarrow> readU32 (writeU64 bs i v) j = readU32 bs j"
  by (rule readU32_frame) (auto intro: nth_writeU64)

lemma readU64_writeU32_other:
  "j + 7 < i \<or> i + 3 < j \<Longrightarrow> readU64 (writeU32 bs i v) j = readU64 bs j"
  by (rule readU64_frame) (auto intro: nth_writeU32)

lemma readU32_update_other:
  "k < j \<or> j + 3 < k \<Longrightarrow> readU32 (bs[k := b]) j = readU32 bs j"
  by (rule readU32_frame) auto

lemma readU64_update_other:
  "k < j \<or> j + 7 < k \<Longrightarrow> readU64 (bs[k := b]) j = readU64 bs j"
  by (rule readU64_frame) auto

lemmas rw_simps [codec_simps] =
  readU32_writeU32 readU64_writeU64 nth_writeU32 nth_writeU64 readU32_writeU32_other
  readU32_writeU64_other readU64_writeU32_other readU32_update_other readU64_update_other

text \<open>Splitting a word that was read gives back the bytes it was read from.\<close>

lemma bit_split_byte:
  "bit (ucast ((v :: 'a :: len word) AND 0xff) :: u8) n \<longleftrightarrow> n < 8 \<and> bit v n"
  by (simp only: ff_mask) (auto simp: bit_simps dest: bit_imp_le_length)

lemma bit_push_ucast:
  "bit (push_bit k (ucast (b :: u8)) :: 'a :: len word) n \<longleftrightarrow>
   n < LENGTH('a) \<and> k \<le> n \<and> n < k + 8 \<and> bit b (n - k)"
  using bit_imp_le_length [of b "n - k"] by (auto simp: bit_simps)

lemma bit_ucast_byte:
  "bit (ucast (b :: u8) :: 'a :: len word) n \<longleftrightarrow> n < LENGTH('a) \<and> n < 8 \<and> bit b n"
  using bit_push_ucast [of 0 b n] by simp

lemmas byte_bits =
  bit_split_byte bit_drop_bit_eq o_apply bit_or_iff bit_push_ucast bit_ucast_byte

lemma bytes_of_readU32:
  "ucast (drop_bit 24 (readU32 bs i) AND 0xff) = bs ! i"
  "ucast (drop_bit 16 (readU32 bs i) AND 0xff) = bs ! (i + 1)"
  "ucast (drop_bit 8 (readU32 bs i) AND 0xff) = bs ! (i + 2)"
  "ucast (readU32 bs i AND 0xff) = bs ! (i + 3)"
  by (rule bit_word_eqI, simp only: readU32_def byte_bits, simp)+

lemma bytes_of_readU64:
  "ucast (drop_bit 56 (readU64 bs i) AND 0xff) = bs ! i"
  "ucast (drop_bit 48 (readU64 bs i) AND 0xff) = bs ! (i + 1)"
  "ucast (drop_bit 40 (readU64 bs i) AND 0xff) = bs ! (i + 2)"
  "ucast (drop_bit 32 (readU64 bs i) AND 0xff) = bs ! (i + 3)"
  "ucast (drop_bit 24 (readU64 bs i) AND 0xff) = bs ! (i + 4)"
  "ucast (drop_bit 16 (readU64 bs i) AND 0xff) = bs ! (i + 5)"
  "ucast (drop_bit 8 (readU64 bs i) AND 0xff) = bs ! (i + 6)"
  "ucast (readU64 bs i AND 0xff) = bs ! (i + 7)"
  by (rule bit_word_eqI, simp only: readU64_unfold byte_bits, simp)+

lemma nth_writeU32_readU32:
  assumes "i \<le> j" and "j \<le> i + 3" and l: "i + 3 < length bs"
  shows "writeU32 bs i (readU32 cs i) ! j = cs ! j"
proof -
  from assms consider "j = i" | "j = i + 1" | "j = i + 2" | "j = i + 3" by linarith
  then show ?thesis using l
    by cases (simp_all add: writeU32_def nth_list_update bytes_of_readU32)
qed

lemma nth_writeU64_readU64:
  assumes "i \<le> j" and "j \<le> i + 7" and l: "i + 7 < length bs"
  shows "writeU64 bs i (readU64 cs i) ! j = cs ! j"
proof -
  from assms consider "j = i" | "j = i + 1" | "j = i + 2" | "j = i + 3" | "j = i + 4"
    | "j = i + 5" | "j = i + 6" | "j = i + 7" by linarith
  then show ?thesis using l
    by cases (simp_all add: writeU64_def upt_8 Let_def nth_list_update bytes_of_readU64)
qed

section \<open>Trimming\<close>

declare trim_first.simps [simp del]

lemma trim_first_takeWhile:
  "i \<le> length s \<Longrightarrow> trim_first s i = i + length (takeWhile isspace (drop i s))"
proof (induction s i rule: trim_first.induct)
  case (1 s i)
  show ?case
  proof (cases "i < length s \<and> isspace (s ! i)")
    case True
    then have "drop i s = s ! i # drop (i + 1) s"
      by (simp add: Cons_nth_drop_Suc)
    with 1 True show ?thesis by (subst trim_first.simps) simp
  next
    case False
    then have "takeWhile isspace (drop i s) = []"
      by (metis Cons_nth_drop_Suc drop_all not_le_imp_less takeWhile.simps)
    with False show ?thesis by (subst trim_first.simps) auto
  qed
qed

lemma trim_last_dropWhile:
  "first \<le> l \<Longrightarrow> l \<le> length s \<Longrightarrow>
   take (trim_last s first l - first) (drop first s) =
   rev (dropWhile isspace (rev (take (l - first) (drop first s))))"
proof (induction l)
  case 0
  then show ?case by simp
next
  case (Suc l)
  show ?case
  proof (cases "first < Suc l")
    case True
    then have "take (Suc l - first) (drop first s) =
        take (l - first) (drop first s) @ [s ! l]"
      using Suc.prems by (simp add: Suc_diff_le take_Suc_conv_app_nth)
    with Suc True show ?thesis by simp
  next
    case False
    then show ?thesis using Suc.prems by simp
  qed
qed

lemma trim_eq: "trim s = rev (dropWhile isspace (rev (dropWhile isspace s)))"
proof -
  have f: "trim_first s 0 = length (takeWhile isspace s)"
    by (simp add: trim_first_takeWhile)
  have le: "length (takeWhile isspace s) \<le> length s"
    by (rule length_takeWhile_le)
  show ?thesis
    unfolding trim_def Let_def f
    by (simp add: trim_last_dropWhile [OF le order_refl] dropWhile_eq_drop)
qed

end
