(* ===== verification/Rudp_Codec.thy ===== *)
theory Rudp_Codec
  imports Rudp_Utils
begin

text \<open>
  Model of \<open>src/Codec.cpp\<close>: validation, decoding and encoding of a datagram (a 28-byte big-endian
  header followed by the payload). \<open>packet_codec\<close> is the contract the session layer relies on; the
  interpretation at the end discharges it for the code's encoder and decoder.
\<close>

section \<open>Operations\<close>

definition isValidHeader :: "Header \<Rightarrow> bool" where
  "isValidHeader header =
     (if h_header_len header \<noteq> of_nat kHeaderLength then False
      else if h_reserved header \<noteq> 0 then False
      else if channel_type_byte (h_channel_type header) > 3 then False
      else (h_flags header AND 0xc0) = 0)"

definition decode :: "bytes \<Rightarrow> PacketView option" where
  "decode bs =
     (if length bs < kHeaderLength then None
      else
        let header_out =
          \<lparr>h_conn_id = readU32 bs 0,
           h_seq = readU32 bs 4,
           h_ack = readU32 bs 8,
           h_ack_bits = readU64 bs 12,
           h_channel_id = readU32 bs 20,
           h_channel_type = ChannelType (bs ! 24),
           h_flags = bs ! 25,
           h_header_len = bs ! 26,
           h_reserved = bs ! 27\<rparr>
        in if \<not> isValidHeader header_out then None
           else Some \<lparr>pv_header = header_out, pv_payload = drop kHeaderLength bs\<rparr>)"

text \<open>\<open>std::copy(payload.begin(), payload.end(), bytes.begin() + at)\<close>.\<close>

definition copy_at :: "bytes \<Rightarrow> nat \<Rightarrow> bytes \<Rightarrow> bytes" where
  "copy_at bs at payload = take at bs @ payload @ drop (at + length payload) bs"

definition encode :: "Header \<Rightarrow> bytes \<Rightarrow> bytes" where
  "encode header payload =
     (let bs = replicate (kHeaderLength + length payload) 0;
          bs = writeU32 bs 0 (h_conn_id header);
          bs = writeU32 bs 4 (h_seq header);
          bs = writeU32 bs 8 (h_ack header);
          bs = writeU64 bs 12 (h_ack_bits header);
          bs = writeU32 bs 20 (h_channel_id header);
          bs = bs[24 := channel_type_byte (h_channel_type header)];
          bs = bs[25 := h_flags header];
          bs = bs[26 := h_header_len header];
          bs = bs[27 := h_reserved header]
      in copy_at bs kHeaderLength payload)"

section \<open>The contract of a packet codec\<close>

locale packet_codec =
  fixes enc :: "'h \<Rightarrow> bytes \<Rightarrow> bytes"
    and dec :: "bytes \<Rightarrow> ('h \<times> bytes) option"
    and valid :: "'h \<Rightarrow> bool"
    and width :: nat
  assumes dec_enc: "valid h \<Longrightarrow> dec (enc h p) = Some (h, p)"
    and dec_valid: "dec bs = Some (h, p) \<Longrightarrow> valid h"
    and enc_dec: "dec bs = Some (h, p) \<Longrightarrow> enc h p = bs"
    and enc_length: "length (enc h p) = width + length p"
begin

lemma enc_inj: "valid h \<Longrightarrow> valid h' \<Longrightarrow> enc h p = enc h' p' \<Longrightarrow> h = h' \<and> p = p'"
  by (metis dec_enc option.inject prod.inject)

lemma dec_inj: "dec bs = Some hp \<Longrightarrow> dec bs' = Some hp \<Longrightarrow> bs = bs'"
  by (metis enc_dec prod.collapse)

lemma dec_short: "length bs < width \<Longrightarrow> dec bs = None"
proof (cases "dec bs")
  case (Some hp)
  assume "length bs < width"
  moreover have "length bs = width + length (snd hp)"
    using enc_dec [of bs "fst hp" "snd hp"] enc_length [of "fst hp" "snd hp"] Some by simp
  ultimately show ?thesis by simp
qed

lemma dec_exact: "dec bs = Some (h, p) \<longleftrightarrow> valid h \<and> bs = enc h p"
  using dec_enc enc_dec dec_valid by blast

end

section \<open>Layout of an encoded datagram\<close>

lemma length_encode: "length (encode h p) = kHeaderLength + length p"
  by (simp add: encode_def Let_def copy_at_def)

lemma nth_copy_at: "j < at \<Longrightarrow> at \<le> length bs \<Longrightarrow> copy_at bs at p ! j = bs ! j"
  by (simp add: copy_at_def nth_append)

lemma readU32_copy_at:
  "j + 3 < at \<Longrightarrow> at \<le> length bs \<Longrightarrow> readU32 (copy_at bs at p) j = readU32 bs j"
  by (rule readU32_frame) (simp add: nth_copy_at)

lemma readU64_copy_at:
  "j + 7 < at \<Longrightarrow> at \<le> length bs \<Longrightarrow> readU64 (copy_at bs at p) j = readU64 bs j"
  by (rule readU64_frame) (simp add: nth_copy_at)

lemma drop_copy_at: "length bs = at + length p \<Longrightarrow> drop at (copy_at bs at p) = p"
  by (simp add: copy_at_def)

lemmas copy_simps [codec_simps] = nth_copy_at readU32_copy_at readU64_copy_at drop_copy_at

lemma decode_encode_valid:
  assumes "isValidHeader h"
  shows "decode (encode h p) = Some \<lparr>pv_header = h, pv_payload = p\<rparr>"
  using assms
  by (simp add: decode_def length_encode Let_def)
    (simp add: encode_def Let_def kHeaderLength_def codec_simps isValidHeader_def
      split: if_splits)

lemma decode_fields:
  assumes "decode bs = Some pv"
  shows "kHeaderLength \<le> length bs" and "isValidHeader (pv_header pv)"
    and "pv_payload pv = drop kHeaderLength bs"
    and "h_conn_id (pv_header pv) = readU32 bs 0" and "h_seq (pv_header pv) = readU32 bs 4"
    and "h_ack (pv_header pv) = readU32 bs 8" and "h_ack_bits (pv_header pv) = readU64 bs 12"
    and "h_channel_id (pv_header pv) = readU32 bs 20"
    and "channel_type_byte (h_channel_type (pv_header pv)) = bs ! 24"
    and "h_flags (pv_header pv) = bs ! 25" and "h_header_len (pv_header pv) = bs ! 26"
    and "h_reserved (pv_header pv) = bs ! 27"
  using assms by (auto simp: decode_def Let_def split: if_splits)

lemma encode_decoded:
  assumes "decode bs = Some pv"
  shows "encode (pv_header pv) (pv_payload pv) = bs"
proof (rule nth_equalityI)
  note fields = decode_fields [OF assms, unfolded kHeaderLength_def]
  note l = fields(1) and eqs = fields(3-12)
  let ?h = "pv_header pv" and ?p = "pv_payload pv"
  show "length (encode ?h ?p) = length bs"
    using l by (simp add: length_encode eqs kHeaderLength_def)
  fix j assume "j < length (encode ?h ?p)"
  then have j: "j < length bs" using l by (simp add: length_encode eqs kHeaderLength_def)
  show "encode ?h ?p ! j = bs ! j"
  proof (cases "28 \<le> j")
    case True
    then show ?thesis using l j
      by (simp add: encode_def Let_def copy_at_def eqs kHeaderLength_def nth_append)
  next
    case False
    then consider "j \<le> 3" | "4 \<le> j \<and> j \<le> 7" | "8 \<le> j \<and> j \<le> 11" | "12 \<le> j \<and> j \<le> 19"
      | "20 \<le> j \<and> j \<le> 23" | "j = 24" | "j = 25" | "j = 26" | "j = 27" by linarith
    then show ?thesis using l
      by cases (simp_all add: encode_def Let_def kHeaderLength_def eqs codec_simps
          nth_writeU32_readU32 nth_writeU64_readU64)
  qed
qed

section \<open>The code is a packet codec\<close>

abbreviation decode_pair :: "bytes \<Rightarrow> (Header \<times> bytes) option" where
  "decode_pair bs \<equiv> map_option (\<lambda>pv. (pv_header pv, pv_payload pv)) (decode bs)"

interpretation codec: packet_codec encode decode_pair isValidHeader kHeaderLength
proof unfold_locales
  show "decode_pair (encode h p) = Some (h, p)" if "isValidHeader h" for h p
    using that by (simp add: decode_encode_valid)
  show "isValidHeader h" if "decode_pair bs = Some (h, p)" for bs h p
    using that by (auto dest: decode_fields(2))
  show "encode h p = bs" if "decode_pair bs = Some (h, p)" for bs h p
    using that by (auto dest: encode_decoded)
  show "length (encode h p) = kHeaderLength + length p" for h p
    by (rule length_encode)
qed

lemma decode_encode_eq:
  "decode (encode h p) =
     (if isValidHeader h then Some \<lparr>pv_header = h, pv_payload = p\<rparr> else None)"
proof (cases "decode (encode h p)")
  case None
  then show ?thesis using decode_encode_valid [of h p] by auto
next
  case (Some pv)
  then have "encode (pv_header pv) (pv_payload pv) = encode h p" by (rule encode_decoded)
  moreover have "isValidHeader (pv_header pv)" using Some by (rule decode_fields(2))
  moreover have "pv_payload pv = p"
    using decode_fields(3) [OF Some] by (simp add: encode_def Let_def drop_copy_at)
  moreover have "isValidHeader h"
    using decode_fields(2,9-12) [OF Some]
    by (simp add: isValidHeader_def encode_def Let_def kHeaderLength_def codec_simps split: if_splits)
  ultimately show ?thesis using decode_encode_valid [of h p] by simp
qed

section \<open>Properties\<close>

text \<open>
  C13. The wire format is exact: a datagram decodes to a header and a payload if and only if that header
  is valid and the datagram is its encoding. Hence encoding followed by decoding is the identity on
  valid headers, decoding followed by encoding is the identity on accepted datagrams, no two packets
  share an encoding, and every datagram shorter than a header is rejected.
\<close>

theorem wire_format_exact:
  "decode bs = Some \<lparr>pv_header = h, pv_payload = p\<rparr> \<longleftrightarrow> isValidHeader h \<and> bs = encode h p"
proof -
  have "decode bs = Some \<lparr>pv_header = h, pv_payload = p\<rparr> \<longleftrightarrow> decode_pair bs = Some (h, p)"
    by (cases "decode bs") auto
  also have "\<dots> \<longleftrightarrow> isValidHeader h \<and> bs = encode h p" by (rule codec.dec_exact)
  finally show ?thesis .
qed

end
