(* ===== verification/Config_Types.thy ===== *)
theory Config_Types
  imports Rudp_Protocol
begin

text \<open>
  The data of \<open>include/Rudp/Config.hpp\<close>: settings, runtime profiles and channel definitions. The code
  reads the transport settings through the process-wide \<open>Config::current()\<close>; the model passes them as
  an argument to every operation that does so. \<open>std::size_t\<close> has 64 bits.
\<close>

record TransportSettings =
  initial_rto_ms :: u64
  max_rto_ms :: u64
  max_retransmit_count :: u32
  handshake_linger_ms :: u64
  keepalive_idle_ms :: u64
  idle_timeout_ms :: u64
  reliable_ack_delay_ms :: u64
  fast_retx_evidence_threshold :: u32
  enable_activity_ack_only :: bool

definition default_transport :: TransportSettings where
  "default_transport =
     \<lparr>initial_rto_ms = 250, max_rto_ms = 4000, max_retransmit_count = 5,
      handshake_linger_ms = 1000, keepalive_idle_ms = 500, idle_timeout_ms = 15000,
      reliable_ack_delay_ms = 2, fast_retx_evidence_threshold = 2,
      enable_activity_ack_only = False\<rparr>"

record RuntimeSettings =
  rs_server_bind_address :: string
  rs_server_port :: u16
  rs_client_server_address :: string
  rs_client_server_port :: u16
  rs_client_bind_address :: string
  rs_socket_buffer_size :: u64
  rs_server_loop_sleep_us :: u32
  rs_client_select_timeout_us :: u32
  rs_client_poll_budget :: u32
  rs_server_log_path :: string
  rs_client_log_path :: string

definition default_runtime_settings :: RuntimeSettings where
  "default_runtime_settings =
     \<lparr>rs_server_bind_address = ''127.0.0.1'', rs_server_port = 9000,
      rs_client_server_address = ''127.0.0.1'', rs_client_server_port = 9000,
      rs_client_bind_address = ''0.0.0.0'', rs_socket_buffer_size = 1500,
      rs_server_loop_sleep_us = 10000, rs_client_select_timeout_us = 10000,
      rs_client_poll_budget = 8, rs_server_log_path = ''logs/rudp_server.log'',
      rs_client_log_path = ''logs/rudp_client.log''\<rparr>"

record Settings =
  st_transport :: TransportSettings
  st_runtime :: RuntimeSettings

definition default_settings :: Settings where
  "default_settings = \<lparr>st_transport = default_transport, st_runtime = default_runtime_settings\<rparr>"

datatype RuntimeMode = ServerMode | ClientMode

record ChannelDefinition =
  chn_id :: u32
  chn_name :: string
  chn_type :: ChannelType
  chn_is_default :: bool

definition default_channel_definition :: ChannelDefinition where
  "default_channel_definition =
     \<lparr>chn_id = 0, chn_name = [], chn_type = Unreliable, chn_is_default = False\<rparr>"

record RuntimeProfile =
  rp_mode :: RuntimeMode
  rp_bind_address :: string
  rp_bind_port :: u16
  rp_remote_address :: string
  rp_remote_port :: u16
  rp_log_path :: string
  rp_socket_buffer_size :: u64
  rp_loop_sleep_us :: u32
  rp_select_timeout_us :: u32
  rp_poll_budget :: u32
  rp_channels :: "ChannelDefinition list"

end
