(* ===== verification/Tx_Handler.thy ===== *)
theory Tx_Handler
  imports Rudp_Codec Session_Types Config_Types
begin

text \<open>
  Model of \<open>src/TxHandler.cpp\<close>: the send queue, the packets in flight, the processing of the remote
  acknowledgement (cumulative value and bitmap), and the choice of the next datagram to send
  (handshake, retransmission, probe, pure ACK, fresh data, in that order). The transport settings the
  code reads through \<open>Config::current()\<close> are the argument \<open>cfg\<close>. An operation that changes a reference
  argument returns its new value.
\<close>

section \<open>Helpers\<close>

definition kInternalProbeChannelId :: u32 where
  "kInternalProbeChannelId = 0"

definition kInternalProbeChannelType :: ChannelType where
  "kInternalProbeChannelType = Unreliable"

definition is_acknowledged_by_remote :: "u32 \<Rightarrow> u32 \<Rightarrow> u64 \<Rightarrow> bool" where
  "is_acknowledged_by_remote seq ack ack_bits =
     (if seq_lt seq ack then True
      else if \<not> seq_gt seq ack then False
      else
        let distance = seq - ack in
        if distance = 0 \<or> kAckBitsWindow < unat distance then False
        else
          let bit_index = unat (distance - 1)
          in ack_bits AND push_bit bit_index 1 \<noteq> 0)"

definition copy_payload :: "bytes \<Rightarrow> bytes" where
  "copy_payload payload = payload"

definition consumes_reliable_seq :: "Flags \<Rightarrow> bool" where
  "consumes_reliable_seq flags =
     (flags AND flag_value FlagSyn \<noteq> 0 \<or> flags AND flag_value FlagFin \<noteq> 0)"

definition retransmit_timeout_for :: "TransportSettings \<Rightarrow> u32 \<Rightarrow> u64" where
  "retransmit_timeout_for cfg retry_count =
     (let clamped_retry_count = min retry_count 4;
          rto = push_bit (unat clamped_retry_count) (initial_rto_ms cfg)
      in min rto (max_rto_ms cfg))"

definition make_internal_probe_header :: "u32 \<Rightarrow> Flags \<Rightarrow> RxSessionState \<Rightarrow> Header" where
  "make_internal_probe_header conn_id flags rx =
     default_header\<lparr>
       h_conn_id := conn_id,
       h_flags := flags,
       h_channel_id := kInternalProbeChannelId,
       h_channel_type := kInternalProbeChannelType,
       h_ack := rx_next_expected rx,
       h_ack_bits := rx_received_bits rx\<rparr>"

definition make_poll_result :: "bytes option \<Rightarrow> bool \<Rightarrow> TxPollResult" where
  "make_poll_result datagram retransmission =
     \<lparr>pr_datagram = datagram, pr_fatal_error = False, pr_retransmission = retransmission,
      pr_error_message = []\<rparr>"

section \<open>Acknowledgement of packets in flight\<close>

text \<open>The loop over the map: the packets kept, and the result written.\<close>

fun erase_acknowledged_inflight ::
  "u32 \<Rightarrow> u64 \<Rightarrow> (u32, TxEntry) std_map \<Rightarrow> TxAckResult \<Rightarrow> (u32, TxEntry) std_map \<times> TxAckResult"
where
  "erase_acknowledged_inflight ack ack_bits [] result = ([], result)"
| "erase_acknowledged_inflight ack ack_bits ((seq, entry) # rest) result =
     (if \<not> is_acknowledged_by_remote seq ack ack_bits
      then let (kept, result) = erase_acknowledged_inflight ack ack_bits rest result
           in ((seq, entry) # kept, result)
      else erase_acknowledged_inflight ack ack_bits rest
             (if hasFlag (op_header (te_packet entry)) FlagFin
              then result\<lparr>ar_acknowledged_fin := True\<rparr> else result))"

text \<open>\<open>std::countl_zero\<close> on 64 bits: the number of leading zero bits.\<close>

definition countl_zero :: "u64 \<Rightarrow> nat" where
  "countl_zero x = length (takeWhile (\<lambda>i. \<not> bit x i) (rev [0..<64]))"

definition add_gap_evidence :: "u32 \<Rightarrow> TxEntry \<Rightarrow> TxEntry" where
  "add_gap_evidence threshold entry =
     (let entry = entry\<lparr>te_gap_evidence_count := te_gap_evidence_count entry + 1\<rparr>
      in if threshold \<le> te_gap_evidence_count entry
         then entry\<lparr>te_fast_retx_pending := True\<rparr> else entry)"

function mark_gap_loop ::
  "u32 \<Rightarrow> u64 \<Rightarrow> u32 \<Rightarrow> u32 \<Rightarrow> u32 \<Rightarrow> (u32, TxEntry) std_map \<Rightarrow> (u32, TxEntry) std_map"
where
  "mark_gap_loop ack ack_bits threshold highest_acked_seq seq inflight =
     (if seq_le seq highest_acked_seq
      then mark_gap_loop ack ack_bits threshold highest_acked_seq (seq + 1)
        (if is_acknowledged_by_remote seq ack ack_bits then inflight
         else case map_find inflight seq of
                None \<Rightarrow> inflight
              | Some entry \<Rightarrow> map_modify seq (add_gap_evidence threshold) inflight)
      else inflight)"
  by pat_completeness auto
termination
proof (relation "measure (\<lambda>(ack, bits, threshold, hi, seq, m).
    if seq_le seq hi then unat (hi - seq) + 1 else 0)", goal_cases)
  case (2 ack ack_bits threshold hi seq m)
  have "(if seq_le (seq + 1) hi then unat (hi - (seq + 1)) + 1 else 0) < unat (hi - seq) + 1"
  proof (cases "seq = hi")
    case True
    then show ?thesis by (simp add: seq_le_dist)
  next
    case False
    then have "0 < unat (hi - seq)" by (metis eq_iff_diff_eq_0 gr0I unat_eq_zero)
    moreover have "hi - (seq + 1) = (hi - seq) - 1" by simp
    ultimately have "unat (hi - (seq + 1)) = unat (hi - seq) - 1"
      by (metis gr_implies_not0 unat_0 unat_minus_one)
    with \<open>0 < unat (hi - seq)\<close> show ?thesis by simp
  qed
  with 2 show ?case by simp
qed simp

declare mark_gap_loop.simps [simp del]

definition mark_gap_fast_retransmit_candidates ::
  "TransportSettings \<Rightarrow> u32 \<Rightarrow> u64 \<Rightarrow> TxSessionState \<Rightarrow> TxSessionState"
where
  "mark_gap_fast_retransmit_candidates cfg ack ack_bits tx =
     (if ack_bits = 0 then tx
      else
        let highest_bit = 63 - countl_zero ack_bits;
            highest_acked_seq = ack + of_nat highest_bit + 1;
            threshold = fast_retx_evidence_threshold cfg
        in tx\<lparr>tx_inflight :=
             mark_gap_loop ack ack_bits threshold highest_acked_seq ack (tx_inflight tx)\<rparr>)"

definition reliable_window_full :: "TxSessionState \<Rightarrow> bool" where
  "reliable_window_full tx = (kReliableWindowSize \<le> unat (tx_next_seq tx - tx_remote_ack tx))"

definition queue_app_data ::
  "u32 \<Rightarrow> ChannelType \<Rightarrow> bytes \<Rightarrow> TxSessionState \<Rightarrow> TxSessionState"
where
  "queue_app_data channel_id channel_type payload tx =
     tx\<lparr>tx_pending_send := tx_pending_send tx @
          [\<lparr>sr_channel_id = channel_id, sr_channel_type = channel_type,
            sr_payload = copy_payload payload\<rparr>]\<rparr>"

definition on_remote_ack ::
  "TransportSettings \<Rightarrow> u32 \<Rightarrow> u64 \<Rightarrow> TxSessionState \<Rightarrow> TxAckResult \<times> TxSessionState"
where
  "on_remote_ack cfg ack ack_bits tx =
     (let tx = tx\<lparr>tx_remote_ack := ack, tx_remote_ack_bits := ack_bits\<rparr>;
          (inflight, result) = erase_acknowledged_inflight ack ack_bits (tx_inflight tx)
             \<lparr>ar_acknowledged_fin = False\<rparr>;
          tx = tx\<lparr>tx_inflight := inflight\<rparr>
      in (result, mark_gap_fast_retransmit_candidates cfg ack ack_bits tx))"

section \<open>Building packets\<close>

text \<open>The entry recorded for a packet sent for the first time.\<close>

definition first_send_entry :: "OwnedPacket \<Rightarrow> u64 \<Rightarrow> TxEntry" where
  "first_send_entry packet now_ms =
     \<lparr>te_packet = packet, te_first_send_ms = now_ms, te_last_send_ms = now_ms,
      te_retry_count = 0, te_gap_evidence_count = 0, te_fast_retx_pending = False\<rparr>"

definition make_packet_from_request ::
  "SendRequest \<Rightarrow> u32 \<Rightarrow> RxSessionState \<Rightarrow> TxSessionState \<Rightarrow> bool \<Rightarrow> OwnedPacket \<times> TxSessionState"
where
  "make_packet_from_request req conn_id rx tx assign_reliable_seq =
     (let header = default_header\<lparr>
            h_conn_id := conn_id,
            h_channel_id := sr_channel_id req,
            h_channel_type := sr_channel_type req,
            h_ack := rx_next_expected rx,
            h_ack_bits := rx_received_bits rx\<rparr>;
          (header, tx) =
            (if assign_reliable_seq
             then (header\<lparr>h_seq := tx_next_seq tx\<rparr>, tx\<lparr>tx_next_seq := tx_next_seq tx + 1\<rparr>)
             else (header\<lparr>h_seq := 0\<rparr>, tx))
      in (\<lparr>op_header = header, op_payload = sr_payload req\<rparr>, tx))"

definition build_control_packet ::
  "u64 \<Rightarrow> u32 \<Rightarrow> Flags \<Rightarrow> RxSessionState \<Rightarrow> TxSessionState \<Rightarrow> bytes option \<times> TxSessionState"
where
  "build_control_packet now_ms conn_id flags rx tx =
     (let assign_reliable_seq = consumes_reliable_seq flags in
      if assign_reliable_seq \<and> reliable_window_full tx then (None, tx)
      else
        let header = default_header\<lparr>
              h_conn_id := conn_id,
              h_channel_type := Unreliable,
              h_flags := flags,
              h_ack := rx_next_expected rx,
              h_ack_bits := rx_received_bits rx\<rparr>;
            (header, tx) =
              (if assign_reliable_seq
               then (header\<lparr>h_seq := tx_next_seq tx\<rparr>, tx\<lparr>tx_next_seq := tx_next_seq tx + 1\<rparr>)
               else (header, tx));
            encoded = encode header []
        in if \<not> assign_reliable_seq then (Some encoded, tx)
           else
             let entry = first_send_entry \<lparr>op_header = header, op_payload = []\<rparr> now_ms
             in (Some encoded, tx\<lparr>tx_inflight := map_emplace (h_seq header) entry (tx_inflight tx)\<rparr>))"

definition try_build_handshake ::
  "TransportSettings \<Rightarrow> u64 \<Rightarrow> SessionRole \<Rightarrow> u32 \<Rightarrow> ConnectionState \<Rightarrow> RxSessionState \<Rightarrow>
   TxSessionState \<Rightarrow> bytes option \<times> ConnectionState \<times> TxSessionState"
where
  "try_build_handshake cfg now_ms role conn_id connection_state rx tx =
     (if role = Client \<and> connection_state = Closed
      then let (packet, tx) = build_control_packet now_ms conn_id (flag_value FlagSyn) rx tx
           in (packet, HandshakeSent, tx)
      else if tx_syn_ack_pending tx \<and> connection_state = HandshakeReceived
      then case build_control_packet now_ms conn_id (flags_or FlagSyn FlagAck) rx tx of
             (Some packet, tx) \<Rightarrow> (Some packet, connection_state, tx\<lparr>tx_syn_ack_pending := False\<rparr>)
           | (None, tx) \<Rightarrow> (None, connection_state, tx)
      else if tx_final_ack_pending tx \<and> connection_state = Established
      then case build_control_packet now_ms conn_id (flag_value FlagAck) rx tx of
             (Some packet, tx) \<Rightarrow>
               (Some packet, connection_state,
                tx\<lparr>tx_final_ack_pending := False,
                   tx_final_ack_linger_until_ms := now_ms + handshake_linger_ms cfg\<rparr>)
           | (None, tx) \<Rightarrow> (None, connection_state, tx)
      else if tx_fin_pending tx \<and> connection_state = Closing
      then case build_control_packet now_ms conn_id (flag_value FlagFin) rx tx of
             (Some packet, tx) \<Rightarrow> (Some packet, connection_state, tx\<lparr>tx_fin_pending := False\<rparr>)
           | (None, tx) \<Rightarrow> (None, connection_state, tx)
      else (None, connection_state, tx))"

text \<open>
  The retransmission loop: the entries of the map from the iterator on, and the entries after the
  loop. \<open>resend\<close> is the branch that sends.
\<close>

definition retransmit_limit_result :: TxPollResult where
  "retransmit_limit_result =
     \<lparr>pr_datagram = None, pr_fatal_error = True, pr_retransmission = False,
      pr_error_message = ''retransmission retry limit exceeded''\<rparr>"

definition refresh_ack_fields :: "RxSessionState \<Rightarrow> Header \<Rightarrow> Header" where
  "refresh_ack_fields rx header =
     header\<lparr>h_ack := rx_next_expected rx, h_ack_bits := rx_received_bits rx\<rparr>"

definition resend_entry :: "u64 \<Rightarrow> RxSessionState \<Rightarrow> TxEntry \<Rightarrow> TxEntry" where
  "resend_entry now_ms rx entry =
     entry\<lparr>te_packet := (te_packet entry)\<lparr>op_header :=
             refresh_ack_fields rx (op_header (te_packet entry))\<rparr>,
           te_last_send_ms := now_ms,
           te_retry_count := te_retry_count entry + 1,
           te_gap_evidence_count := 0,
           te_fast_retx_pending := False\<rparr>"

fun retransmit_loop ::
  "TransportSettings \<Rightarrow> u64 \<Rightarrow> RxSessionState \<Rightarrow> (u32, TxEntry) std_map
   \<Rightarrow> TxPollResult \<times> (u32, TxEntry) std_map"
where
  "retransmit_loop cfg now_ms rx [] = (default_poll_result, [])"
| "retransmit_loop cfg now_ms rx ((seq, entry) # rest) =
     (if max_retransmit_count cfg \<le> te_retry_count entry
      then (retransmit_limit_result, rest)
      else
        let current_rto_ms = retransmit_timeout_for cfg (te_retry_count entry);
            timed_out = (te_last_send_ms entry + current_rto_ms \<le> now_ms)
        in if \<not> te_fast_retx_pending entry \<and> \<not> timed_out
           then let (result, rest) = retransmit_loop cfg now_ms rx rest
                in (result, (seq, entry) # rest)
           else
             let header = refresh_ack_fields rx (op_header (te_packet entry));
                 encoded = encode header (op_payload (te_packet entry))
             in (make_poll_result (Some encoded) True, (seq, resend_entry now_ms rx entry) # rest))"

definition try_build_retransmit ::
  "TransportSettings \<Rightarrow> u64 \<Rightarrow> RxSessionState \<Rightarrow> TxSessionState \<Rightarrow> TxPollResult \<times> TxSessionState"
where
  "try_build_retransmit cfg now_ms rx tx =
     (let (result, inflight) = retransmit_loop cfg now_ms rx (tx_inflight tx)
      in (result, tx\<lparr>tx_inflight := inflight\<rparr>))"

definition try_build_ack_only ::
  "u32 \<Rightarrow> RxSessionState \<Rightarrow> TxSessionState \<Rightarrow> bytes option \<times> TxSessionState"
where
  "try_build_ack_only conn_id rx tx =
     (if \<not> tx_ack_only_pending tx then (None, tx)
      else
        let header = default_header\<lparr>
              h_conn_id := conn_id,
              h_flags := flag_value FlagAck,
              h_channel_type := Unreliable,
              h_ack := rx_next_expected rx,
              h_ack_bits := rx_received_bits rx\<rparr>
        in (Some (encode header []), tx\<lparr>tx_ack_only_pending := False\<rparr>))"

definition try_build_fresh ::
  "u64 \<Rightarrow> u32 \<Rightarrow> RxSessionState \<Rightarrow> TxSessionState \<Rightarrow> bytes option \<times> TxSessionState"
where
  "try_build_fresh now_ms conn_id rx tx =
     (case tx_pending_send tx of
        [] \<Rightarrow> (None, tx)
      | request # queue \<Rightarrow>
          let tx = tx\<lparr>tx_pending_send := queue\<rparr>;
              assign_reliable_seq = isReliableChannel (sr_channel_type request)
          in if assign_reliable_seq \<and> reliable_window_full tx
             then (None, tx\<lparr>tx_pending_send := request # tx_pending_send tx\<rparr>)
             else
               let (packet, tx) = make_packet_from_request request conn_id rx tx assign_reliable_seq;
                   encoded = encode (op_header packet) (op_payload packet);
                   tx = (if assign_reliable_seq
                         then tx\<lparr>tx_inflight := map_emplace (h_seq (op_header packet))
                                (first_send_entry packet now_ms) (tx_inflight tx)\<rparr>
                         else tx)
               in (Some encoded, tx))"

definition try_build_probe_lane ::
  "u32 \<Rightarrow> RxSessionState \<Rightarrow> TxSessionState \<Rightarrow> bytes option \<times> TxSessionState"
where
  "try_build_probe_lane conn_id rx tx =
     (if pb_pong_pending (tx_probe tx)
      then let header = make_internal_probe_header conn_id (flag_value FlagPong) rx
           in (Some (encode header []), tx\<lparr>tx_probe := (tx_probe tx)\<lparr>pb_pong_pending := False\<rparr>\<rparr>)
      else if \<not> pb_ping_pending (tx_probe tx) then (None, tx)
      else let header = make_internal_probe_header conn_id (flag_value FlagPing) rx
           in (Some (encode header []), tx\<lparr>tx_probe := (tx_probe tx)\<lparr>pb_ping_pending := False\<rparr>\<rparr>))"

definition poll ::
  "TransportSettings \<Rightarrow> u64 \<Rightarrow> SessionRole \<Rightarrow> u32 \<Rightarrow> ConnectionState \<Rightarrow> RxSessionState \<Rightarrow>
   TxSessionState \<Rightarrow> TxPollResult \<times> ConnectionState \<times> TxSessionState"
where
  "poll cfg now_ms role conn_id connection_state rx tx =
     (case try_build_handshake cfg now_ms role conn_id connection_state rx tx of
        (Some bytes, cs, tx) \<Rightarrow> (make_poll_result (Some bytes) False, cs, tx)
      | (None, cs, tx) \<Rightarrow>
     (case try_build_retransmit cfg now_ms rx tx of
        (result, tx) \<Rightarrow>
          if pr_fatal_error result \<or> pr_datagram result \<noteq> None then (result, cs, tx)
          else
     (case try_build_probe_lane conn_id rx tx of
        (Some bytes, tx) \<Rightarrow> (make_poll_result (Some bytes) False, cs, tx)
      | (None, tx) \<Rightarrow>
     (case try_build_ack_only conn_id rx tx of
        (Some bytes, tx) \<Rightarrow> (make_poll_result (Some bytes) False, cs, tx)
      | (None, tx) \<Rightarrow>
     (case try_build_fresh now_ms conn_id rx tx of
        (Some bytes, tx) \<Rightarrow> (make_poll_result (Some bytes) False, cs, tx)
      | (None, tx) \<Rightarrow> (default_poll_result, cs, tx))))))"

section \<open>What an acknowledgement covers\<close>

text \<open>
  In terms of the distance \<open>d\<close> of a sequence number ahead of the cumulative value: acknowledged are the
  half of the ring behind it and the positions 1 to 64 whose bit \<open>d - 1\<close> is set.
\<close>

lemma acknowledged_dist:
  "is_acknowledged_by_remote seq ack ack_bits \<longleftrightarrow>
     2147483648 \<le> unat (seq - ack) \<or>
     1 \<le> unat (seq - ack) \<and> unat (seq - ack) \<le> 64 \<and> bit ack_bits (unat (seq - ack) - 1)"
proof (cases "seq = ack")
  case True
  then show ?thesis by (simp add: is_acknowledged_by_remote_def seq_lt_dist seq_gt_dist)
next
  case False
  then have pos: "0 < unat (seq - ack)" by (metis eq_iff_diff_eq_0 gr0I unat_eq_zero)
  then have nz: "seq - ack \<noteq> 0" by auto
  have m1: "unat (seq - ack - 1) = unat (seq - ack) - 1" using nz by (rule unat_minus_one)
  show ?thesis
  proof (cases "2147483648 \<le> unat (seq - ack)")
    case True
    then show ?thesis by (simp add: is_acknowledged_by_remote_def seq_lt_dist)
  next
    case far: False
    then have "seq_gt seq ack" using pos by (intro seq_gt_short) simp_all
    then show ?thesis using far pos nz False
      by (simp add: is_acknowledged_by_remote_def seq_lt_dist Let_def kAckBitsWindow_def m1
          and_exp_bit Suc_le_eq)
  qed
qed

lemma not_acknowledged_at_front: "\<not> is_acknowledged_by_remote ack ack bits"
  by (simp add: acknowledged_dist)

lemma not_acknowledged_not_before: "\<not> is_acknowledged_by_remote k ack bits \<Longrightarrow> \<not> seq_lt k ack"
  by (auto simp: acknowledged_dist seq_lt_dist)

lemma erase_acknowledged_exact:
  "erase_acknowledged_inflight ack bits m r =
     (filter (\<lambda>p. \<not> is_acknowledged_by_remote (fst p) ack bits) m,
      r\<lparr>ar_acknowledged_fin := ar_acknowledged_fin r \<or>
        (\<exists>p \<in> set m. is_acknowledged_by_remote (fst p) ack bits \<and>
           hasFlag (op_header (te_packet (snd p))) FlagFin)\<rparr>)"
  by (induction ack bits m r rule: erase_acknowledged_inflight.induct) auto

section \<open>Evidence of gaps\<close>

lemma unat_pred_dist:
  assumes "(k :: u32) \<noteq> s"
  shows "unat (k - (s + 1)) = unat (k - s) - 1"
proof -
  have "k - s \<noteq> 0" using assms by simp
  moreover have "k - (s + 1) = (k - s) - 1" by simp
  ultimately show ?thesis by (metis unat_minus_one)
qed

lemma map_modify_absent: "map_find m k = None \<Longrightarrow> map_modify k f m = m"
  by (force simp: map_find_None_iff map_modify_def intro!: map_idI)

lemma seq_le_step:
  assumes "seq_le s hi" and "s \<noteq> hi"
  shows "seq_le (s + 1) hi" and "unat (hi - s) \<le> 2147483648" and "0 < unat (hi - s)"
proof -
  from assms have d: "2147483648 \<le> unat (s - hi)" by (simp add: seq_le_dist)
  show short: "unat (hi - s) \<le> 2147483648"
    using unat_minus_swap [OF assms(2)] d by simp
  show "0 < unat (hi - s)" using assms(2) by (metis eq_iff_diff_eq_0 gr0I unat_eq_zero)
  show "seq_le (s + 1) hi"
  proof (cases "s + 1 = hi")
    case False
    have "unat (hi - (s + 1)) = unat (hi - s) - 1" using assms(2) by (intro unat_pred_dist) simp
    with short have "unat (hi - (s + 1)) \<le> 2147483647" by simp
    with unat_minus_swap [of hi "s + 1"] False show ?thesis by (simp add: seq_le_dist)
  qed (simp add: seq_le_dist)
qed

definition mark_range ::
  "u32 \<Rightarrow> u64 \<Rightarrow> u32 \<Rightarrow> u32 \<Rightarrow> nat \<Rightarrow> (u32, TxEntry) std_map \<Rightarrow> (u32, TxEntry) std_map"
where
  "mark_range ack bits threshold s n m =
     map (\<lambda>(k, e). (k, if unat (k - s) < n \<and> \<not> is_acknowledged_by_remote k ack bits
                       then add_gap_evidence threshold e else e)) m"

lemma mark_range_0: "mark_range ack bits threshold s 0 m = m"
  by (auto simp: mark_range_def intro: map_idI)

lemma mark_range_Suc:
  assumes "n \<le> 2147483648"
  shows "mark_range ack bits threshold (s + 1) n
      (if is_acknowledged_by_remote s ack bits then m
       else map_modify s (add_gap_evidence threshold) m) =
    mark_range ack bits threshold s (Suc n) m"
proof -
  have at: "unat (s - (s + 1)) = 4294967295" by (simp add: unsigned_minus_1_eq_mask mask_eq_exp_minus_1)
  have "unat (k - (s + 1)) < n \<longleftrightarrow> unat (k - s) < Suc n" if "k \<noteq> s" for k
  proof -
    have "0 < unat (k - s)" using that by (metis eq_iff_diff_eq_0 gr0I unat_eq_zero)
    then show ?thesis using unat_pred_dist [OF that] by simp linarith
  qed
  with at assms show ?thesis
    by (auto simp: mark_range_def map_modify_def) metis+
qed

lemma mark_gap_loop_exact:
  assumes "seq_le s hi"
  shows "mark_gap_loop ack bits threshold hi s m =
    mark_range ack bits threshold s (Suc (unat (hi - s))) m"
  using assms
proof (induction ack bits threshold hi s m rule: mark_gap_loop.induct)
  case (1 ack bits threshold hi s m)
  let ?m = "if is_acknowledged_by_remote s ack bits then m
    else map_modify s (add_gap_evidence threshold) m"
  have body: "(if is_acknowledged_by_remote s ack bits then m
      else case map_find m s of None \<Rightarrow> m
        | Some entry \<Rightarrow> map_modify s (add_gap_evidence threshold) m) = ?m"
    by (auto simp: map_modify_absent split: option.splits)
  have unfold: "mark_gap_loop ack bits threshold hi s m =
      mark_gap_loop ack bits threshold hi (s + 1) ?m"
    using 1(2) by (subst mark_gap_loop.simps) (simp only: body if_True)
  show ?case
  proof (cases "s = hi")
    case True
    have "\<not> seq_le (s + 1) hi" using True by (simp add: seq_le_dist)
    then have "mark_gap_loop ack bits threshold hi (s + 1) ?m = ?m"
      by (subst mark_gap_loop.simps) (simp only: if_False)
    moreover have "?m = mark_range ack bits threshold s (Suc 0) m"
      using mark_range_Suc [of 0 ack bits threshold s m] by (simp only: mark_range_0)
    ultimately show ?thesis using True unfold by simp
  next
    case False
    note le = seq_le_step [OF 1(2) False]
    have "mark_gap_loop ack bits threshold hi (s + 1) ?m =
        mark_range ack bits threshold (s + 1) (Suc (unat (hi - (s + 1)))) ?m"
      using 1(1) [OF 1(2)] le(1) by (simp only: body)
    also have "\<dots> = mark_range ack bits threshold (s + 1) (unat (hi - s)) ?m"
      using unat_pred_dist [of hi s] False le(3) by simp
    also have "\<dots> = mark_range ack bits threshold s (Suc (unat (hi - s))) m"
      by (rule mark_range_Suc) (rule le(2))
    finally show ?thesis using unfold by simp
  qed
qed

lemma highest_bit:
  assumes "(x :: u64) \<noteq> 0"
  shows "bit x (63 - countl_zero x)" and "\<And>j. bit x j \<Longrightarrow> j \<le> 63 - countl_zero x"
proof -
  let ?P = "\<lambda>i. \<not> bit x i" and ?l = "rev [0..<64]"
  from assms obtain n where n: "bit x n" by (auto simp: bit_eq_iff)
  then have "n < 64" by (rule bit_u64_bound)
  then have "n \<in> set ?l" by simp
  with n have "takeWhile ?P ?l \<noteq> ?l" by (metis takeWhile_eq_all_conv)
  then have len: "length (takeWhile ?P ?l) < 64"
    by (metis diff_zero length_rev length_upt takeWhile_eq_take take_all nat_le_linear
        not_less length_takeWhile_le le_neq_implies_less)
  then have "\<not> ?P (?l ! length (takeWhile ?P ?l))" by (intro nth_length_takeWhile) simp
  then show "bit x (63 - countl_zero x)"
    using len by (simp add: countl_zero_def rev_nth)
  fix j assume j: "bit x j"
  then have "j < 64" by (rule bit_u64_bound)
  show "j \<le> 63 - countl_zero x"
  proof (rule ccontr)
    assume "\<not> ?thesis"
    with \<open>j < 64\<close> len have lt: "63 - j < length (takeWhile ?P ?l)"
      by (simp add: countl_zero_def)
    then have "takeWhile ?P ?l ! (63 - j) = ?l ! (63 - j)" by (rule takeWhile_nth)
    also have "\<dots> = j" using \<open>j < 64\<close> by (simp add: rev_nth)
    finally have "?P j" using lt by (metis nth_mem set_takeWhileD)
    with j show False by simp
  qed
qed

lemma highest_acked_ahead:
  assumes "n < 64"
  shows "seq_le ack (ack + of_nat n + 1)" and "unat (ack + of_nat n + 1 - ack :: u32) = Suc n"
proof -
  have "(of_nat n + 1 :: u32) = of_nat (Suc n)" by simp
  then have "unat (of_nat n + 1 :: u32) = Suc n"
    using assms by (simp only: unat_of_nat) simp
  then show *: "unat (ack + of_nat n + 1 - ack :: u32) = Suc n"
    by (simp add: algebra_simps)
  then have "seq_gt (ack + of_nat n + 1) ack" using assms by (intro seq_gt_short) simp_all
  then show "seq_le ack (ack + of_nat n + 1)"
    by (simp add: seq_gt_def seq_lt_def seq_le_def)
qed

text \<open>
  A packet in flight has gap evidence when a packet ahead of it is selectively acknowledged.
\<close>

definition has_gap_evidence :: "u32 \<Rightarrow> u32 \<Rightarrow> u64 \<Rightarrow> bool" where
  "has_gap_evidence seq ack ack_bits = (\<exists>j \<in> {0..<64}. bit ack_bits j \<and> unat (seq - ack) \<le> j)"

definition acknowledged_inflight ::
  "TransportSettings \<Rightarrow> u32 \<Rightarrow> u64 \<Rightarrow> (u32, TxEntry) std_map \<Rightarrow> (u32, TxEntry) std_map"
where
  "acknowledged_inflight cfg ack ack_bits inflight =
     map (\<lambda>(k, e). (k, if has_gap_evidence k ack ack_bits
                       then add_gap_evidence (fast_retx_evidence_threshold cfg) e else e))
       (filter (\<lambda>p. \<not> is_acknowledged_by_remote (fst p) ack ack_bits) inflight)"

lemma gap_evidence_range:
  assumes "\<not> is_acknowledged_by_remote k ack bits" and "bits \<noteq> 0"
  shows "unat (k - ack) < Suc (Suc (63 - countl_zero bits)) \<longleftrightarrow> has_gap_evidence k ack bits"
proof
  note hb = highest_bit [OF assms(2)]
  assume "unat (k - ack) < Suc (Suc (63 - countl_zero bits))"
  moreover have "unat (k - ack) \<noteq> Suc (63 - countl_zero bits)"
    using assms(1) hb(1) by (auto simp: acknowledged_dist)
  ultimately show "has_gap_evidence k ack bits"
    unfolding has_gap_evidence_def using hb(1)
    by (intro bexI [of _ "63 - countl_zero bits"]) auto
next
  assume "has_gap_evidence k ack bits"
  then show "unat (k - ack) < Suc (Suc (63 - countl_zero bits))"
    using highest_bit(2) [OF assms(2)] unfolding has_gap_evidence_def by fastforce
qed

lemma mark_gap_exact:
  assumes "\<forall>p \<in> set (tx_inflight tx). \<not> is_acknowledged_by_remote (fst p) ack bits"
  shows "mark_gap_fast_retransmit_candidates cfg ack bits tx =
    tx\<lparr>tx_inflight := acknowledged_inflight cfg ack bits (tx_inflight tx)\<rparr>"
proof (cases "bits = 0")
  case True
  have "acknowledged_inflight cfg ack bits (tx_inflight tx) = tx_inflight tx"
    using assms True by (auto simp: acknowledged_inflight_def has_gap_evidence_def filter_id_conv
        intro!: map_idI)
  then show ?thesis using True by (simp add: mark_gap_fast_retransmit_candidates_def)
next
  case False
  let ?n = "63 - countl_zero bits" and ?t = "fast_retx_evidence_threshold cfg"
  have "?n < 64" by simp
  note ahead = highest_acked_ahead [OF this, of ack]
  have "mark_gap_loop ack bits ?t (ack + of_nat ?n + 1) ack (tx_inflight tx) =
      mark_range ack bits ?t ack (Suc (Suc ?n)) (tx_inflight tx)"
    using mark_gap_loop_exact [OF ahead(1)] ahead(2) by simp
  also have "\<dots> = acknowledged_inflight cfg ack bits (tx_inflight tx)"
    using assms gap_evidence_range [OF _ False] filter_True [of "tx_inflight tx"
      "\<lambda>p. \<not> is_acknowledged_by_remote (fst p) ack bits"]
    by (auto simp: mark_range_def acknowledged_inflight_def)
  finally show ?thesis using False by (simp add: mark_gap_fast_retransmit_candidates_def Let_def)
qed

lemma on_remote_ack_eq:
  "on_remote_ack cfg ack bits tx =
     (\<lparr>ar_acknowledged_fin = (\<exists>p \<in> set (tx_inflight tx).
         is_acknowledged_by_remote (fst p) ack bits \<and>
         hasFlag (op_header (te_packet (snd p))) FlagFin)\<rparr>,
      tx\<lparr>tx_remote_ack := ack, tx_remote_ack_bits := bits,
         tx_inflight := acknowledged_inflight cfg ack bits (tx_inflight tx)\<rparr>)"
  by (simp add: on_remote_ack_def erase_acknowledged_exact mark_gap_exact Let_def)
    (simp add: acknowledged_inflight_def)

section \<open>The invariant of the send state\<close>

definition entry_ok :: "TransportSettings \<Rightarrow> u32 \<Rightarrow> TxEntry \<Rightarrow> bool" where
  "entry_ok cfg k e \<longleftrightarrow>
     h_seq (op_header (te_packet e)) = k \<and> isValidHeader (op_header (te_packet e)) \<and>
     te_retry_count e \<le> max_retransmit_count cfg"

text \<open>
  Position of a packet in flight: among the 64 sequence numbers before the next one to use, and not
  behind the cumulative acknowledgement last received.
\<close>

definition window_pos :: "u32 \<Rightarrow> u32 \<Rightarrow> u32 \<Rightarrow> bool" where
  "window_pos next_seq remote_ack k \<longleftrightarrow>
     1 \<le> unat (next_seq - k) \<and> unat (next_seq - k) \<le> kReliableWindowSize \<and> \<not> seq_lt k remote_ack"

definition inflight_inv :: "TransportSettings \<Rightarrow> u32 \<Rightarrow> u32 \<Rightarrow> (u32, TxEntry) std_map \<Rightarrow> bool" where
  "inflight_inv cfg next_seq remote_ack m \<longleftrightarrow>
     map_ok m \<and> (\<forall>(k, e) \<in> set m. entry_ok cfg k e \<and> window_pos next_seq remote_ack k)"

definition tx_inv :: "TransportSettings \<Rightarrow> TxSessionState \<Rightarrow> bool" where
  "tx_inv cfg tx \<longleftrightarrow>
     inflight_inv cfg (tx_next_seq tx) (tx_remote_ack tx) (tx_inflight tx) \<and>
     (\<forall>r \<in> set (tx_pending_send tx). named_channel (sr_channel_type r))"

lemma inflight_invD:
  assumes "inflight_inv cfg ns ra m" and "(k, e) \<in> set m"
  shows "h_seq (op_header (te_packet e)) = k" and "isValidHeader (op_header (te_packet e))"
    and "te_retry_count e \<le> max_retransmit_count cfg" and "1 \<le> unat (ns - k)"
    and "unat (ns - k) \<le> 64" and "\<not> seq_lt k ra"
  using assms by (auto simp: inflight_inv_def entry_ok_def window_pos_def kReliableWindowSize_def)

lemma inflight_inv_next_fresh: "inflight_inv cfg ns ra m \<Longrightarrow> map_find m ns = None"
  by (force simp: map_find_None_iff dest: inflight_invD(4))

lemma inflight_inv_length:
  assumes "inflight_inv cfg ns ra m"
  shows "length m \<le> 64"
proof -
  have d: "distinct (map fst m)" using assms by (simp add: inflight_inv_def map_ok_distinct)
  have "inj_on (\<lambda>k. unat (ns - k)) (set (map fst m))"
    by (rule inj_onI) (simp flip: word_unat_eq_iff)
  moreover have "(\<lambda>k. unat (ns - k)) ` set (map fst m) \<subseteq> {1..64}"
    using inflight_invD(4,5) [OF assms] by auto
  ultimately have "card (set (map fst m)) \<le> card {1..64 :: nat}"
    by (metis card_inj_on_le finite_atLeastAtMost)
  then show ?thesis using distinct_card [OF d] by simp
qed

lemma inflight_inv_filter:
  "inflight_inv cfg ns ra m \<Longrightarrow> inflight_inv cfg ns ra (filter P m)"
  by (auto simp: inflight_inv_def map_ok_filter)

lemma map_ok_keys: "map fst m' = map fst m \<Longrightarrow> map_ok m' = map_ok m"
  by (simp add: map_ok_def)

lemma add_gap_evidence_frame [frame_simps]:
  "te_packet (add_gap_evidence t e) = te_packet e"
  "te_retry_count (add_gap_evidence t e) = te_retry_count e"
  "te_first_send_ms (add_gap_evidence t e) = te_first_send_ms e"
  "te_last_send_ms (add_gap_evidence t e) = te_last_send_ms e"
  by (simp_all add: add_gap_evidence_def Let_def)

lemma keys_acknowledged_inflight:
  "map fst (acknowledged_inflight cfg ack bits m) =
     filter (\<lambda>k. \<not> is_acknowledged_by_remote k ack bits) (map fst m)"
  by (induction m) (auto simp: acknowledged_inflight_def)

lemma acknowledged_inflight_inv:
  assumes "inflight_inv cfg ns ra m"
  shows "inflight_inv cfg ns ack (acknowledged_inflight cfg ack bits m)"
proof -
  have "map_ok (acknowledged_inflight cfg ack bits m)"
    using assms by (simp add: inflight_inv_def map_ok_def keys_acknowledged_inflight
        sorted_wrt_filter)
  moreover have "entry_ok cfg k e \<and> window_pos ns ack k"
    if "(k, e) \<in> set (acknowledged_inflight cfg ack bits m)" for k e
  proof -
    from that obtain e' where e': "(k, e') \<in> set m" "\<not> is_acknowledged_by_remote k ack bits"
      and e: "te_packet e = te_packet e'" "te_retry_count e = te_retry_count e'"
      by (auto simp: acknowledged_inflight_def frame_simps split: if_splits)
    with inflight_invD [OF assms e'(1)] not_acknowledged_not_before [OF e'(2)]
    show ?thesis by (simp add: entry_ok_def window_pos_def kReliableWindowSize_def)
  qed
  ultimately show ?thesis by (auto simp: inflight_inv_def)
qed

text \<open>
  A new packet enters only a window that is not full, and then finds every older one still at most 63
  behind it.
\<close>

lemma window_pos_advance:
  assumes "window_pos ns ra k" and "unat (ns - ra) < kReliableWindowSize"
  shows "window_pos (ns + 1) ra k"
proof -
  from assms have k: "1 \<le> unat (ns - k)" "unat (ns - k) \<le> 64" "unat (k - ra) < 2147483648"
    "\<not> seq_lt k ra" and d: "unat (ns - ra) < 64"
    by (auto simp: window_pos_def kReliableWindowSize_def seq_lt_dist)
  have "unat (k - ra) \<le> unat (ns - ra)"
    using unat_diff_base [of ns k ra] k by (simp split: if_splits)
  then have "unat (ns - k) = unat (ns - ra) - unat (k - ra)" by (simp add: unat_diff_base [of ns k ra])
  with d have "unat (ns - k) < 64" by linarith
  moreover from this have "unat (ns + 1 - k) = unat (ns - k) + 1" by (intro unat_succ_diff) simp
  ultimately show ?thesis using k(4) by (simp add: window_pos_def kReliableWindowSize_def)
qed

lemma window_pos_new:
  assumes "unat (ns - ra) < kReliableWindowSize"
  shows "window_pos (ns + 1) ra ns"
  using assms by (simp add: window_pos_def kReliableWindowSize_def seq_lt_dist)

lemma inflight_inv_emplace:
  assumes "inflight_inv cfg ns ra m" and "unat (ns - ra) < kReliableWindowSize"
    and "h_seq h = ns" and "isValidHeader h"
  shows "inflight_inv cfg (ns + 1) ra
    (map_emplace ns (first_send_entry \<lparr>op_header = h, op_payload = p\<rparr> now) m)"
proof -
  let ?e = "first_send_entry \<lparr>op_header = h, op_payload = p\<rparr> now"
  have "entry_ok cfg k e \<and> window_pos (ns + 1) ra k" if "(k, e) \<in> set (map_emplace ns ?e m)" for k e
  proof (cases "(k, e) = (ns, ?e)")
    case True
    then show ?thesis using assms window_pos_new
      by (simp add: entry_ok_def first_send_entry_def)
  next
    case False
    then have "(k, e) \<in> set m" using that set_map_emplace_subset [of ns ?e m] by blast
    then show ?thesis using assms(1) window_pos_advance [OF _ assms(2)]
      by (auto simp: inflight_inv_def)
  qed
  then show ?thesis using assms(1) by (auto simp: inflight_inv_def map_ok_map_emplace)
qed

section \<open>Retransmission\<close>

definition retransmit_due :: "TransportSettings \<Rightarrow> u64 \<Rightarrow> TxEntry \<Rightarrow> bool" where
  "retransmit_due cfg now_ms e \<longleftrightarrow>
     te_fast_retx_pending e \<or>
     te_last_send_ms e + retransmit_timeout_for cfg (te_retry_count e) \<le> now_ms"

definition retransmit_exhausted :: "TransportSettings \<Rightarrow> TxEntry \<Rightarrow> bool" where
  "retransmit_exhausted cfg e \<longleftrightarrow> max_retransmit_count cfg \<le> te_retry_count e"

definition retransmit_idle :: "TransportSettings \<Rightarrow> u64 \<Rightarrow> u32 \<times> TxEntry \<Rightarrow> bool" where
  "retransmit_idle cfg now_ms p \<longleftrightarrow>
     \<not> retransmit_exhausted cfg (snd p) \<and> \<not> retransmit_due cfg now_ms (snd p)"

definition resend_bytes :: "RxSessionState \<Rightarrow> TxEntry \<Rightarrow> bytes" where
  "resend_bytes rx e =
     encode (refresh_ack_fields rx (op_header (te_packet e))) (op_payload (te_packet e))"

lemma retransmit_loop_Cons:
  "retransmit_loop cfg now rx ((k, e) # later) =
     (if retransmit_idle cfg now (k, e)
      then (fst (retransmit_loop cfg now rx later), (k, e) # snd (retransmit_loop cfg now rx later))
      else if retransmit_exhausted cfg e then (retransmit_limit_result, later)
      else (make_poll_result (Some (resend_bytes rx e)) True, (k, resend_entry now rx e) # later))"
  by (simp add: retransmit_idle_def retransmit_exhausted_def retransmit_due_def resend_bytes_def
      Let_def split: prod.splits)

lemma retransmit_loop_exact:
  "retransmit_loop cfg now rx m =
     (case dropWhile (retransmit_idle cfg now) m of
        [] \<Rightarrow> (default_poll_result, m)
      | (k, e) # later \<Rightarrow>
          if retransmit_exhausted cfg e
          then (retransmit_limit_result, takeWhile (retransmit_idle cfg now) m @ later)
          else (make_poll_result (Some (resend_bytes rx e)) True,
                takeWhile (retransmit_idle cfg now) m @ (k, resend_entry now rx e) # later))"
proof (induction m)
  case (Cons p m)
  obtain k e where p: "p = (k, e)" by fastforce
  show ?case
    by (cases "retransmit_idle cfg now p"; cases "dropWhile (retransmit_idle cfg now) m")
      (simp_all add: p retransmit_loop_Cons Cons.IH split: prod.splits del: dropWhile_eq_Nil_conv
        retransmit_loop.simps(2))
qed simp

lemma retransmit_loop_cases:
  obtains (idle) "\<forall>p \<in> set m. retransmit_idle cfg now p"
      and "retransmit_loop cfg now rx m = (default_poll_result, m)"
  | (limit) earlier k e later where "m = earlier @ (k, e) # later"
      and "\<forall>p \<in> set earlier. retransmit_idle cfg now p" and "retransmit_exhausted cfg e"
      and "retransmit_loop cfg now rx m = (retransmit_limit_result, earlier @ later)"
  | (resend) earlier k e later where "m = earlier @ (k, e) # later"
      and "\<forall>p \<in> set earlier. retransmit_idle cfg now p"
      and "\<not> retransmit_exhausted cfg e" and "retransmit_due cfg now e"
      and "retransmit_loop cfg now rx m =
        (make_poll_result (Some (resend_bytes rx e)) True,
         earlier @ (k, resend_entry now rx e) # later)"
proof (cases "dropWhile (retransmit_idle cfg now) m")
  case Nil
  then have "\<forall>p \<in> set m. retransmit_idle cfg now p" by (simp only: dropWhile_eq_Nil_conv)
  moreover have "retransmit_loop cfg now rx m = (default_poll_result, m)"
    unfolding retransmit_loop_exact Nil by simp
  ultimately show ?thesis by (rule idle)
next
  case (Cons p later)
  obtain k e where p: "p = (k, e)" by fastforce
  let ?earlier = "takeWhile (retransmit_idle cfg now) m"
  have m: "m = ?earlier @ (k, e) # later" using Cons p by (metis takeWhile_dropWhile_id)
  have idle: "\<forall>p \<in> set ?earlier. retransmit_idle cfg now p" by (auto dest: set_takeWhileD)
  have "\<not> retransmit_idle cfg now (k, e)"
    using Cons p hd_dropWhile [of "retransmit_idle cfg now" m] by simp
  then show ?thesis
    using limit [OF m idle] resend [OF m idle] Cons p
    by (auto simp: retransmit_loop_exact retransmit_idle_def)
qed

lemma isValidHeader_refresh [simp]: "isValidHeader (refresh_ack_fields rx h) = isValidHeader h"
  by (simp add: refresh_ack_fields_def isValidHeader_def)

lemma resend_entry_ok:
  assumes "entry_ok cfg k e" and "\<not> retransmit_exhausted cfg e"
  shows "entry_ok cfg k (resend_entry now rx e)"
proof -
  have "te_retry_count e < max_retransmit_count cfg"
    using assms(2) by (simp add: retransmit_exhausted_def)
  then have "te_retry_count e + 1 \<le> max_retransmit_count cfg" by (rule inc_le)
  then show ?thesis using assms(1)
    by (simp add: entry_ok_def resend_entry_def) (simp add: refresh_ack_fields_def)
qed

lemma map_ok_drop_one: "map_ok (xs @ y # ys) \<Longrightarrow> map_ok (xs @ ys)"
  by (auto simp: map_ok_def sorted_wrt_append)

lemma retransmit_loop_inv:
  assumes "inflight_inv cfg ns ra m"
  shows "inflight_inv cfg ns ra (snd (retransmit_loop cfg now rx m))"
proof (cases rule: retransmit_loop_cases [of m cfg now rx])
  case idle
  then show ?thesis using assms by simp
next
  case (limit earlier k e later)
  then show ?thesis using assms by (auto simp: inflight_inv_def dest: map_ok_drop_one)
next
  case (resend earlier k e later)
  have "map_ok (earlier @ (k, resend_entry now rx e) # later) = map_ok m"
    unfolding resend(1) by (rule map_ok_keys) simp
  then show ?thesis using resend assms resend_entry_ok [of cfg k e now rx]
    by (auto simp: inflight_inv_def)
qed

section \<open>Emitted datagrams\<close>

text \<open>
  What every outbound datagram is: the encoding of a valid header that carries the receiver's current
  acknowledgement.
\<close>

definition carries_ack :: "RxSessionState \<Rightarrow> bytes \<Rightarrow> bool" where
  "carries_ack rx bs \<longleftrightarrow>
     (\<exists>pv. decode bs = Some pv \<and> h_ack (pv_header pv) = rx_next_expected rx \<and>
        h_ack_bits (pv_header pv) = rx_received_bits rx)"

lemma carries_ack_encode:
  "isValidHeader h \<Longrightarrow> h_ack h = rx_next_expected rx \<Longrightarrow> h_ack_bits h = rx_received_bits rx \<Longrightarrow>
   carries_ack rx (encode h p)"
  by (simp add: carries_ack_def decode_encode_valid)

lemma valid_default_header:
  "isValidHeader (default_header\<lparr>h_conn_id := c, h_channel_type := t, h_flags := f,
     h_ack := a, h_ack_bits := b\<rparr>) \<longleftrightarrow> named_channel t \<and> f AND 0xc0 = 0"
  by (auto simp: isValidHeader_def default_header_def named_channel_def)

definition sound_step ::
  "TransportSettings \<Rightarrow> RxSessionState \<Rightarrow> bytes option \<Rightarrow> TxSessionState \<Rightarrow> bool"
where
  "sound_step cfg rx out tx \<longleftrightarrow> tx_inv cfg tx \<and> (\<forall>bs. out = Some bs \<longrightarrow> carries_ack rx bs)"

lemma build_control_packet_sound:
  assumes "tx_inv cfg tx" and "flags AND 0xc0 = 0"
    and "build_control_packet now conn_id flags rx tx = (out, tx')"
  shows "sound_step cfg rx out tx'"
proof -
  show ?thesis
    using assms
    by (auto simp: build_control_packet_def Let_def sound_step_def tx_inv_def
        reliable_window_full_def not_le isValidHeader_def default_header_def
        intro!: carries_ack_encode inflight_inv_emplace split: if_splits)
qed

lemma sound_step_update:
  assumes "sound_step cfg rx out tx"
    and "tx_inflight tx' = tx_inflight tx" and "tx_next_seq tx' = tx_next_seq tx"
    and "tx_remote_ack tx' = tx_remote_ack tx" and "tx_pending_send tx' = tx_pending_send tx"
  shows "sound_step cfg rx out tx'"
  using assms by (simp add: sound_step_def tx_inv_def)

lemma sound_step_None: "tx_inv cfg tx \<Longrightarrow> sound_step cfg rx None tx"
  by (simp add: sound_step_def)

lemma try_build_handshake_sound:
  assumes "tx_inv cfg tx"
    and "try_build_handshake cfg now role conn_id cs rx tx = (out, cs', tx')"
  shows "sound_step cfg rx out tx'"
proof -
  have "flag_value FlagSyn AND 0xc0 = 0" "flags_or FlagSyn FlagAck AND 0xc0 = 0"
    "flag_value FlagAck AND 0xc0 = 0" "flag_value FlagFin AND 0xc0 = 0"
    by (simp_all add: flags_or_def)
  note sound = this [THEN build_control_packet_sound [OF assms(1)]]
  show ?thesis
    using assms(2) sound_step_None [OF assms(1)]
    by (auto simp: try_build_handshake_def Let_def simp del: flag_value.simps
        split: if_splits prod.splits option.splits intro: sound [THEN sound_step_update] sound)
qed

lemma try_build_retransmit_sound:
  assumes "tx_inv cfg tx" and "try_build_retransmit cfg now rx tx = (result, tx')"
  shows "sound_step cfg rx (pr_datagram result) tx'"
proof -
  let ?m = "tx_inflight tx"
  from assms(1) have inv: "inflight_inv cfg (tx_next_seq tx) (tx_remote_ack tx) ?m"
    by (simp add: tx_inv_def)
  have tx': "tx' = tx\<lparr>tx_inflight := snd (retransmit_loop cfg now rx ?m)\<rparr>"
    and result: "result = fst (retransmit_loop cfg now rx ?m)"
    using assms(2) by (auto simp: try_build_retransmit_def split: prod.splits)
  have "tx_inv cfg tx'" using assms(1) retransmit_loop_inv [OF inv] by (simp add: tx_inv_def tx')
  moreover have "carries_ack rx bs" if "pr_datagram result = Some bs" for bs
  proof (cases rule: retransmit_loop_cases [of ?m cfg now rx])
    case (resend earlier k e later)
    then have "isValidHeader (op_header (te_packet e))" using inflight_invD(2) [OF inv, of k e] by simp
    moreover have "bs = resend_bytes rx e" using that resend result by (simp add: make_poll_result_def)
    ultimately show ?thesis
      by (auto simp: resend_bytes_def intro!: carries_ack_encode) (simp_all add: refresh_ack_fields_def)
  qed (use that result in \<open>simp_all add: default_poll_result_def retransmit_limit_result_def\<close>)
  ultimately show ?thesis by (simp add: sound_step_def)
qed

lemma try_build_probe_lane_sound:
  assumes "tx_inv cfg tx" and "try_build_probe_lane conn_id rx tx = (out, tx')"
  shows "sound_step cfg rx out tx'"
  using assms
  by (auto simp: try_build_probe_lane_def Let_def sound_step_def tx_inv_def
      make_internal_probe_header_def kInternalProbeChannelType_def isValidHeader_def
      default_header_def intro!: carries_ack_encode split: if_splits)

lemma try_build_ack_only_sound:
  assumes "tx_inv cfg tx" and "try_build_ack_only conn_id rx tx = (out, tx')"
  shows "sound_step cfg rx out tx'"
  using assms
  by (auto simp: try_build_ack_only_def Let_def sound_step_def tx_inv_def isValidHeader_def
      default_header_def intro!: carries_ack_encode split: if_splits)

lemma try_build_fresh_sound:
  assumes "tx_inv cfg tx" and "try_build_fresh now conn_id rx tx = (out, tx')"
  shows "sound_step cfg rx out tx'"
proof (cases "tx_pending_send tx")
  case Nil
  then show ?thesis using assms by (simp add: try_build_fresh_def sound_step_None)
next
  case (Cons request queue)
  with assms(1) have "named_channel (sr_channel_type request)"
    and "\<forall>r \<in> set queue. named_channel (sr_channel_type r)" by (simp_all add: tx_inv_def)
  then show ?thesis using assms Cons
    by (auto simp: try_build_fresh_def make_packet_from_request_def Let_def sound_step_def
        tx_inv_def named_channel_def reliable_window_full_def not_le isValidHeader_def
        default_header_def intro!: carries_ack_encode inflight_inv_emplace split: if_splits)
qed

lemmas lanes_sound = try_build_handshake_sound try_build_retransmit_sound
  try_build_probe_lane_sound try_build_ack_only_sound try_build_fresh_sound

lemma sound_step_inv: "sound_step cfg rx out tx \<Longrightarrow> tx_inv cfg tx"
  by (simp add: sound_step_def)

text \<open>The lanes of \<open>poll\<close> in order, as an introduction of everything it can return.\<close>

lemma poll_cases:
  assumes "poll cfg now role conn_id cs rx tx = (result, cs', tx')"
  obtains (handshake) bs where
      "try_build_handshake cfg now role conn_id cs rx tx = (Some bs, cs', tx')"
      and "result = make_poll_result (Some bs) False"
  | (later) tx1 tx2 r2 where
      "try_build_handshake cfg now role conn_id cs rx tx = (None, cs', tx1)"
      and "try_build_retransmit cfg now rx tx1 = (r2, tx2)"
      and "pr_fatal_error r2 \<or> pr_datagram r2 \<noteq> None \<Longrightarrow> result = r2 \<and> tx' = tx2"
      and "\<not> pr_fatal_error r2 \<Longrightarrow> pr_datagram r2 = None \<Longrightarrow>
        (\<exists>bs. try_build_probe_lane conn_id rx tx2 = (Some bs, tx') \<and>
           result = make_poll_result (Some bs) False) \<or>
        (\<exists>tx3. try_build_probe_lane conn_id rx tx2 = (None, tx3) \<and>
          ((\<exists>bs. try_build_ack_only conn_id rx tx3 = (Some bs, tx') \<and>
             result = make_poll_result (Some bs) False) \<or>
           (\<exists>tx4. try_build_ack_only conn_id rx tx3 = (None, tx4) \<and>
             (\<exists>out. try_build_fresh now conn_id rx tx4 = (out, tx') \<and>
               result = make_poll_result out False))))"
  using assms
  by (auto simp: poll_def make_poll_result_def default_poll_result_def
      split: prod.splits option.splits if_splits)

lemma poll_sound:
  assumes "tx_inv cfg tx" and "poll cfg now role conn_id cs rx tx = (result, cs', tx')"
  shows "sound_step cfg rx (pr_datagram result) tx'"
  using assms(2)
proof (cases rule: poll_cases)
  case (handshake bs)
  then show ?thesis using try_build_handshake_sound [OF assms(1)] by (auto simp: make_poll_result_def)
next
  case (later tx1 tx2 r2)
  note h = try_build_handshake_sound [OF assms(1) later(1), THEN sound_step_inv]
  note r = try_build_retransmit_sound [OF h later(2)]
  note inv2 = r [THEN sound_step_inv]
  show ?thesis
  proof (cases "pr_fatal_error r2 \<or> pr_datagram r2 \<noteq> None")
    case True
    then show ?thesis using later(3) r by simp
  next
    case False
    with later(4) show ?thesis
      by (auto simp: make_poll_result_def dest: try_build_probe_lane_sound [OF inv2]
          try_build_probe_lane_sound [OF inv2, THEN sound_step_inv, THEN try_build_ack_only_sound]
          try_build_probe_lane_sound [OF inv2, THEN sound_step_inv, THEN try_build_ack_only_sound,
            THEN sound_step_inv, THEN try_build_fresh_sound])
  qed
qed

section \<open>Properties\<close>

lemma map_find_acknowledged:
  "map_find (acknowledged_inflight cfg ack bits m) k =
     (if is_acknowledged_by_remote k ack bits then None
      else map_option (\<lambda>e. if has_gap_evidence k ack bits
             then add_gap_evidence (fast_retx_evidence_threshold cfg) e else e) (map_find m k))"
  by (induction m) (auto simp: acknowledged_inflight_def map_find_def)

text \<open>
  C9. Processing a remote acknowledgement, packet by packet: with \<open>d\<close> the distance of a packet's
  sequence number ahead of the cumulative value, the packet leaves the in-flight map exactly if it lies
  in the half ring behind the value or its bit \<open>d - 1\<close> (\<open>1 \<le> d \<le> 64\<close>) is set; a packet that stays
  gains one piece of gap evidence exactly if some bit \<open>j \<ge> d\<close> is set (a later packet arrived) and is
  otherwise untouched; nothing is added; and the call reports a FIN as acknowledged exactly if one of
  the packets removed carries that flag. The loop over the gap is total.
\<close>

theorem remote_ack_exact:
  "map_find (tx_inflight (snd (on_remote_ack cfg ack bits tx))) k =
     (let d = unat (k - ack) in
      if 2147483648 \<le> d \<or> 1 \<le> d \<and> d \<le> 64 \<and> bit bits (d - 1) then None
      else map_option (\<lambda>e. if \<exists>j. bit bits j \<and> d \<le> j
             then add_gap_evidence (fast_retx_evidence_threshold cfg) e else e)
           (map_find (tx_inflight tx) k)) \<and>
   tx_remote_ack (snd (on_remote_ack cfg ack bits tx)) = ack \<and>
   tx_next_seq (snd (on_remote_ack cfg ack bits tx)) = tx_next_seq tx \<and>
   tx_pending_send (snd (on_remote_ack cfg ack bits tx)) = tx_pending_send tx \<and>
   ar_acknowledged_fin (fst (on_remote_ack cfg ack bits tx)) =
     (\<exists>p \<in> set (tx_inflight tx). is_acknowledged_by_remote (fst p) ack bits \<and>
        hasFlag (op_header (te_packet (snd p))) FlagFin)"
proof -
  have "has_gap_evidence k ack bits \<longleftrightarrow> (\<exists>j. bit bits j \<and> unat (k - ack) \<le> j)"
    unfolding has_gap_evidence_def by (metis atLeastLessThan_iff bit_u64_bound le0)
  then show ?thesis
    by (simp add: on_remote_ack_eq map_find_acknowledged acknowledged_dist [of k] Let_def)
qed

text \<open>
  C24. One poll retransmits at most one packet: the first of the map that is due (its timer ran out or
  fast retransmission was requested) or has used up its retries. A packet that is due is sent again
  with its own header and payload, only the acknowledgement fields refreshed, and its timer, retry
  count and gap evidence are updated; a packet out of retries is dropped with a fatal error; the
  packets before and after it are untouched.
\<close>

theorem retransmit_first_due:
  "try_build_retransmit cfg now rx tx =
     (case dropWhile (\<lambda>(k, e). te_retry_count e < max_retransmit_count cfg \<and> \<not> te_fast_retx_pending e \<and>
              now < te_last_send_ms e + retransmit_timeout_for cfg (te_retry_count e))
            (tx_inflight tx) of
        [] \<Rightarrow> (default_poll_result, tx)
      | (k, e) # later \<Rightarrow>
          let earlier = take (length (tx_inflight tx) - length ((k, e) # later)) (tx_inflight tx);
              h = (op_header (te_packet e))
                \<lparr>h_ack := rx_next_expected rx, h_ack_bits := rx_received_bits rx\<rparr>
          in if max_retransmit_count cfg \<le> te_retry_count e
             then (retransmit_limit_result, tx\<lparr>tx_inflight := earlier @ later\<rparr>)
             else (make_poll_result (Some (encode h (op_payload (te_packet e)))) True,
                   tx\<lparr>tx_inflight := earlier @
                     (k, \<lparr>te_packet = \<lparr>op_header = h, op_payload = op_payload (te_packet e)\<rparr>,
                          te_first_send_ms = te_first_send_ms e, te_last_send_ms = now,
                          te_retry_count = te_retry_count e + 1, te_gap_evidence_count = 0,
                          te_fast_retx_pending = False\<rparr>) # later\<rparr>))"
proof -
  have idle: "(\<lambda>(k, e). te_retry_count e < max_retransmit_count cfg \<and> \<not> te_fast_retx_pending e \<and>
      now < te_last_send_ms e + retransmit_timeout_for cfg (te_retry_count e)) =
      retransmit_idle cfg now"
    by (auto simp: fun_eq_iff retransmit_idle_def retransmit_exhausted_def retransmit_due_def not_le)
  have earlier: "takeWhile P m = take (length m - length (dropWhile P m)) m" for P and m :: "'a list"
    by (metis append_eq_conv_conj diff_add_inverse2 length_append takeWhile_dropWhile_id)
  show ?thesis
    unfolding idle try_build_retransmit_def retransmit_loop_exact
    by (cases "dropWhile (retransmit_idle cfg now) (tx_inflight tx)")
      (auto simp: earlier [of "retransmit_idle cfg now"] resend_bytes_def resend_entry_def
        refresh_ack_fields_def retransmit_exhausted_def Let_def split: prod.splits
        simp del: dropWhile_eq_Nil_conv)
qed

text \<open>
  The retransmission timeout doubles with each retry up to sixteen times the initial one and never
  exceeds the configured maximum, provided the initial timeout is below \<open>2^60\<close> ms (the code shifts a
  64-bit value by up to four).
\<close>

lemma rto_backoff:
  assumes "unat (initial_rto_ms cfg) < 2 ^ 60"
  shows "unat (retransmit_timeout_for cfg n) =
    min (unat (initial_rto_ms cfg) * 2 ^ min (unat n) 4) (unat (max_rto_ms cfg))"
proof -
  let ?i = "initial_rto_ms cfg"
  have c: "unat (min n 4) = min (unat n) 4" by (simp add: min_def word_le_nat_alt)
  have "(2 :: nat) ^ min (unat n) 4 \<le> 2 ^ 4" by (rule power_increasing) simp_all
  then have "unat ?i * 2 ^ min (unat n) 4 \<le> unat ?i * 16" by simp
  also have "\<dots> < 2 ^ 64" using assms by simp
  finally have "unat (push_bit (min (unat n) 4) ?i) = unat ?i * 2 ^ min (unat n) 4"
    by (simp only: unsigned_push_bit_eq) (simp add: take_bit_eq_mod push_bit_eq_mult)
  then show ?thesis
    by (simp add: retransmit_timeout_for_def Let_def c) (simp add: min_def word_le_nat_alt)
qed

text \<open>
  C25. Polling is work-conserving: when a poll yields neither a datagram nor a fatal error, nothing was
  ready to go. No handshake packet is wanted (or the window is full), no packet in flight is due, no
  probe and no pure ACK is pending, and the send queue is empty or headed by a reliable request that
  waits for the window. Such a poll leaves the send state unchanged.
\<close>

theorem poll_work_conserving:
  assumes "poll cfg now role conn_id cs rx tx = (result, cs', tx')"
    and "pr_datagram result = None" and "\<not> pr_fatal_error result"
  shows "tx' = tx \<and>
    (role = Client \<and> cs = Closed \<or> tx_syn_ack_pending tx \<and> cs = HandshakeReceived \<or>
       tx_fin_pending tx \<and> cs = Closing \<longrightarrow> reliable_window_full tx) \<and>
    \<not> (tx_final_ack_pending tx \<and> cs = Established) \<and>
    (\<forall>(k, e) \<in> set (tx_inflight tx). \<not> retransmit_due cfg now e \<and> \<not> retransmit_exhausted cfg e) \<and>
    \<not> pb_pong_pending (tx_probe tx) \<and> \<not> pb_ping_pending (tx_probe tx) \<and>
    \<not> tx_ack_only_pending tx \<and>
    (case tx_pending_send tx of
       [] \<Rightarrow> True
     | request # _ \<Rightarrow> isReliableChannel (sr_channel_type request) \<and> reliable_window_full tx)"
  using assms(1)
proof (cases rule: poll_cases)
  case (handshake bs)
  then show ?thesis using assms(2) by (simp add: make_poll_result_def)
next
  case (later tx1 tx2 r2)
  have hs: "tx1 = tx \<and>
    (role = Client \<and> cs = Closed \<or> tx_syn_ack_pending tx \<and> cs = HandshakeReceived \<or>
       tx_fin_pending tx \<and> cs = Closing \<longrightarrow> reliable_window_full tx) \<and>
    \<not> (tx_final_ack_pending tx \<and> cs = Established)"
    using later(1)
    by (auto simp: try_build_handshake_def build_control_packet_def consumes_reliable_seq_def
        flags_or_def Let_def split: if_splits)
  have quiet: "\<not> pr_fatal_error r2" "pr_datagram r2 = None" using later(3) assms(2,3) by metis+
  have r2: "retransmit_loop cfg now rx (tx_inflight tx) = (r2, tx_inflight tx2)"
    and tx2: "tx2 = tx\<lparr>tx_inflight := tx_inflight tx2\<rparr>"
    using later(2) hs by (auto simp: try_build_retransmit_def split: prod.splits)
  have "tx_inflight tx2 = tx_inflight tx \<and> (\<forall>p \<in> set (tx_inflight tx). retransmit_idle cfg now p)"
    using r2 quiet
    by (cases rule: retransmit_loop_cases [of "tx_inflight tx" cfg now rx])
      (simp_all add: retransmit_limit_result_def make_poll_result_def)
  with tx2 have rt: "tx2 = tx \<and> (\<forall>p \<in> set (tx_inflight tx). retransmit_idle cfg now p)" by simp
  have idle: "\<forall>(k, e) \<in> set (tx_inflight tx). \<not> retransmit_due cfg now e \<and> \<not> retransmit_exhausted cfg e"
    using rt by (auto simp: retransmit_idle_def)
  have rest: "tx' = tx \<and> \<not> pb_pong_pending (tx_probe tx) \<and> \<not> pb_ping_pending (tx_probe tx) \<and>
    \<not> tx_ack_only_pending tx \<and>
    (case tx_pending_send tx of
       [] \<Rightarrow> True
     | request # _ \<Rightarrow> isReliableChannel (sr_channel_type request) \<and> reliable_window_full tx)"
    using later(4) [OF quiet] rt assms(2)
    by (auto simp: make_poll_result_def try_build_probe_lane_def try_build_ack_only_def
        try_build_fresh_def Let_def reliable_window_full_def split: if_splits list.splits prod.splits)
  show ?thesis using hs idle rest by blast
qed

definition quiet_tx :: TxSessionState where
  "quiet_tx =
     \<lparr>tx_next_seq = 100, tx_remote_ack = 100, tx_remote_ack_bits = 0, tx_pending_send = [],
      tx_inflight = [], tx_syn_ack_pending = False, tx_final_ack_pending = False,
      tx_final_ack_linger_until_ms = 0, tx_fin_pending = False, tx_ack_only_pending = False,
      tx_reliable_ack_pending = False, tx_reliable_ack_due_ms = 0, tx_activity_ack_pending = False,
      tx_probe = default_probe\<rparr>"

theorem poll_work_conserving_witness:
  "poll default_transport 5 Client 7 Established default_rx quiet_tx =
     (default_poll_result, Established, quiet_tx) \<and>
   \<not> tx_ack_only_pending quiet_tx \<and> \<not> pb_ping_pending (tx_probe quiet_tx)"
proof -
  have p: "poll default_transport 5 Client 7 Established default_rx quiet_tx =
      (default_poll_result, Established, quiet_tx)"
    by (simp add: poll_def try_build_handshake_def try_build_retransmit_def try_build_probe_lane_def
        try_build_ack_only_def try_build_fresh_def quiet_tx_def default_probe_def
        default_poll_result_def)
  show ?thesis using poll_work_conserving [OF p] p by (simp add: default_poll_result_def)
qed
end
