(* ===== verification/Session_Core.thy ===== *)
theory Session_Core
  imports Rx_Handler Tx_Handler
begin

text \<open>
  Model of \<open>src/Session.cpp\<close> and \<open>include/Rudp/Session.hpp\<close>: one connection, which composes the codec,
  the connection state machine, the receiver and the sender. The class keeps one \<open>SessionState\<close> (its
  two handlers have no state), so an operation is a function on that record; \<open>cfg\<close> stands for
  \<open>Config::current().transport\<close>, and the random draws of the initial sequence number are arguments.
\<close>

section \<open>Helpers\<close>

definition generate_initial_seq :: "u32 \<Rightarrow> u32 \<Rightarrow> u32" where
  "generate_initial_seq rd1 rd2 =
     (let upper = push_bit 16 rd1;
          lower = rd2 AND 0xffff
      in upper XOR lower)"

definition emit_local_error :: "string \<Rightarrow> RxSessionState \<Rightarrow> RxSessionState" where
  "emit_local_error error_message rx =
     push_event \<lparr>ev_type = ErrorEvent, ev_seq = 0, ev_channel_id = 0, ev_channel_type = Unreliable,
       ev_payload = [], ev_error_message = error_message\<rparr> rx"

definition emit_control_event ::
  "SessionEventType \<Rightarrow> PacketView \<Rightarrow> string \<Rightarrow> RxSessionState \<Rightarrow> RxSessionState"
where
  "emit_control_event type packet error_message rx =
     push_event \<lparr>ev_type = type,
       ev_seq = h_seq (pv_header packet),
       ev_channel_id = h_channel_id (pv_header packet),
       ev_channel_type = h_channel_type (pv_header packet),
       ev_payload = [],
       ev_error_message = error_message\<rparr> rx"

definition should_adopt_server_conn_id :: "SessionState \<Rightarrow> ControlKind \<Rightarrow> Header \<Rightarrow> bool" where
  "should_adopt_server_conn_id state control_kind header =
     (s_role state = Client \<and> control_kind = KindSynAck \<and> s_conn_id state = 0 \<and>
      h_conn_id header \<noteq> 0)"

definition allows_server_zero_conn_id_bootstrap :: "SessionState \<Rightarrow> Header \<Rightarrow> bool" where
  "allows_server_zero_conn_id_bootstrap state header =
     (s_role state = Server \<and> s_connection_state state = Closed \<and> h_conn_id header = 0)"

definition has_conn_id_mismatch :: "SessionState \<Rightarrow> ControlKind \<Rightarrow> Header \<Rightarrow> bool" where
  "has_conn_id_mismatch state control_kind header =
     (s_conn_id state \<noteq> 0 \<and> control_kind \<noteq> KindSyn \<and>
      \<not> allows_server_zero_conn_id_bootstrap state header \<and>
      h_conn_id header \<noteq> s_conn_id state)"

definition is_duplicate_client_syn_ack :: "SessionState \<Rightarrow> ControlKind \<Rightarrow> bool" where
  "is_duplicate_client_syn_ack state control_kind =
     (s_role state = Client \<and> s_connection_state state = Established \<and> control_kind = KindSynAck)"

definition adopt_server_conn_id :: "Header \<Rightarrow> SessionState \<Rightarrow> SessionState" where
  "adopt_server_conn_id header state = state\<lparr>s_conn_id := h_conn_id header\<rparr>"

definition reset_for_conn_id_mismatch :: "SessionState \<Rightarrow> SessionState" where
  "reset_for_conn_id_mismatch state =
     state\<lparr>s_connection_state := Reset,
           s_rx := emit_local_error ''conn_id mismatch'' (s_rx state)\<rparr>"

definition schedule_final_ack_during_linger :: "u64 \<Rightarrow> SessionState \<Rightarrow> SessionState" where
  "schedule_final_ack_during_linger now_ms state =
     (if now_ms \<le> tx_final_ack_linger_until_ms (s_tx state)
      then state\<lparr>s_tx := (s_tx state)\<lparr>tx_final_ack_pending := True\<rparr>\<rparr>
      else state)"

definition should_apply_remote_ack :: "ControlKind \<Rightarrow> bool" where
  "should_apply_remote_ack control_kind = (control_kind \<noteq> KindSyn)"

definition apply_remote_ack ::
  "TransportSettings \<Rightarrow> Header \<Rightarrow> ControlKind \<Rightarrow> TxAckResult \<Rightarrow> TxSessionState
   \<Rightarrow> TxAckResult \<times> TxSessionState"
where
  "apply_remote_ack cfg header control_kind ack_result tx =
     (if \<not> should_apply_remote_ack control_kind then (ack_result, tx)
      else on_remote_ack cfg (h_ack header) (h_ack_bits header) tx)"

definition should_close_after_fin_acknowledgement :: "SessionState \<Rightarrow> TxAckResult \<Rightarrow> bool" where
  "should_close_after_fin_acknowledgement state ack_result =
     (ar_acknowledged_fin ack_result \<and> s_connection_state state = Closing)"

definition close_after_fin_acknowledgement :: "PacketView \<Rightarrow> SessionState \<Rightarrow> SessionState" where
  "close_after_fin_acknowledgement packet state =
     state\<lparr>s_connection_state := Closed,
           s_rx := emit_control_event ConnectionClosed packet [] (s_rx state)\<rparr>"

definition emit_connection_decision_events ::
  "PacketView \<Rightarrow> ConnectionDecision \<Rightarrow> RxSessionState \<Rightarrow> RxSessionState"
where
  "emit_connection_decision_events packet decision rx =
     (let rx = (if cd_emit_connected decision
                then emit_control_event Connected packet [] rx else rx);
          rx = (if cd_emit_connection_closed decision
                then emit_control_event ConnectionClosed packet [] rx else rx)
      in if cd_emit_connection_reset decision
         then emit_control_event ConnectionReset packet [] rx else rx)"

definition should_schedule_probe :: "TransportSettings \<Rightarrow> SessionState \<Rightarrow> u64 \<Rightarrow> bool" where
  "should_schedule_probe cfg state now_ms =
     (if s_role state \<noteq> Client \<or> s_connection_state state \<noteq> Established \<or>
         pb_ping_outstanding (tx_probe (s_tx state)) \<or> pb_ping_pending (tx_probe (s_tx state)) \<or>
         pb_pong_pending (tx_probe (s_tx state))
      then False
      else
        let probe_baseline =
          (if pb_last_sent_ms (tx_probe (s_tx state)) \<noteq> 0
           then pb_last_sent_ms (tx_probe (s_tx state)) else s_established_since_ms state)
        in probe_baseline + keepalive_idle_ms cfg \<le> now_ms)"

definition should_schedule_activity_ack :: "TransportSettings \<Rightarrow> SessionState \<Rightarrow> u64 \<Rightarrow> bool" where
  "should_schedule_activity_ack cfg state now_ms =
     (if \<not> enable_activity_ack_only cfg then False
      else if s_connection_state state \<noteq> Established \<or> \<not> tx_activity_ack_pending (s_tx state) \<or>
              tx_ack_only_pending (s_tx state) \<or> pb_ping_pending (tx_probe (s_tx state)) \<or>
              pb_pong_pending (tx_probe (s_tx state))
      then False
      else s_last_tx_ms state + keepalive_idle_ms cfg \<le> now_ms)"

definition should_schedule_reliable_ack :: "SessionState \<Rightarrow> u64 \<Rightarrow> bool" where
  "should_schedule_reliable_ack state now_ms =
     (if s_connection_state state \<noteq> Established \<or> \<not> tx_reliable_ack_pending (s_tx state) \<or>
         tx_ack_only_pending (s_tx state) \<or> pb_ping_pending (tx_probe (s_tx state)) \<or>
         pb_pong_pending (tx_probe (s_tx state))
      then False
      else tx_reliable_ack_due_ms (s_tx state) \<le> now_ms)"

definition should_timeout_idle_session :: "TransportSettings \<Rightarrow> SessionState \<Rightarrow> u64 \<Rightarrow> bool" where
  "should_timeout_idle_session cfg state now_ms =
     (if s_connection_state state \<noteq> Established then False
      else s_last_rx_ms state + idle_timeout_ms cfg \<le> now_ms)"

definition mark_idle_timeout :: "SessionState \<Rightarrow> SessionState" where
  "mark_idle_timeout state =
     state\<lparr>s_connection_state := Reset,
           s_rx := emit_local_error ''idle timeout'' (s_rx state)\<rparr>"

definition schedule_pending_tx_work ::
  "TransportSettings \<Rightarrow> u64 \<Rightarrow> SessionState \<Rightarrow> SessionState"
where
  "schedule_pending_tx_work cfg now_ms state =
     (if should_schedule_reliable_ack state now_ms
      then state\<lparr>s_tx := (s_tx state)\<lparr>tx_ack_only_pending := True,
                                     tx_reliable_ack_pending := False\<rparr>\<rparr>
      else if should_schedule_activity_ack cfg state now_ms
      then state\<lparr>s_tx := (s_tx state)\<lparr>tx_ack_only_pending := True\<rparr>\<rparr>
      else if should_schedule_probe cfg state now_ms
      then state\<lparr>s_tx := (s_tx state)\<lparr>tx_probe :=
             (tx_probe (s_tx state))\<lparr>pb_ping_pending := True\<rparr>\<rparr>\<rparr>
      else state)"

section \<open>Statistics and probes\<close>

definition record_received_stats :: "ControlKind \<Rightarrow> nat \<Rightarrow> u64 \<Rightarrow> SessionState \<Rightarrow> SessionState" where
  "record_received_stats control_kind datagram_size now_ms state =
     (let st = s_stats state;
          st = st\<lparr>st_packets_received := st_packets_received st + 1,
                  st_bytes_received := st_bytes_received st + of_nat datagram_size\<rparr>;
          st = (if control_kind \<noteq> KindNone
                then st\<lparr>st_control_packets_received := st_control_packets_received st + 1\<rparr>
                else st\<lparr>st_data_packets_received := st_data_packets_received st + 1\<rparr>);
          st = (if control_kind = KindPing
                then st\<lparr>st_pings_received := st_pings_received st + 1\<rparr>
                else if control_kind = KindPong
                then st\<lparr>st_pongs_received := st_pongs_received st + 1\<rparr>
                else st)
      in state\<lparr>s_last_rx_ms := now_ms, s_stats := st\<rparr>)"

definition record_outbound_stats ::
  "PacketView \<Rightarrow> nat \<Rightarrow> u64 \<Rightarrow> bool \<Rightarrow> SessionState \<Rightarrow> SessionState"
where
  "record_outbound_stats packet datagram_size now_ms is_retransmission state =
     (let st = s_stats state;
          st = st\<lparr>st_packets_sent := st_packets_sent st + 1,
                  st_bytes_sent := st_bytes_sent st + of_nat datagram_size\<rparr>;
          control_kind = classify_control_kind (pv_header packet);
          st = (if control_kind \<noteq> KindNone
                then st\<lparr>st_control_packets_sent := st_control_packets_sent st + 1\<rparr>
                else st\<lparr>st_data_packets_sent := st_data_packets_sent st + 1\<rparr>);
          st = (if control_kind = KindPing
                then st\<lparr>st_pings_sent := st_pings_sent st + 1\<rparr>
                else if control_kind = KindPong
                then st\<lparr>st_pongs_sent := st_pongs_sent st + 1\<rparr>
                else st);
          st = (if is_retransmission
                then st\<lparr>st_retransmissions_sent := st_retransmissions_sent st + 1\<rparr>
                else st)
      in state\<lparr>s_last_tx_ms := now_ms, s_stats := st\<rparr>)"

definition update_outbound_probe_state :: "ControlKind \<Rightarrow> u64 \<Rightarrow> SessionState \<Rightarrow> SessionState" where
  "update_outbound_probe_state control_kind now_ms state =
     (if control_kind \<noteq> KindPing then state
      else state\<lparr>s_tx := (s_tx state)\<lparr>tx_probe := (tx_probe (s_tx state))
             \<lparr>pb_ping_outstanding := True, pb_last_sent_ms := now_ms,
              pb_last_ping_sent_ms := now_ms\<rparr>\<rparr>\<rparr>)"

definition clear_outbound_ack_state :: "ControlKind \<Rightarrow> SessionState \<Rightarrow> SessionState" where
  "clear_outbound_ack_state control_kind state =
     (let tx = (s_tx state)\<lparr>tx_activity_ack_pending := False\<rparr>;
          tx = (if control_kind = KindAck then tx\<lparr>tx_reliable_ack_pending := False\<rparr> else tx)
      in state\<lparr>s_tx := tx\<rparr>)"

definition apply_outbound_result :: "bytes \<Rightarrow> u64 \<Rightarrow> bool \<Rightarrow> SessionState \<Rightarrow> SessionState" where
  "apply_outbound_result datagram now_ms is_retransmission state =
     (case decode datagram of
        None \<Rightarrow> state
      | Some decoded \<Rightarrow>
          let control_kind = classify_control_kind (pv_header decoded);
              state = update_outbound_probe_state control_kind now_ms state;
              state = record_outbound_stats decoded (length datagram) now_ms is_retransmission state
          in clear_outbound_ack_state control_kind state)"

definition handle_probe_receive :: "ControlKind \<Rightarrow> u64 \<Rightarrow> SessionState \<Rightarrow> SessionState" where
  "handle_probe_receive control_kind now_ms state =
     (if control_kind = KindPing \<and> s_connection_state state = Established
      then state\<lparr>s_tx := (s_tx state)\<lparr>tx_probe :=
             (tx_probe (s_tx state))\<lparr>pb_pong_pending := True\<rparr>\<rparr>\<rparr>
      else if control_kind = KindPong \<and> pb_ping_outstanding (tx_probe (s_tx state))
      then
        let rtt_ms = now_ms - pb_last_ping_sent_ms (tx_probe (s_tx state));
            st = s_stats state;
            st = st\<lparr>st_latest_rtt_ms := Some rtt_ms,
                    st_rtt_sample_count := st_rtt_sample_count st + 1,
                    st_rtt_sum_ms := st_rtt_sum_ms st + rtt_ms\<rparr>;
            st = (case st_min_rtt_ms st of
                    None \<Rightarrow> st\<lparr>st_min_rtt_ms := Some rtt_ms\<rparr>
                  | Some m \<Rightarrow> if rtt_ms < m then st\<lparr>st_min_rtt_ms := Some rtt_ms\<rparr> else st);
            st = (case st_max_rtt_ms st of
                    None \<Rightarrow> st\<lparr>st_max_rtt_ms := Some rtt_ms\<rparr>
                  | Some m \<Rightarrow> if rtt_ms > m then st\<lparr>st_max_rtt_ms := Some rtt_ms\<rparr> else st)
        in state\<lparr>s_tx := (s_tx state)\<lparr>tx_probe :=
                   (tx_probe (s_tx state))\<lparr>pb_ping_outstanding := False\<rparr>\<rparr>,
                 s_stats := st\<rparr>
      else state)"

definition update_post_receive_liveness :: "ControlKind \<Rightarrow> SessionState \<Rightarrow> SessionState" where
  "update_post_receive_liveness control_kind state =
     (if control_kind = KindNone \<and> s_connection_state state = Established
      then state\<lparr>s_tx := (s_tx state)\<lparr>tx_activity_ack_pending := True\<rparr>\<rparr>
      else state)"

definition schedule_receive_side_ack ::
  "TransportSettings \<Rightarrow> PacketView \<Rightarrow> ControlKind \<Rightarrow> RxPacketResult \<Rightarrow> u64 \<Rightarrow> SessionState \<Rightarrow> SessionState"
where
  "schedule_receive_side_ack cfg packet control_kind rx_result now_ms state =
     (if \<not> rr_schedule_ack_only rx_result then state
      else if control_kind = KindNone \<and> isReliableChannel (h_channel_type (pv_header packet))
      then state\<lparr>s_tx := (s_tx state)\<lparr>tx_reliable_ack_pending := True,
                   tx_reliable_ack_due_ms := now_ms + reliable_ack_delay_ms cfg\<rparr>\<rparr>
      else state\<lparr>s_tx := (s_tx state)\<lparr>tx_ack_only_pending := True\<rparr>\<rparr>)"

section \<open>The session\<close>

text \<open>The constructor with a given initial sequence number, and the one that draws it.\<close>

definition Session :: "SessionRole \<Rightarrow> u32 \<Rightarrow> SessionState" where
  "Session role initial_seq =
     \<lparr>s_role = role, s_conn_id = 0, s_connection_state = Closed, s_established_since_ms = 0,
      s_last_rx_ms = 0, s_last_tx_ms = 0, s_stats = default_stats,
      s_tx = \<lparr>tx_next_seq = initial_seq, tx_remote_ack = initial_seq, tx_remote_ack_bits = 0,
        tx_pending_send = [], tx_inflight = [], tx_syn_ack_pending = False,
        tx_final_ack_pending = False, tx_final_ack_linger_until_ms = 0, tx_fin_pending = False,
        tx_ack_only_pending = False, tx_reliable_ack_pending = False, tx_reliable_ack_due_ms = 0,
        tx_activity_ack_pending = False, tx_probe = default_probe\<rparr>,
      s_rx = default_rx\<rparr>"

definition Session_random :: "SessionRole \<Rightarrow> u32 \<Rightarrow> u32 \<Rightarrow> SessionState" where
  "Session_random role rd1 rd2 = Session role (generate_initial_seq rd1 rd2)"

definition queue_send :: "u32 \<Rightarrow> ChannelType \<Rightarrow> bytes \<Rightarrow> SessionState \<Rightarrow> SessionState" where
  "queue_send channel_id channel_type payload state =
     state\<lparr>s_tx := queue_app_data channel_id channel_type payload (s_tx state)\<rparr>"

definition poll_tx :: "TransportSettings \<Rightarrow> u64 \<Rightarrow> SessionState \<Rightarrow> bytes option \<times> SessionState" where
  "poll_tx cfg now_ms state =
     (if should_timeout_idle_session cfg state now_ms then (None, mark_idle_timeout state)
      else
        let state = schedule_pending_tx_work cfg now_ms state;
            (result, cs, tx) = poll cfg now_ms (s_role state) (s_conn_id state)
               (s_connection_state state) (s_rx state) (s_tx state);
            state = state\<lparr>s_connection_state := cs, s_tx := tx\<rparr>
        in if pr_fatal_error result
           then (None, state\<lparr>s_connection_state := Reset,
                   s_rx := emit_local_error (pr_error_message result) (s_rx state)\<rparr>)
           else case pr_datagram result of
                  Some datagram \<Rightarrow>
                    (Some datagram,
                     apply_outbound_result datagram now_ms (pr_retransmission result) state)
                | None \<Rightarrow> (None, state))"

definition apply_connection_decision ::
  "PacketView \<Rightarrow> ConnectionDecision \<Rightarrow> SessionState \<Rightarrow> SessionState"
where
  "apply_connection_decision packet decision state =
     (let previous_state = s_connection_state state in
      if \<not> cd_valid decision
      then if cd_error_message decision \<noteq> []
           then state\<lparr>s_rx := emit_control_event ErrorEvent packet (cd_error_message decision) (s_rx state)\<rparr>
           else state
      else
        let state =
              (case cd_next_state decision of
                 None \<Rightarrow> state
               | Some next_state \<Rightarrow>
                   let state = state\<lparr>s_connection_state := next_state\<rparr>
                   in if previous_state \<noteq> Established \<and> s_connection_state state = Established
                      then state\<lparr>s_established_since_ms := s_last_rx_ms state\<rparr> else state);
            state = (if cd_schedule_syn_ack decision
                     then state\<lparr>s_tx := (s_tx state)\<lparr>tx_syn_ack_pending := True\<rparr>\<rparr> else state);
            state = (if cd_schedule_final_ack decision
                     then state\<lparr>s_tx := (s_tx state)\<lparr>tx_final_ack_pending := True\<rparr>\<rparr> else state);
            state = (if cd_schedule_ack_only decision
                     then state\<lparr>s_tx := (s_tx state)\<lparr>tx_ack_only_pending := True\<rparr>\<rparr> else state)
        in state\<lparr>s_rx := emit_connection_decision_events packet decision (s_rx state)\<rparr>)"

text \<open>The part of \<open>on_datagram_received\<close> after the early returns, on a decoded packet.\<close>

definition process_packet ::
  "TransportSettings \<Rightarrow> PacketView \<Rightarrow> ControlKind \<Rightarrow> u64 \<Rightarrow> SessionState \<Rightarrow> SessionState"
where
  "process_packet cfg decoded control_kind now_ms state =
     (let state = handle_probe_receive control_kind now_ms state;
          (ack_result, tx) = apply_remote_ack cfg (pv_header decoded) control_kind
             \<lparr>ar_acknowledged_fin = False\<rparr> (s_tx state);
          state = state\<lparr>s_tx := tx\<rparr>;
          state = (if should_close_after_fin_acknowledgement state ack_result
                   then close_after_fin_acknowledgement decoded state else state);
          decision = decide_connection_transition (s_role state) (s_connection_state state) control_kind;
          state = apply_connection_decision decoded decision state;
          (rx_result, rx) = on_packet decoded now_ms control_kind (s_rx state);
          state = state\<lparr>s_rx := rx\<rparr>;
          state = update_post_receive_liveness control_kind state
      in schedule_receive_side_ack cfg decoded control_kind rx_result now_ms state)"

definition on_datagram_received ::
  "TransportSettings \<Rightarrow> bytes \<Rightarrow> u64 \<Rightarrow> SessionState \<Rightarrow> SessionState"
where
  "on_datagram_received cfg bs now_ms state =
     (case decode bs of
        None \<Rightarrow> state
      | Some decoded \<Rightarrow>
          let control_kind = classify_control_kind (pv_header decoded);
              state = record_received_stats control_kind (length bs) now_ms state;
              state = (if should_adopt_server_conn_id state control_kind (pv_header decoded)
                       then adopt_server_conn_id (pv_header decoded) state else state)
          in if has_conn_id_mismatch state control_kind (pv_header decoded)
             then reset_for_conn_id_mismatch state
             else if is_duplicate_client_syn_ack state control_kind
             then schedule_final_ack_during_linger now_ms state
             else process_packet cfg decoded control_kind now_ms state)"

definition request_close :: "SessionState \<Rightarrow> SessionState" where
  "request_close state =
     (if s_connection_state state = Established
      then state\<lparr>s_connection_state := Closing, s_tx := (s_tx state)\<lparr>tx_fin_pending := True\<rparr>\<rparr>
      else state)"

definition assign_conn_id :: "u32 \<Rightarrow> SessionState \<Rightarrow> SessionState" where
  "assign_conn_id conn_id state = state\<lparr>s_conn_id := conn_id\<rparr>"

definition drain_events :: "SessionState \<Rightarrow> SessionEvent list \<times> SessionState" where
  "drain_events state =
     (let (events, rx) = rx_drain_events (s_rx state) in (events, state\<lparr>s_rx := rx\<rparr>))"

section \<open>The invariant of a session\<close>

definition same_core :: "TxSessionState \<Rightarrow> TxSessionState \<Rightarrow> bool" where
  "same_core tx tx' \<longleftrightarrow>
     tx_next_seq tx' = tx_next_seq tx \<and> tx_remote_ack tx' = tx_remote_ack tx \<and>
     tx_inflight tx' = tx_inflight tx \<and> tx_pending_send tx' = tx_pending_send tx"

lemma tx_inv_same_core: "same_core tx tx' \<Longrightarrow> tx_inv cfg tx' = tx_inv cfg tx"
  by (simp add: same_core_def tx_inv_def)

lemma same_core_helpers [frame_simps]:
  "same_core (s_tx s) (s_tx (schedule_final_ack_during_linger now s))"
  "same_core (s_tx s) (s_tx (schedule_pending_tx_work cfg now s))"
  "same_core (s_tx s) (s_tx (update_outbound_probe_state kind now s))"
  "same_core (s_tx s) (s_tx (record_outbound_stats pv n now b s))"
  "same_core (s_tx s) (s_tx (record_received_stats kind n now s))"
  "same_core (s_tx s) (s_tx (clear_outbound_ack_state kind s))"
  "same_core (s_tx s) (s_tx (handle_probe_receive kind now s))"
  "same_core (s_tx s) (s_tx (update_post_receive_liveness kind s))"
  "same_core (s_tx s) (s_tx (schedule_receive_side_ack cfg pv kind r now s))"
  "same_core (s_tx s) (s_tx (apply_connection_decision pv d s))"
  by (auto simp: same_core_def schedule_final_ack_during_linger_def schedule_pending_tx_work_def
      update_outbound_probe_state_def record_outbound_stats_def record_received_stats_def
      clear_outbound_ack_state_def handle_probe_receive_def update_post_receive_liveness_def
      schedule_receive_side_ack_def apply_connection_decision_def Let_def split: option.splits)

lemma same_core_trans: "same_core a b \<Longrightarrow> same_core b c \<Longrightarrow> same_core a c"
  by (simp add: same_core_def)

lemma same_core_outbound [frame_simps]: "same_core (s_tx s) (s_tx (apply_outbound_result bs now b s))"
proof (cases "decode bs")
  case (Some pv)
  then show ?thesis unfolding apply_outbound_result_def
    by (simp add: Let_def) (meson same_core_trans same_core_helpers)
qed (simp add: apply_outbound_result_def same_core_def)

lemma rx_helpers [frame_simps]:
  "s_rx (schedule_final_ack_during_linger now s) = s_rx s"
  "s_rx (schedule_pending_tx_work cfg now s) = s_rx s"
  "s_rx (update_outbound_probe_state kind now s) = s_rx s"
  "s_rx (record_outbound_stats pv n now b s) = s_rx s"
  "s_rx (record_received_stats kind n now s) = s_rx s"
  "s_rx (clear_outbound_ack_state kind s) = s_rx s"
  "s_rx (handle_probe_receive kind now s) = s_rx s"
  "s_rx (update_post_receive_liveness kind s) = s_rx s"
  "s_rx (schedule_receive_side_ack cfg pv kind r now s) = s_rx s"
  by (auto simp: schedule_final_ack_during_linger_def schedule_pending_tx_work_def
      update_outbound_probe_state_def record_outbound_stats_def record_received_stats_def
      clear_outbound_ack_state_def handle_probe_receive_def update_post_receive_liveness_def
      schedule_receive_side_ack_def Let_def split: option.splits)

lemma rx_outbound [frame_simps]: "s_rx (apply_outbound_result bs now b s) = s_rx s"
  by (simp add: apply_outbound_result_def Let_def frame_simps split: option.splits)

lemma delivery_inv_emit [simp]:
  "delivery_inv (emit_local_error msg rx) = delivery_inv rx"
  "type \<noteq> DataReceived \<Longrightarrow> delivery_inv (emit_control_event type pv msg rx) = delivery_inv rx"
  by (simp_all add: emit_local_error_def emit_control_event_def delivery_inv_push is_ordered_event_def)

lemma delivery_inv_decision_events [simp]:
  "delivery_inv (emit_connection_decision_events pv d rx) = delivery_inv rx"
  by (simp add: emit_connection_decision_events_def Let_def)

lemma rx_decision_delivery [simp]:
  "delivery_inv (s_rx (apply_connection_decision pv d s)) = delivery_inv (s_rx s)"
  by (auto simp: apply_connection_decision_def Let_def split: option.splits)

text \<open>
  The fields the two directions rely on; the transport settings are those in force throughout the
  life of the session.
\<close>

definition session_inv :: "TransportSettings \<Rightarrow> SessionState \<Rightarrow> bool" where
  "session_inv cfg s \<longleftrightarrow> tx_inv cfg (s_tx s) \<and> delivery_inv (s_rx s)"

lemma session_inv_frame:
  "same_core (s_tx s) (s_tx s') \<Longrightarrow> s_rx s' = s_rx s \<Longrightarrow> session_inv cfg s' = session_inv cfg s"
  by (simp add: session_inv_def tx_inv_same_core)

lemmas session_inv_helpers [simp] =
  session_inv_frame [OF same_core_helpers(1) rx_helpers(1)]
  session_inv_frame [OF same_core_helpers(5) rx_helpers(5)]
  session_inv_frame [OF same_core_helpers(7) rx_helpers(7)]
  session_inv_frame [OF same_core_helpers(8) rx_helpers(8)]
  session_inv_frame [OF same_core_helpers(9) rx_helpers(9)]

lemma session_inv_init: "session_inv cfg (Session role isn)"
  by (simp add: session_inv_def Session_def tx_inv_def inflight_inv_def delivery_inv_def
      default_rx_def ordered_seqs_def buffer_ok_def exI [of _ 0])

lemma apply_remote_ack_inv:
  "tx_inv cfg tx \<Longrightarrow> tx_inv cfg (snd (apply_remote_ack cfg h kind r tx))"
  by (auto simp: apply_remote_ack_def on_remote_ack_eq tx_inv_def
      intro: acknowledged_inflight_inv)

lemma process_packet_inv:
  assumes "session_inv cfg s"
  shows "session_inv cfg (process_packet cfg pv kind now s)"
proof -
  define s1 where "s1 = handle_probe_receive kind now s"
  obtain ack_result tx where
    ack: "apply_remote_ack cfg (pv_header pv) kind \<lparr>ar_acknowledged_fin = False\<rparr> (s_tx s1) =
      (ack_result, tx)" by fastforce
  define s2 where "s2 = s1\<lparr>s_tx := tx\<rparr>"
  define s3 where "s3 = (if should_close_after_fin_acknowledgement s2 ack_result
    then close_after_fin_acknowledgement pv s2 else s2)"
  define s4 where "s4 = apply_connection_decision pv
    (decide_connection_transition (s_role s3) (s_connection_state s3) kind) s3"
  obtain rx_result rx where rx: "on_packet pv now kind (s_rx s4) = (rx_result, rx)" by fastforce
  define s5 where "s5 = s4\<lparr>s_rx := rx\<rparr>"
  have result: "process_packet cfg pv kind now s =
      schedule_receive_side_ack cfg pv kind rx_result now (update_post_receive_liveness kind s5)"
    unfolding process_packet_def s1_def [symmetric] Let_def ack prod.case s2_def [symmetric]
      s3_def [symmetric] s4_def [symmetric] rx s5_def [symmetric] by (rule refl)
  have "session_inv cfg s1" using assms by (simp add: s1_def)
  then have "session_inv cfg s2"
    using apply_remote_ack_inv [of cfg "s_tx s1" "pv_header pv" kind "\<lparr>ar_acknowledged_fin = False\<rparr>"] ack
    by (simp add: session_inv_def s2_def)
  then have "session_inv cfg s3"
    by (simp add: s3_def session_inv_def close_after_fin_acknowledgement_def)
  then have "session_inv cfg s4"
    using tx_inv_same_core [OF same_core_helpers(10)] by (simp add: s4_def session_inv_def)
  then have "session_inv cfg s5"
    using on_packet_delivery_inv [of "s_rx s4" pv now kind] rx by (simp add: session_inv_def s5_def)
  then show ?thesis unfolding result by simp
qed

lemma adopt_inv [simp]:
  "session_inv cfg (adopt_server_conn_id h s) = session_inv cfg s"
  by (simp add: adopt_server_conn_id_def session_inv_def)

lemma on_datagram_received_inv:
  assumes "session_inv cfg s"
  shows "session_inv cfg (on_datagram_received cfg bs now s)"
proof (cases "decode bs")
  case None
  then show ?thesis using assms by (simp add: on_datagram_received_def)
next
  case (Some pv)
  define kind where "kind = classify_control_kind (pv_header pv)"
  define s1 where "s1 = record_received_stats kind (length bs) now s"
  define s2 where "s2 = (if should_adopt_server_conn_id s1 kind (pv_header pv)
    then adopt_server_conn_id (pv_header pv) s1 else s1)"
  have "session_inv cfg s1" using assms by (simp add: s1_def)
  then have inv: "session_inv cfg s2" by (simp add: s2_def)
  have "on_datagram_received cfg bs now s =
      (if has_conn_id_mismatch s2 kind (pv_header pv) then reset_for_conn_id_mismatch s2
       else if is_duplicate_client_syn_ack s2 kind then schedule_final_ack_during_linger now s2
       else process_packet cfg pv kind now s2)"
    unfolding on_datagram_received_def Some option.case Let_def kind_def [symmetric]
      s1_def [symmetric] s2_def [symmetric] by (rule refl)
  moreover have "session_inv cfg (reset_for_conn_id_mismatch s2)"
    using inv by (simp add: reset_for_conn_id_mismatch_def session_inv_def)
  moreover have "session_inv cfg (schedule_final_ack_during_linger now s2)"
    using inv by simp
  ultimately show ?thesis using process_packet_inv [OF inv] by simp
qed

text \<open>Everything a poll can do, and that it keeps the invariant and emits sound datagrams.\<close>

lemma poll_tx_cases:
  obtains (timeout) "should_timeout_idle_session cfg s now"
      and "poll_tx cfg now s = (None, mark_idle_timeout s)"
  | (fatal) s1 result cs tx where "\<not> should_timeout_idle_session cfg s now"
      and "s1 = schedule_pending_tx_work cfg now s"
      and "poll cfg now (s_role s1) (s_conn_id s1) (s_connection_state s1) (s_rx s1) (s_tx s1) =
        (result, cs, tx)"
      and "pr_fatal_error result"
      and "poll_tx cfg now s = (None, s1\<lparr>s_connection_state := Reset, s_tx := tx,
        s_rx := emit_local_error (pr_error_message result) (s_rx s1)\<rparr>)"
  | (sent) s1 result cs tx bs where "\<not> should_timeout_idle_session cfg s now"
      and "s1 = schedule_pending_tx_work cfg now s"
      and "poll cfg now (s_role s1) (s_conn_id s1) (s_connection_state s1) (s_rx s1) (s_tx s1) =
        (result, cs, tx)"
      and "\<not> pr_fatal_error result" and "pr_datagram result = Some bs"
      and "poll_tx cfg now s = (Some bs, apply_outbound_result bs now (pr_retransmission result)
        (s1\<lparr>s_connection_state := cs, s_tx := tx\<rparr>))"
  | (quiet) s1 result cs tx where "\<not> should_timeout_idle_session cfg s now"
      and "s1 = schedule_pending_tx_work cfg now s"
      and "poll cfg now (s_role s1) (s_conn_id s1) (s_connection_state s1) (s_rx s1) (s_tx s1) =
        (result, cs, tx)"
      and "\<not> pr_fatal_error result" and "pr_datagram result = None"
      and "poll_tx cfg now s = (None, s1\<lparr>s_connection_state := cs, s_tx := tx\<rparr>)"
proof (cases "should_timeout_idle_session cfg s now")
  case True
  then show ?thesis using timeout by (simp add: poll_tx_def)
next
  case False
  obtain s1 where s1: "s1 = schedule_pending_tx_work cfg now s" by blast
  obtain result cs tx where
    p: "poll cfg now (s_role s1) (s_conn_id s1) (s_connection_state s1) (s_rx s1) (s_tx s1) =
      (result, cs, tx)" by (metis prod_cases3)
  have eq: "poll_tx cfg now s =
      (if pr_fatal_error result
       then (None, s1\<lparr>s_connection_state := Reset, s_tx := tx,
              s_rx := emit_local_error (pr_error_message result) (s_rx s1)\<rparr>)
       else case pr_datagram result of
              Some datagram \<Rightarrow> (Some datagram, apply_outbound_result datagram now
                (pr_retransmission result) (s1\<lparr>s_connection_state := cs, s_tx := tx\<rparr>))
            | None \<Rightarrow> (None, s1\<lparr>s_connection_state := cs, s_tx := tx\<rparr>))"
    using False p unfolding poll_tx_def s1 [symmetric] Let_def by simp
  show ?thesis
  proof (cases "pr_fatal_error result")
    case True
    show ?thesis by (rule fatal [OF False s1 p True]) (simp add: eq True)
  next
    case ok: False
    show ?thesis
    proof (cases "pr_datagram result")
      case None
      show ?thesis by (rule quiet [OF False s1 p ok None]) (simp add: eq ok None)
    next
      case (Some bs)
      show ?thesis by (rule sent [OF False s1 p ok Some]) (simp add: eq ok Some)
    qed
  qed
qed

lemma poll_tx_sound:
  assumes "session_inv cfg s" and "poll_tx cfg now s = (out, s')"
  shows "session_inv cfg s'" and "out = Some bs \<Longrightarrow> carries_ack (s_rx s) bs"
proof -
  have s1: "tx_inv cfg (s_tx (schedule_pending_tx_work cfg now s))"
    using assms(1) by (simp add: session_inv_def tx_inv_same_core [OF same_core_helpers(2)])
  have "session_inv cfg s' \<and> (\<forall>bs. out = Some bs \<longrightarrow> carries_ack (s_rx s) bs)"
  proof (cases rule: poll_tx_cases [of cfg s now])
    case timeout
    then show ?thesis using assms by (auto simp: mark_idle_timeout_def session_inv_def)
  next
    case (fatal s1 result cs tx)
    then have "tx_inv cfg tx" using poll_sound [OF s1 fatal(3) [unfolded fatal(2)]] by (simp add: sound_step_def)
    then show ?thesis using assms fatal by (auto simp: session_inv_def frame_simps)
  next
    case (sent s1 result cs tx bs)
    then have "sound_step cfg (s_rx s) (Some bs) tx"
      using poll_sound [OF s1 sent(3) [unfolded sent(2)]] by (simp add: frame_simps)
    then show ?thesis using assms sent
      by (auto simp: session_inv_def sound_step_def frame_simps tx_inv_same_core [OF same_core_outbound])
  next
    case (quiet s1 result cs tx)
    then have "tx_inv cfg tx" using poll_sound [OF s1 quiet(3) [unfolded quiet(2)]] by (simp add: sound_step_def)
    then show ?thesis using assms quiet by (auto simp: session_inv_def frame_simps)
  qed
  then show "session_inv cfg s'" and "out = Some bs \<Longrightarrow> carries_ack (s_rx s) bs" by auto
qed

section \<open>A session in use\<close>

definition session_init :: "SessionState \<Rightarrow> bool" where
  "session_init s \<longleftrightarrow> (\<exists>role isn. s = Session role isn)"

text \<open>
  Everything the owner of a session does with it: send on one of the four named channel types, poll,
  feed it any datagram at any time, close it, give it a connection id, take its events.
\<close>

inductive session_step :: "TransportSettings \<Rightarrow> SessionState \<Rightarrow> SessionState \<Rightarrow> bool"
  for cfg :: TransportSettings
where
  step_queue: "named_channel t \<Longrightarrow> session_step cfg s (queue_send c t payload s)"
| step_poll: "poll_tx cfg now s = (out, s') \<Longrightarrow> session_step cfg s s'"
| step_datagram: "session_step cfg s (on_datagram_received cfg bs now s)"
| step_close: "session_step cfg s (request_close s)"
| step_conn_id: "session_step cfg s (assign_conn_id c s)"
| step_drain: "drain_events s = (events, s') \<Longrightarrow> session_step cfg s s'"

inductive_cases session_stepE: "session_step cfg s s'"

lemma simple_ops_inv:
  assumes "session_inv cfg s"
  shows "named_channel t \<Longrightarrow> session_inv cfg (queue_send c t payload s)"
    and "session_inv cfg (request_close s)" and "session_inv cfg (assign_conn_id c s)"
    and "drain_events s = (events, s') \<Longrightarrow> session_inv cfg s'"
proof -
  show "named_channel t \<Longrightarrow> session_inv cfg (queue_send c t payload s)"
    using assms by (simp add: session_inv_def queue_send_def queue_app_data_def tx_inv_def)
  show "session_inv cfg (request_close s)" and "session_inv cfg (assign_conn_id c s)"
    using assms by (simp_all add: session_inv_def request_close_def assign_conn_id_def tx_inv_def)
  show "drain_events s = (events, s') \<Longrightarrow> session_inv cfg s'"
    using assms rx_drain_delivery_inv [of "s_rx s"]
    by (auto simp: session_inv_def drain_events_def split: prod.splits)
qed

interpretation session_sys: inductive_invariant session_init "session_step cfg" "session_inv cfg"
  for cfg
proof unfold_locales
  show "session_inv cfg s" if "session_init s" for s
    using that by (auto simp: session_init_def session_inv_init)
  show "session_inv cfg s'" if "session_inv cfg s" "session_step cfg s s'" for s s'
    using that(2,1)
    by (cases rule: session_stepE)
      (auto intro: simple_ops_inv poll_tx_sound(1) on_datagram_received_inv)
qed

section \<open>Lifecycle\<close>

lemma identity_helpers [frame_simps]:
  "s_role (handle_probe_receive kind now s) = s_role s"
  "s_conn_id (handle_probe_receive kind now s) = s_conn_id s"
  "s_connection_state (handle_probe_receive kind now s) = s_connection_state s"
  "s_role (update_post_receive_liveness kind s) = s_role s"
  "s_conn_id (update_post_receive_liveness kind s) = s_conn_id s"
  "s_connection_state (update_post_receive_liveness kind s) = s_connection_state s"
  "s_role (schedule_receive_side_ack cfg pv kind r now s) = s_role s"
  "s_conn_id (schedule_receive_side_ack cfg pv kind r now s) = s_conn_id s"
  "s_connection_state (schedule_receive_side_ack cfg pv kind r now s) = s_connection_state s"
  "s_role (record_received_stats kind n now s) = s_role s"
  "s_conn_id (record_received_stats kind n now s) = s_conn_id s"
  "s_connection_state (record_received_stats kind n now s) = s_connection_state s"
  "s_role (schedule_pending_tx_work cfg now s) = s_role s"
  "s_conn_id (schedule_pending_tx_work cfg now s) = s_conn_id s"
  "s_connection_state (schedule_pending_tx_work cfg now s) = s_connection_state s"
  "s_role (apply_outbound_result bs now b s) = s_role s"
  "s_conn_id (apply_outbound_result bs now b s) = s_conn_id s"
  "s_connection_state (apply_outbound_result bs now b s) = s_connection_state s"
  "s_role (schedule_final_ack_during_linger now s) = s_role s"
  "s_conn_id (schedule_final_ack_during_linger now s) = s_conn_id s"
  "s_connection_state (schedule_final_ack_during_linger now s) = s_connection_state s"
  by (auto simp: handle_probe_receive_def update_post_receive_liveness_def
      schedule_receive_side_ack_def record_received_stats_def schedule_pending_tx_work_def
      apply_outbound_result_def update_outbound_probe_state_def record_outbound_stats_def
      clear_outbound_ack_state_def schedule_final_ack_during_linger_def Let_def
      split: option.splits)

lemma apply_connection_decision_identity:
  assumes "\<not> cd_valid d \<Longrightarrow> cd_next_state d = None"
  shows "s_role (apply_connection_decision pv d s) = s_role s"
    and "s_conn_id (apply_connection_decision pv d s) = s_conn_id s"
    and "s_connection_state (apply_connection_decision pv d s) =
      (case cd_next_state d of None \<Rightarrow> s_connection_state s | Some st \<Rightarrow> st)"
  using assms
  by (auto simp: apply_connection_decision_def Let_def split: option.splits)

lemmas decision_identity = apply_connection_decision_identity [OF invalid_decision_inert]

text \<open>Whether the packet acknowledges a FIN of this session, and the state it leads to.\<close>

definition fin_acked :: "Header \<Rightarrow> ControlKind \<Rightarrow> SessionState \<Rightarrow> bool" where
  "fin_acked h kind s \<longleftrightarrow> kind \<noteq> KindSyn \<and>
     (\<exists>p \<in> set (tx_inflight (s_tx s)). is_acknowledged_by_remote (fst p) (h_ack h) (h_ack_bits h) \<and>
        hasFlag (op_header (te_packet (snd p))) FlagFin)"

definition state_after :: "SessionRole \<Rightarrow> ConnectionState \<Rightarrow> ControlKind \<Rightarrow> ConnectionState" where
  "state_after role st kind =
     (case cd_next_state (decide_connection_transition role st kind) of None \<Rightarrow> st | Some st' \<Rightarrow> st')"

lemma fin_acked_apply:
  "ar_acknowledged_fin (fst (apply_remote_ack cfg h kind \<lparr>ar_acknowledged_fin = False\<rparr>
     (s_tx (handle_probe_receive kind now s)))) = fin_acked h kind s"
proof -
  have "tx_inflight (s_tx (handle_probe_receive kind now s)) = tx_inflight (s_tx s)"
    using same_core_helpers(7) [of s kind now] by (simp add: same_core_def)
  then show ?thesis
    by (simp add: apply_remote_ack_def should_apply_remote_ack_def fin_acked_def on_remote_ack_eq)
qed

lemma process_packet_identity:
  shows "s_role (process_packet cfg pv kind now s) = s_role s"
    and "s_conn_id (process_packet cfg pv kind now s) = s_conn_id s"
    and "s_connection_state (process_packet cfg pv kind now s) =
      state_after (s_role s)
        (if fin_acked (pv_header pv) kind s \<and> s_connection_state s = Closing then Closed
         else s_connection_state s) kind"
  using fin_acked_apply [of cfg "pv_header pv" kind now s]
  by (auto simp: process_packet_def Let_def frame_simps decision_identity state_after_def
      should_close_after_fin_acknowledgement_def close_after_fin_acknowledgement_def
      split: prod.splits option.splits)

lemma on_datagram_received_cases:
  obtains (ignored) "decode bs = None" and "on_datagram_received cfg bs now s = s"
  | (packet) pv kind s1 s2 where "decode bs = Some pv"
      and "kind = classify_control_kind (pv_header pv)"
      and "s1 = record_received_stats kind (length bs) now s"
      and "s2 = (if should_adopt_server_conn_id s1 kind (pv_header pv)
                 then adopt_server_conn_id (pv_header pv) s1 else s1)"
      and "on_datagram_received cfg bs now s =
        (if has_conn_id_mismatch s2 kind (pv_header pv) then reset_for_conn_id_mismatch s2
         else if is_duplicate_client_syn_ack s2 kind then schedule_final_ack_during_linger now s2
         else process_packet cfg pv kind now s2)"
  by (cases "decode bs") (auto simp: on_datagram_received_def Let_def)

lemma identity_adopt [frame_simps]:
  "s_role (adopt_server_conn_id h s) = s_role s"
  "s_conn_id (adopt_server_conn_id h s) = h_conn_id h"
  "s_connection_state (adopt_server_conn_id h s) = s_connection_state s"
  "s_tx (adopt_server_conn_id h s) = s_tx s"
  "s_rx (adopt_server_conn_id h s) = s_rx s"
  by (simp_all add: adopt_server_conn_id_def)

lemma state_after_Established:
  assumes "state_after role st kind = Established" and "st \<noteq> Established"
  shows "role = Client \<and> st = HandshakeSent \<and> kind = KindSynAck \<or>
    role = Server \<and> st = HandshakeReceived \<and> kind = KindAck"
  using assms decide_next_state_cases [of role st kind]
  by (auto simp: state_after_def split: option.splits)

lemma build_control_frame:
  assumes "build_control_packet now conn_id flags rx tx = (out, tx')"
  shows "tx_pending_send tx' = tx_pending_send tx"
  using assms by (auto simp: build_control_packet_def Let_def split: if_splits)

lemma handshake_state:
  assumes "try_build_handshake cfg now role conn_id cs rx tx = (out, cs', tx')"
  shows "cs' = (if role = Client \<and> cs = Closed then HandshakeSent else cs)"
  using assms by (auto simp: try_build_handshake_def Let_def split: if_splits prod.splits option.splits)

lemma poll_state:
  assumes "poll cfg now role conn_id cs rx tx = (result, cs', tx')"
  shows "cs' = (if role = Client \<and> cs = Closed then HandshakeSent else cs)"
  using assms by (cases rule: poll_cases) (auto dest: handshake_state)

text \<open>What a poll does to the role, the connection id and the state.\<close>

lemma poll_tx_identity:
  assumes "poll_tx cfg now s = (out, s')"
  shows "s_role s' = s_role s" and "s_conn_id s' = s_conn_id s"
    and "s_connection_state s' = Reset \<or>
      s_connection_state s' =
        (if s_role s = Client \<and> s_connection_state s = Closed then HandshakeSent
         else s_connection_state s)"
proof -
  have "s_role s' = s_role s \<and> s_conn_id s' = s_conn_id s \<and> (s_connection_state s' = Reset \<or>
      s_connection_state s' = (if s_role s = Client \<and> s_connection_state s = Closed
        then HandshakeSent else s_connection_state s))"
  proof (cases rule: poll_tx_cases [of cfg s now])
    case timeout
    then show ?thesis using assms by (auto simp: mark_idle_timeout_def)
  next
    case (fatal s1 result cs tx)
    then show ?thesis using assms by (auto simp: frame_simps)
  next
    case (sent s1 result cs tx bs)
    then show ?thesis using assms poll_state [OF sent(3)] by (auto simp: frame_simps)
  next
    case (quiet s1 result cs tx)
    then show ?thesis using assms poll_state [OF quiet(3)] by (auto simp: frame_simps)
  qed
  then show "s_role s' = s_role s" and "s_conn_id s' = s_conn_id s"
    and "s_connection_state s' = Reset \<or> s_connection_state s' =
      (if s_role s = Client \<and> s_connection_state s = Closed then HandshakeSent
       else s_connection_state s)" by auto
qed

section \<open>Properties\<close>

text \<open>
  C4. However a session is used and whatever datagrams reach it (lost, reordered, forged, with any
  acknowledgement values), its in-flight map holds at most 64 packets; each is filed under its own
  sequence number, lies among the 64 numbers before the next one to use (also across the wrap-around),
  and has been retransmitted at most the configured number of times; and the next number to use is not
  in flight, so a new packet never overwrites or loses its entry.
\<close>

theorem inflight_window_bounded:
  assumes "reachable session_init (session_step cfg) s"
  shows "length (tx_inflight (s_tx s)) \<le> kReliableWindowSize \<and>
    map_find (tx_inflight (s_tx s)) (tx_next_seq (s_tx s)) = None \<and>
    (\<forall>(k, e) \<in> set (tx_inflight (s_tx s)).
       h_seq (op_header (te_packet e)) = k \<and>
       1 \<le> unat (tx_next_seq (s_tx s) - k) \<and> unat (tx_next_seq (s_tx s) - k) \<le> kReliableWindowSize \<and>
       te_retry_count e \<le> max_retransmit_count cfg)"
proof -
  from session_sys.reachable_inv [OF assms]
  have inv: "inflight_inv cfg (tx_next_seq (s_tx s)) (tx_remote_ack (s_tx s)) (tx_inflight (s_tx s))"
    by (simp add: session_inv_def tx_inv_def)
  show ?thesis
    using inflight_inv_length [OF inv] inflight_inv_next_fresh [OF inv] inflight_invD [OF inv]
    by (auto simp: kReliableWindowSize_def)
qed

theorem inflight_window_bounded_witness:
  "length (tx_inflight (s_tx (snd (poll_tx default_transport 1 (Session Client 5))))) \<le> kReliableWindowSize"
proof -
  have "reachable session_init (session_step default_transport) (Session Client 5)"
    by (rule reach_init) (auto simp: session_init_def)
  moreover have "session_step default_transport (Session Client 5)
      (snd (poll_tx default_transport 1 (Session Client 5)))"
    by (rule step_poll [where now = 1 and out = "fst (poll_tx default_transport 1 (Session Client 5))"])
      simp
  ultimately have "reachable session_init (session_step default_transport)
      (snd (poll_tx default_transport 1 (Session Client 5)))" by (rule reach_step)
  from inflight_window_bounded [OF this] show ?thesis by blast
qed

text \<open>
  C11. Every datagram a session hands out decodes (the peer will not discard it as malformed) and
  carries the acknowledgement that describes the receive window at that moment, retransmissions
  included.
\<close>

theorem datagrams_carry_current_ack:
  assumes "reachable session_init (session_step cfg) s" and "poll_tx cfg now s = (Some bs, s')"
  shows "\<exists>pv. decode bs = Some pv \<and> h_ack (pv_header pv) = rx_next_expected (s_rx s) \<and>
    h_ack_bits (pv_header pv) = rx_received_bits (s_rx s)"
  using poll_tx_sound(2) [OF session_sys.reachable_inv [OF assms(1)] assms(2) refl]
  by (simp add: carries_ack_def)

theorem datagrams_carry_current_ack_witness:
  "\<exists>bs s' pv. poll_tx default_transport 1 (Session Client 5) = (Some bs, s') \<and> decode bs = Some pv \<and>
     h_ack (pv_header pv) = 0"
proof -
  obtain bs s' where p: "poll_tx default_transport 1 (Session Client 5) = (Some bs, s')"
    by (simp add: poll_tx_def poll_def should_timeout_idle_session_def schedule_pending_tx_work_def
        should_schedule_reliable_ack_def should_schedule_activity_ack_def should_schedule_probe_def
        Session_def default_transport_def try_build_handshake_def build_control_packet_def
        consumes_reliable_seq_def reliable_window_full_def kReliableWindowSize_def
        make_poll_result_def Let_def)
  have "reachable session_init (session_step default_transport) (Session Client 5)"
    by (rule reach_init) (auto simp: session_init_def)
  from datagrams_carry_current_ack [OF this p] p show ?thesis
    by (auto simp: Session_def default_rx_def)
qed

text \<open>
  A datagram that claims another connection (its id differs from the session's non-zero id, it is
  not a SYN, and it is not the id-less first packet to a closed server session) resets the session
  and reports the error, and nothing else of it is used: acknowledgement fields, payload and receive
  window are as before.
\<close>

lemma foreign_datagram_resets:
  assumes "decode bs = Some pv" and "s_conn_id s \<noteq> 0" and "h_conn_id (pv_header pv) \<noteq> s_conn_id s"
    and "classify_control_kind (pv_header pv) \<noteq> KindSyn"
    and "s_connection_state s \<noteq> Closed"
  shows "s_connection_state (on_datagram_received cfg bs now s) = Reset \<and>
    s_conn_id (on_datagram_received cfg bs now s) = s_conn_id s \<and>
    s_tx (on_datagram_received cfg bs now s) = s_tx s \<and>
    s_rx (on_datagram_received cfg bs now s) = emit_local_error ''conn_id mismatch'' (s_rx s)"
  using assms
  by (simp add: on_datagram_received_def Let_def should_adopt_server_conn_id_def frame_simps
      has_conn_id_mismatch_def allows_server_zero_conn_id_bootstrap_def
      reset_for_conn_id_mismatch_def)
    (simp add: record_received_stats_def Let_def)

text \<open>
  A session in the state Reset is not final for the code: a FIN of the same connection moves it on
  to Closing and schedules an acknowledgement.
\<close>

lemma fin_revives_reset:
  assumes "decode bs = Some pv" and "classify_control_kind (pv_header pv) = KindFin"
    and "h_conn_id (pv_header pv) = s_conn_id s" and "s_connection_state s = Reset"
  shows "s_connection_state (on_datagram_received cfg bs now s) = Closing"
  using assms
  by (simp add: on_datagram_received_def Let_def should_adopt_server_conn_id_def frame_simps
      has_conn_id_mismatch_def is_duplicate_client_syn_ack_def process_packet_identity
      state_after_def default_decision_def)

end
