(* ===== verification/Session_Handshake.thy ===== *)
theory Session_Handshake
  imports Session_Core
begin

text \<open>
  Two sessions connected back to back: what each step of the three-way handshake of
  \<open>src/Session.cpp\<close>, \<open>src/TxHandler.cpp\<close> and \<open>src/ConnectionStateMachine.cpp\<close> sends and does to the
  state, and that the whole exchange establishes the connection.
\<close>

section \<open>Control packets\<close>

definition control_header :: "u32 \<Rightarrow> u32 \<Rightarrow> Flags \<Rightarrow> RxSessionState \<Rightarrow> Header" where
  "control_header conn_id seq flags rx =
     default_header\<lparr>h_conn_id := conn_id, h_seq := seq, h_ack := rx_next_expected rx,
       h_ack_bits := rx_received_bits rx, h_flags := flags\<rparr>"

lemma control_header_fields [simp]:
  "h_conn_id (control_header c q f rx) = c" "h_seq (control_header c q f rx) = q"
  "h_ack (control_header c q f rx) = rx_next_expected rx"
  "h_ack_bits (control_header c q f rx) = rx_received_bits rx"
  "h_flags (control_header c q f rx) = f" "h_channel_type (control_header c q f rx) = Unreliable"
  by (simp_all add: control_header_def default_header_def)

lemma control_header_valid [simp]: "isValidHeader (control_header c q f rx) \<longleftrightarrow> f AND 0xc0 = 0"
  by (simp add: control_header_def default_header_def isValidHeader_def)

lemma control_header_kind:
  "classify_control_kind (control_header c q (flag_value FlagSyn) rx) = KindSyn"
  "classify_control_kind (control_header c q (flags_or FlagSyn FlagAck) rx) = KindSynAck"
  "classify_control_kind (control_header c q (flag_value FlagAck) rx) = KindAck"
  "classify_control_kind (control_header c q (flag_value FlagFin) rx) = KindFin"
  by (simp_all add: classify_control_kind_def hasFlag_def flags_or_def Let_def)

lemma build_control_consuming:
  assumes "consumes_reliable_seq flags" and "\<not> reliable_window_full tx"
  shows "build_control_packet now conn_id flags rx tx =
    (let h = control_header conn_id (tx_next_seq tx) flags rx
     in (Some (encode h []), tx\<lparr>tx_next_seq := tx_next_seq tx + 1,
          tx_inflight := map_emplace (tx_next_seq tx)
            (first_send_entry \<lparr>op_header = h, op_payload = []\<rparr> now) (tx_inflight tx)\<rparr>))"
proof -
  have h: "default_header\<lparr>h_conn_id := conn_id, h_channel_type := Unreliable, h_flags := flags,
      h_ack := rx_next_expected rx, h_ack_bits := rx_received_bits rx, h_seq := tx_next_seq tx\<rparr> =
    control_header conn_id (tx_next_seq tx) flags rx"
    by (simp add: control_header_def default_header_def)
  show ?thesis using assms by (simp add: build_control_packet_def Let_def h)
qed

lemma build_control_plain:
  assumes "\<not> consumes_reliable_seq flags"
  shows "build_control_packet now conn_id flags rx tx =
    (Some (encode (control_header conn_id 0 flags rx) []), tx)"
proof -
  have h: "default_header\<lparr>h_conn_id := conn_id, h_channel_type := Unreliable, h_flags := flags,
      h_ack := rx_next_expected rx, h_ack_bits := rx_received_bits rx\<rparr> =
    control_header conn_id 0 flags rx"
    by (simp add: control_header_def default_header_def)
  show ?thesis using assms by (simp add: build_control_packet_def Let_def h)
qed

lemma consumes_flags:
  "consumes_reliable_seq (flag_value FlagSyn)" "consumes_reliable_seq (flags_or FlagSyn FlagAck)"
  "consumes_reliable_seq (flag_value FlagFin)" "\<not> consumes_reliable_seq (flag_value FlagAck)"
  by (simp_all add: consumes_reliable_seq_def flags_or_def)

section \<open>Sending\<close>

text \<open>A poll that finds a handshake packet to send.\<close>

lemma poll_tx_handshake:
  assumes "\<not> should_timeout_idle_session cfg s now"
    and "try_build_handshake cfg now (s_role s) (s_conn_id s) (s_connection_state s) (s_rx s)
      (s_tx (schedule_pending_tx_work cfg now s)) = (Some (encode h p), cs, tx)"
    and "isValidHeader h" and "classify_control_kind h \<noteq> KindPing"
    and "poll_tx cfg now s = (out, s')"
  shows "out = Some (encode h p)" and "s_connection_state s' = cs" and "s_rx s' = s_rx s"
    and "s_role s' = s_role s" and "s_conn_id s' = s_conn_id s"
    and "s_tx s' = tx\<lparr>tx_activity_ack_pending := False, tx_reliable_ack_pending :=
      tx_reliable_ack_pending tx \<and> classify_control_kind h \<noteq> KindAck\<rparr>"
  using assms by (auto simp: poll_tx_def poll_def make_poll_result_def frame_simps
      apply_outbound_result_def decode_encode_valid update_outbound_probe_state_def
      record_outbound_stats_def clear_outbound_ack_state_def Let_def)

lemma client_sends_syn:
  assumes "poll_tx cfg now (Session Client isn) = (out, s')"
  defines "h \<equiv> control_header 0 isn (flag_value FlagSyn) default_rx"
  shows "out = Some (encode h [])" and "s_connection_state s' = HandshakeSent"
    and "s_rx s' = default_rx" and "s_role s' = Client" and "s_conn_id s' = 0"
    and "s_tx s' = (s_tx (Session Client isn))\<lparr>tx_next_seq := isn + 1, tx_inflight :=
           [(isn, first_send_entry \<lparr>op_header = h, op_payload = []\<rparr> now)]\<rparr>"
proof -
  let ?s = "Session Client isn"
  have t: "\<not> should_timeout_idle_session cfg ?s now" by (simp add: should_timeout_idle_session_def Session_def)
  have w: "s_tx (schedule_pending_tx_work cfg now ?s) = s_tx ?s"
    by (simp add: schedule_pending_tx_work_def should_schedule_reliable_ack_def
       should_schedule_activity_ack_def should_schedule_probe_def Session_def)
  have f: "s_role ?s = Client" "s_conn_id ?s = 0" "s_connection_state ?s = Closed" "s_rx ?s = default_rx"
    "tx_next_seq (s_tx ?s) = isn" "tx_inflight (s_tx ?s) = []"
     "\<not> reliable_window_full (s_tx ?s)" "\<not> tx_activity_ack_pending (s_tx ?s)" "\<not> tx_reliable_ack_pending (s_tx ?s)"
    by (simp_all add: Session_def reliable_window_full_def kReliableWindowSize_def)
  have b: "try_build_handshake cfg now (s_role ?s) (s_conn_id ?s) (s_connection_state ?s) (s_rx ?s)
      (s_tx (schedule_pending_tx_work cfg now ?s)) = (Some (encode h []), HandshakeSent,
     (s_tx ?s)\<lparr>tx_next_seq := isn + 1, tx_inflight :=
           [(isn, first_send_entry \<lparr>op_header = h, op_payload = []\<rparr> now)]\<rparr>)"
    by (simp add: try_build_handshake_def w f build_control_consuming consumes_flags h_def Let_def map_emplace_def
      map_find_def del: flag_value.simps)
  have v: "isValidHeader h" "classify_control_kind h \<noteq> KindPing"
    by (simp_all add: h_def control_header_kind del: flag_value.simps) simp
  note r = poll_tx_handshake [OF t b v assms(1)]
  show "out = Some (encode h [])" "s_connection_state s' = HandshakeSent" "s_rx s' = default_rx"
    "s_role s' = Client" "s_conn_id s' = 0" using r f by simp_all
  show "s_tx s' = (s_tx (Session Client isn))\<lparr>tx_next_seq := isn + 1, tx_inflight :=
           [(isn, first_send_entry \<lparr>op_header = h, op_payload = []\<rparr> now)]\<rparr>"
    using r(6) f by (simp add: Session_def)
qed

section \<open>Receiving\<close>

lemma received_identity:
  "has_conn_id_mismatch (record_received_stats k n now s) kind h = has_conn_id_mismatch s kind h"
  "should_adopt_server_conn_id (record_received_stats k n now s) kind h = should_adopt_server_conn_id s kind h"
  "is_duplicate_client_syn_ack (record_received_stats k n now s) kind = is_duplicate_client_syn_ack s kind"
  "s_tx (record_received_stats k n now s) = s_tx s"
  by (simp_all add: has_conn_id_mismatch_def should_adopt_server_conn_id_def frame_simps
     is_duplicate_client_syn_ack_def allows_server_zero_conn_id_bootstrap_def)
   (simp add: record_received_stats_def Let_def)

lemma apply_valid_decision:
  assumes "cd_valid d"
  shows "s_rx (apply_connection_decision pv d s) = emit_connection_decision_events pv d (s_rx s)"
    and "s_tx (apply_connection_decision pv d s) = (s_tx s)
      \<lparr>tx_syn_ack_pending := tx_syn_ack_pending (s_tx s) \<or> cd_schedule_syn_ack d,
       tx_final_ack_pending := tx_final_ack_pending (s_tx s) \<or> cd_schedule_final_ack d,
       tx_ack_only_pending := tx_ack_only_pending (s_tx s) \<or> cd_schedule_ack_only d\<rparr>"
  using assms by (simp_all add: apply_connection_decision_def Let_def split: option.splits)

lemma update_result:
  "fst (snd (update_reliable_receive_state packet kind r rx)) =
     (if tracks_reliable packet kind then tracked_result packet kind r else r)"
  by (auto simp: update_reliable_receive_state_def tracks_reliable_def Let_def)

text \<open>
  What a handshake packet does to an open session that accepts it,
  field by field.
\<close>

lemma process_control_packet:
  assumes "kind \<in> {KindSyn, KindSynAck, KindAck}" and "h_channel_type (pv_header pv) = Unreliable"
    and "s_connection_state s \<noteq> Closing" and "cd_valid d"
    and "d = decide_connection_transition (s_role s) (s_connection_state s) kind"
    and "update_reliable_receive_state pv kind \<lparr>rr_schedule_ack_only = False\<rparr>
      (emit_connection_decision_events pv d (s_rx s)) = (ok, r, rx')"
    and "s' = process_packet cfg pv kind now s"
  shows "s_rx s' = rx'"
    and "s_tx s' = (if kind = KindSyn then s_tx s else snd (on_remote_ack cfg (h_ack (pv_header pv))
        (h_ack_bits (pv_header pv)) (s_tx s)))
      \<lparr>tx_syn_ack_pending := tx_syn_ack_pending (s_tx s) \<or> cd_schedule_syn_ack d,
       tx_final_ack_pending := tx_final_ack_pending (s_tx s) \<or> cd_schedule_final_ack d\<rparr>"
proof -
  have r: "\<not> rr_schedule_ack_only r"
    using update_result [of pv kind "\<lparr>rr_schedule_ack_only = False\<rparr>"
        "emit_connection_decision_events pv d (s_rx s)"] assms(1,2,6)
    by (auto simp: isReliableChannel_def)
  define tx where "tx = (if kind = KindSyn then s_tx s
    else snd (on_remote_ack cfg (h_ack (pv_header pv)) (h_ack_bits (pv_header pv)) (s_tx s)))"
  obtain a where ack: "apply_remote_ack cfg (pv_header pv) kind \<lparr>ar_acknowledged_fin = False\<rparr> (s_tx s) =
      (a, tx)"
    by (cases "kind = KindSyn")
      (simp_all add: apply_remote_ack_def should_apply_remote_ack_def tx_def on_remote_ack_eq)
  have probe: "handle_probe_receive kind now s = s" using assms(1) by (auto simp: handle_probe_receive_def)
  have stays: "\<not> should_close_after_fin_acknowledgement (s\<lparr>s_tx := tx\<rparr>) a"
    using assms(3) by (simp add: should_close_after_fin_acknowledgement_def)
  note dec = apply_valid_decision [OF assms(4), of pv "s\<lparr>s_tx := tx\<rparr>"]
  have pkt: "on_packet pv now kind (emit_connection_decision_events pv d (s_rx s)) = (r, rx')"
    using assms(1,6) by (auto simp: on_packet_def is_control_only_def)
  have s': "s' = (apply_connection_decision pv d (s\<lparr>s_tx := tx\<rparr>))\<lparr>s_rx := rx'\<rparr>"
    using assms(1) r unfolding assms(7) process_packet_def Let_def probe ack
    by (auto simp: stays assms(5) [symmetric] dec pkt update_post_receive_liveness_def
        schedule_receive_side_ack_def)
  show "s_rx s' = rx'" by (simp add: s')
  have "\<not> cd_schedule_ack_only d" using assms(1,5) by (auto simp: decision_defs split: if_splits)
  moreover have "tx_syn_ack_pending tx = tx_syn_ack_pending (s_tx s)"
    "tx_final_ack_pending tx = tx_final_ack_pending (s_tx s)"
    by (simp_all add: tx_def on_remote_ack_eq)
  ultimately show "s_tx s' = (if kind = KindSyn then s_tx s else snd (on_remote_ack cfg
        (h_ack (pv_header pv)) (h_ack_bits (pv_header pv)) (s_tx s)))
      \<lparr>tx_syn_ack_pending := tx_syn_ack_pending (s_tx s) \<or> cd_schedule_syn_ack d,
       tx_final_ack_pending := tx_final_ack_pending (s_tx s) \<or> cd_schedule_final_ack d\<rparr>"
    unfolding tx_def [symmetric] by (simp add: s' dec)
qed

lemma last_rx_helpers [frame_simps]:
  "s_last_rx_ms (handle_probe_receive kind now s) = s_last_rx_ms s"
  "s_last_rx_ms (apply_connection_decision pv d s) = s_last_rx_ms s"
  "s_last_rx_ms (update_post_receive_liveness kind s) = s_last_rx_ms s"
  "s_last_rx_ms (schedule_receive_side_ack cfg pv kind r now s) = s_last_rx_ms s"
  "s_last_rx_ms (record_received_stats kind n now s) = now"
  by (auto simp: handle_probe_receive_def apply_connection_decision_def
      update_post_receive_liveness_def schedule_receive_side_ack_def record_received_stats_def Let_def
      split: option.splits)

lemma process_packet_last_rx [frame_simps]:
  "s_last_rx_ms (process_packet cfg pv kind now s) = s_last_rx_ms s"
  by (simp add: process_packet_def Let_def frame_simps close_after_fin_acknowledgement_def
      split: prod.splits)

lemma handshake_receive:
  assumes "isValidHeader h" and "classify_control_kind h = kind"
    and "kind \<in> {KindSyn, KindSynAck, KindAck}" and "h_channel_type h = Unreliable"
    and "s_connection_state s \<noteq> Closing" and "cd_valid d"
    and "d = decide_connection_transition (s_role s) (s_connection_state s) kind"
    and "\<not> is_duplicate_client_syn_ack s kind"
    and "cid = (if should_adopt_server_conn_id s kind h then h_conn_id h else s_conn_id s)"
    and "kind = KindSyn \<or> h_conn_id h = cid"
    and "update_reliable_receive_state \<lparr>pv_header = h, pv_payload = p\<rparr> kind
      \<lparr>rr_schedule_ack_only = False\<rparr>
      (emit_connection_decision_events \<lparr>pv_header = h, pv_payload = p\<rparr> d (s_rx s)) = (ok, r, rx')"
    and "s' = on_datagram_received cfg (encode h p) now s"
  shows "s_role s' = s_role s" and "s_conn_id s' = cid"
    and "s_connection_state s' = state_after (s_role s) (s_connection_state s) kind"
    and "s_rx s' = rx'" and "s_last_rx_ms s' = now"
    and "s_tx s' = (if kind = KindSyn then s_tx s
        else snd (on_remote_ack cfg (h_ack h) (h_ack_bits h) (s_tx s)))
      \<lparr>tx_syn_ack_pending := tx_syn_ack_pending (s_tx s) \<or> cd_schedule_syn_ack d,
       tx_final_ack_pending := tx_final_ack_pending (s_tx s) \<or> cd_schedule_final_ack d\<rparr>"
proof -
  let ?pv = "\<lparr>pv_header = h, pv_payload = p\<rparr>"
  define s0 where "s0 = record_received_stats kind (length (encode h p)) now s"
  define s1 where "s1 = (if should_adopt_server_conn_id s kind h then adopt_server_conn_id h s0 else s0)"
  have s1: "s_role s1 = s_role s" "s_connection_state s1 = s_connection_state s" "s_tx s1 = s_tx s"
    "s_rx s1 = s_rx s" "s_conn_id s1 = cid" "s_last_rx_ms s1 = now"
    using assms(9) by (simp_all add: s1_def s0_def frame_simps received_identity)
      (simp add: adopt_server_conn_id_def frame_simps)
  have ok: "\<not> has_conn_id_mismatch s1 kind h" "\<not> is_duplicate_client_syn_ack s1 kind"
    using assms(8,10) by (auto simp: has_conn_id_mismatch_def is_duplicate_client_syn_ack_def s1)
  have s': "s' = process_packet cfg ?pv kind now s1"
    unfolding assms(12) on_datagram_received_def decode_encode_valid [OF assms(1)] option.case
      PacketView.simps assms(2) Let_def s0_def [symmetric] s1_def
      received_identity(2) [of kind "length (encode h p)" now s, folded s0_def]
    using ok unfolding s1_def by simp
  show "s_role s' = s_role s" "s_conn_id s' = cid"
    unfolding s' process_packet_identity by (simp_all add: s1)
  show "s_connection_state s' = state_after (s_role s) (s_connection_state s) kind"
    unfolding s' process_packet_identity using assms(5) by (simp add: s1)
  show "s_last_rx_ms s' = now" by (simp add: s' frame_simps s1)
  have pre: "h_channel_type (pv_header ?pv) = Unreliable" "s_connection_state s1 \<noteq> Closing"
    "d = decide_connection_transition (s_role s1) (s_connection_state s1) kind"
    "update_reliable_receive_state ?pv kind \<lparr>rr_schedule_ack_only = False\<rparr>
      (emit_connection_decision_events ?pv d (s_rx s1)) = (ok, r, rx')"
    using assms(4,5,7,11) by (simp_all add: s1)
  note out = process_control_packet [OF assms(3) pre(1,2) assms(6) pre(3,4) s']
  show "s_rx s' = rx'" by (rule out(1))
  show "s_tx s' = (if kind = KindSyn then s_tx s
        else snd (on_remote_ack cfg (h_ack h) (h_ack_bits h) (s_tx s)))
      \<lparr>tx_syn_ack_pending := tx_syn_ack_pending (s_tx s) \<or> cd_schedule_syn_ack d,
       tx_final_ack_pending := tx_final_ack_pending (s_tx s) \<or> cd_schedule_final_ack d\<rparr>"
    using out(2) by (simp only: s1 PacketView.simps)
qed

lemma decide_handshake:
  shows "cd_valid (decide_connection_transition Server Closed KindSyn)"
    and "cd_schedule_syn_ack (decide_connection_transition Server Closed KindSyn)"
    and "\<not> cd_schedule_final_ack (decide_connection_transition Server Closed KindSyn)"
    and "emit_connection_decision_events pv (decide_connection_transition Server Closed KindSyn) rx = rx"
    and "cd_valid (decide_connection_transition Client HandshakeSent KindSynAck)"
    and "\<not> cd_schedule_syn_ack (decide_connection_transition Client HandshakeSent KindSynAck)"
    and "cd_schedule_final_ack (decide_connection_transition Client HandshakeSent KindSynAck)"
    and "emit_connection_decision_events pv (decide_connection_transition Client HandshakeSent KindSynAck) rx
      = emit_control_event Connected pv [] rx"
    and "cd_valid (decide_connection_transition Server HandshakeReceived KindAck)"
    and "\<not> cd_schedule_syn_ack (decide_connection_transition Server HandshakeReceived KindAck)"
    and "\<not> cd_schedule_final_ack (decide_connection_transition Server HandshakeReceived KindAck)"
    and "emit_connection_decision_events pv (decide_connection_transition Server HandshakeReceived KindAck) rx
      = emit_control_event Connected pv [] rx"
    and "state_after Server Closed KindSyn = HandshakeReceived"
    and "state_after Client HandshakeSent KindSynAck = Established"
    and "state_after Server HandshakeReceived KindAck = Established"
  by (simp_all add: decision_defs emit_connection_decision_events_def state_after_def Let_def)

lemma server_receives_syn:
  assumes "s_role s = Server" and "s_connection_state s = Closed"
    and "rx_next_expected (s_rx s) = 0" and "rx_received_bits (s_rx s) = 0"
    and "s' = on_datagram_received cfg (encode (control_header c q (flag_value FlagSyn) rx) []) now s"
  shows "s_role s' = Server" and "s_conn_id s' = s_conn_id s"
    and "s_connection_state s' = HandshakeReceived"
    and "s_tx s' = (s_tx s)\<lparr>tx_syn_ack_pending := True\<rparr>"
    and "s_rx s' = (s_rx s)\<lparr>rx_next_expected := q + 1\<rparr>"
proof -
  let ?h = "control_header c q (flag_value FlagSyn) rx"
  let ?pv = "\<lparr>pv_header = ?h, pv_payload = []\<rparr>"
  let ?d = "decide_connection_transition Server Closed KindSyn"
  have h: "isValidHeader ?h" "KindSyn \<in> {KindSyn, KindSynAck, KindAck}"
    "h_channel_type ?h = Unreliable" "s_connection_state s \<noteq> Closing"
    using assms(2) by simp_all
  have d: "?d = decide_connection_transition (s_role s) (s_connection_state s) KindSyn"
    by (simp only: assms(1,2))
  have c: "\<not> is_duplicate_client_syn_ack s KindSyn"
    "s_conn_id s = (if should_adopt_server_conn_id s KindSyn ?h then h_conn_id ?h else s_conn_id s)"
    "KindSyn = KindSyn \<or> h_conn_id ?h = s_conn_id s"
    by (simp_all add: should_adopt_server_conn_id_def is_duplicate_client_syn_ack_def)
  have "tracks_reliable ?pv KindSyn" by (simp add: tracks_reliable_def)
  then have u: "update_reliable_receive_state ?pv KindSyn \<lparr>rr_schedule_ack_only = False\<rparr>
      (emit_connection_decision_events ?pv ?d (s_rx s)) =
      (True, \<lparr>rr_schedule_ack_only = False\<rparr>, (s_rx s)\<lparr>rx_next_expected := q + 1\<rparr>)"
    unfolding decide_handshake update_bootstrap [OF assms(3)] using assms(4)
    by (simp add: isReliableChannel_def advance_receive_window_def advance_receive_loop.simps)
  note r = handshake_receive [OF h(1) control_header_kind(1) h(2-4) decide_handshake(1) d c u assms(5)]
  show "s_role s' = Server" "s_conn_id s' = s_conn_id s" "s_connection_state s' = HandshakeReceived"
    "s_tx s' = (s_tx s)\<lparr>tx_syn_ack_pending := True\<rparr>"
    "s_rx s' = (s_rx s)\<lparr>rx_next_expected := q + 1\<rparr>"
    unfolding r using assms(1,2) decide_handshake(2,3,13)
    by (simp_all del: decide_connection_transition.simps)
qed

lemma emit_control_window [simp]:
  "rx_next_expected (emit_control_event type pv msg rx) = rx_next_expected rx"
  "rx_received_bits (emit_control_event type pv msg rx) = rx_received_bits rx"
  by (simp_all add: emit_control_event_def push_event_def)

lemma client_receives_syn_ack:
  assumes "s_role s = Client" and "s_connection_state s = HandshakeSent" and "s_conn_id s = 0"
    and "c \<noteq> 0" and "rx_next_expected (s_rx s) = 0" and "rx_received_bits (s_rx s) = 0"
    and "s' = on_datagram_received cfg
      (encode (control_header c q (flags_or FlagSyn FlagAck) rx) []) now s"
  shows "s_role s' = Client" and "s_conn_id s' = c" and "s_connection_state s' = Established"
    and "s_tx s' = (snd (on_remote_ack cfg (rx_next_expected rx) (rx_received_bits rx) (s_tx s)))
      \<lparr>tx_final_ack_pending := True\<rparr>"
    and "rx_next_expected (s_rx s') = q + 1" and "rx_received_bits (s_rx s') = 0"
    and "s_last_rx_ms s' = now"
proof -
  let ?h = "control_header c q (flags_or FlagSyn FlagAck) rx"
  let ?pv = "\<lparr>pv_header = ?h, pv_payload = []\<rparr>"
  let ?d = "decide_connection_transition Client HandshakeSent KindSynAck"
  let ?rx = "emit_control_event Connected ?pv [] (s_rx s)"
  have h: "isValidHeader ?h" "KindSynAck \<in> {KindSyn, KindSynAck, KindAck}"
    "h_channel_type ?h = Unreliable" "s_connection_state s \<noteq> Closing"
    using assms(2) by (simp_all add: flags_or_def)
  have d: "?d = decide_connection_transition (s_role s) (s_connection_state s) KindSynAck"
    by (simp only: assms(1,2))
  have c: "\<not> is_duplicate_client_syn_ack s KindSynAck"
    "c = (if should_adopt_server_conn_id s KindSynAck ?h then h_conn_id ?h else s_conn_id s)"
    "KindSynAck = KindSyn \<or> h_conn_id ?h = c"
    using assms(1-4) by (simp_all add: should_adopt_server_conn_id_def is_duplicate_client_syn_ack_def)
  have "tracks_reliable ?pv KindSynAck" by (simp add: tracks_reliable_def)
  then have u: "update_reliable_receive_state ?pv KindSynAck \<lparr>rr_schedule_ack_only = False\<rparr>
      (emit_connection_decision_events ?pv ?d (s_rx s)) =
      (True, \<lparr>rr_schedule_ack_only = False\<rparr>, ?rx\<lparr>rx_next_expected := q + 1\<rparr>)"
    unfolding decide_handshake using update_bootstrap [of ?rx] assms(5,6)
    by (simp add: isReliableChannel_def advance_receive_window_def advance_receive_loop.simps)
  note r = handshake_receive [OF h(1) control_header_kind(2) h(2-4) decide_handshake(5) d c u assms(7)]
  show "s_role s' = Client" "s_conn_id s' = c" "s_connection_state s' = Established"
    "s_tx s' = (snd (on_remote_ack cfg (rx_next_expected rx) (rx_received_bits rx) (s_tx s)))
      \<lparr>tx_final_ack_pending := True\<rparr>"
    "rx_next_expected (s_rx s') = q + 1" "rx_received_bits (s_rx s') = 0" "s_last_rx_ms s' = now"
    unfolding r using assms(1,2,6) decide_handshake(6,7,14)
    by (simp_all add: on_remote_ack_eq del: decide_connection_transition.simps)
qed

text \<open>
  A pure ACK carries the sequence number 0 and still meets the receive window: a front of 0 moves to 1,
  and a front at most 64 short of the wrap records the number 0 as received.
\<close>

lemma zero_sequence_ack:
  assumes "h_seq (pv_header ack) = 0" and "rx_received_bits rx = 0"
    and "update_reliable_receive_state ack KindAck r rx = (ok, r', rx')"
  shows "rx_next_expected rx' = (if rx_next_expected rx = 0 then 1 else rx_next_expected rx)"
    and "rx_received_bits rx' = (if 4294967232 \<le> unat (rx_next_expected rx)
      then 2 ^ (4294967295 - unat (rx_next_expected rx)) else 0)"
proof -
  have t: "tracks_reliable ack KindAck" by (simp add: tracks_reliable_def)
  have d: "unat (h_seq (pv_header ack) - rx_next_expected rx) = 4294967296 - unat (rx_next_expected rx)"
    if "rx_next_expected rx \<noteq> 0"
    using unat_minus_swap [OF that] assms(1) by (simp only: diff_0_right)
  have "rx_next_expected rx' = (if rx_next_expected rx = 0 then 1 else rx_next_expected rx) \<and>
    rx_received_bits rx' = (if 4294967232 \<le> unat (rx_next_expected rx)
      then 2 ^ (4294967295 - unat (rx_next_expected rx)) else 0)"
  proof (cases rule: receive_cases [of ack KindAck _ rx])
    case bootstrap
    then show ?thesis using assms
      by (auto simp: update_bootstrap advance_receive_window_def advance_receive_loop.simps)
  next
    case in_order
    then show ?thesis using assms(1) by simp
  next
    case (in_window i)
    then have "4294967232 \<le> unat (rx_next_expected rx)" "4294967295 - unat (rx_next_expected rx) = i"
      using d by linarith+
    then show ?thesis using assms(2,3) update_in_window [OF in_window] in_window(2) by auto
  next
    case rejected
    then have "\<not> 4294967232 \<le> unat (rx_next_expected rx)" using d by linarith
    then show ?thesis using assms(2,3) update_rejected [OF rejected] rejected(2) by auto
  qed (simp add: t)
  then show "rx_next_expected rx' = (if rx_next_expected rx = 0 then 1 else rx_next_expected rx)"
    "rx_received_bits rx' = (if 4294967232 \<le> unat (rx_next_expected rx)
      then 2 ^ (4294967295 - unat (rx_next_expected rx)) else 0)" by simp_all
qed

lemma server_receives_ack:
  assumes "s_role s = Server" and "s_connection_state s = HandshakeReceived"
    and "s' = on_datagram_received cfg
      (encode (control_header (s_conn_id s) 0 (flag_value FlagAck) rx) []) now s"
  shows "s_role s' = Server" and "s_conn_id s' = s_conn_id s"
    and "s_connection_state s' = Established"
    and "s_tx s' = snd (on_remote_ack cfg (rx_next_expected rx) (rx_received_bits rx) (s_tx s))"
    and "rx_received_bits (s_rx s) = 0 \<Longrightarrow>
      rx_next_expected (s_rx s') = (if rx_next_expected (s_rx s) = 0 then 1 else rx_next_expected (s_rx s))"
    and "rx_received_bits (s_rx s) = 0 \<Longrightarrow>
      rx_received_bits (s_rx s') = (if 4294967232 \<le> unat (rx_next_expected (s_rx s))
        then 2 ^ (4294967295 - unat (rx_next_expected (s_rx s))) else 0)"
proof -
  let ?h = "control_header (s_conn_id s) 0 (flag_value FlagAck) rx"
  let ?pv = "\<lparr>pv_header = ?h, pv_payload = []\<rparr>"
  let ?d = "decide_connection_transition Server HandshakeReceived KindAck"
  let ?rx = "emit_control_event Connected ?pv [] (s_rx s)"
  have h: "isValidHeader ?h" "KindAck \<in> {KindSyn, KindSynAck, KindAck}"
    "h_channel_type ?h = Unreliable" "s_connection_state s \<noteq> Closing"
    using assms(2) by simp_all
  have d: "?d = decide_connection_transition (s_role s) (s_connection_state s) KindAck"
    by (simp only: assms(1,2))
  have c: "\<not> is_duplicate_client_syn_ack s KindAck"
    "s_conn_id s = (if should_adopt_server_conn_id s KindAck ?h then h_conn_id ?h else s_conn_id s)"
    "KindAck = KindSyn \<or> h_conn_id ?h = s_conn_id s"
    by (simp_all add: should_adopt_server_conn_id_def is_duplicate_client_syn_ack_def)
  obtain ok r' rx' where u: "update_reliable_receive_state ?pv KindAck \<lparr>rr_schedule_ack_only = False\<rparr>
      (emit_connection_decision_events ?pv ?d (s_rx s)) = (ok, r', rx')"
    by (metis prod_cases3)
  note r = handshake_receive [OF h(1) control_header_kind(3) h(2-4) decide_handshake(9) d c u assms(3)]
  show "s_role s' = Server" "s_conn_id s' = s_conn_id s" "s_connection_state s' = Established"
    "s_tx s' = snd (on_remote_ack cfg (rx_next_expected rx) (rx_received_bits rx) (s_tx s))"
    unfolding r using assms(1,2) decide_handshake(10,11,15)
    by (simp_all add: on_remote_ack_eq del: decide_connection_transition.simps)
  assume zero: "rx_received_bits (s_rx s) = 0"
  have "s_rx s' = rx'" by (simp only: r)
  then show "rx_next_expected (s_rx s') =
      (if rx_next_expected (s_rx s) = 0 then 1 else rx_next_expected (s_rx s))"
    "rx_received_bits (s_rx s') = (if 4294967232 \<le> unat (rx_next_expected (s_rx s))
        then 2 ^ (4294967295 - unat (rx_next_expected (s_rx s))) else 0)"
    using u zero_sequence_ack [of ?pv ?rx "\<lparr>rr_schedule_ack_only = False\<rparr>"] zero
    unfolding decide_handshake by simp_all
qed

lemma server_sends_syn_ack:
  assumes "s_role s = Server" and "s_connection_state s = HandshakeReceived"
    and "tx_syn_ack_pending (s_tx s)" and "tx_next_seq (s_tx s) = isn" and "tx_remote_ack (s_tx s) = isn"
    and "tx_inflight (s_tx s) = []" and "poll_tx cfg now s = (out, s')"
  defines "h \<equiv> control_header (s_conn_id s) isn (flags_or FlagSyn FlagAck) (s_rx s)"
  shows "out = Some (encode h [])" and "s_role s' = Server" and "s_conn_id s' = s_conn_id s"
    and "s_connection_state s' = HandshakeReceived" and "s_rx s' = s_rx s"
    and "tx_inflight (s_tx s') = [(isn, first_send_entry \<lparr>op_header = h, op_payload = []\<rparr> now)]"
    and "tx_next_seq (s_tx s') = isn + 1"
proof -
  have t: "\<not> should_timeout_idle_session cfg s now"
    using assms(2) by (simp add: should_timeout_idle_session_def)
  have w: "s_tx (schedule_pending_tx_work cfg now s) = s_tx s"
    using assms(2) by (simp add: schedule_pending_tx_work_def should_schedule_reliable_ack_def
        should_schedule_activity_ack_def should_schedule_probe_def)
  have room: "\<not> reliable_window_full (s_tx s)"
    using assms(4,5) by (simp add: reliable_window_full_def kReliableWindowSize_def)
  have b: "try_build_handshake cfg now (s_role s) (s_conn_id s) (s_connection_state s) (s_rx s)
      (s_tx (schedule_pending_tx_work cfg now s)) = (Some (encode h []), HandshakeReceived,
     (s_tx s)\<lparr>tx_next_seq := isn + 1, tx_inflight :=
        [(isn, first_send_entry \<lparr>op_header = h, op_payload = []\<rparr> now)], tx_syn_ack_pending := False\<rparr>)"
    using assms(1-6) room unfolding w try_build_handshake_def
    by (simp add: build_control_consuming [OF consumes_flags(2)] h_def Let_def map_emplace_def
        map_find_def)
  have v: "isValidHeader h" "classify_control_kind h \<noteq> KindPing"
    unfolding h_def control_header_kind by (simp_all add: flags_or_def)
  note r = poll_tx_handshake [OF t b v assms(7)]
  show "out = Some (encode h [])" "s_role s' = Server" "s_conn_id s' = s_conn_id s"
    "s_connection_state s' = HandshakeReceived" "s_rx s' = s_rx s"
    "tx_inflight (s_tx s') = [(isn, first_send_entry \<lparr>op_header = h, op_payload = []\<rparr> now)]"
    "tx_next_seq (s_tx s') = isn + 1"
    using r assms(1) by simp_all
qed

lemma client_sends_final_ack:
  assumes "s_connection_state s = Established" and "s_role s = Client"
    and "tx_final_ack_pending (s_tx s)" and "now < s_last_rx_ms s + idle_timeout_ms cfg"
    and "poll_tx cfg now s = (out, s')"
  shows "out = Some (encode (control_header (s_conn_id s) 0 (flag_value FlagAck) (s_rx s)) [])"
    and "s_role s' = Client" and "s_conn_id s' = s_conn_id s" and "s_connection_state s' = Established"
    and "s_rx s' = s_rx s" and "tx_inflight (s_tx s') = tx_inflight (s_tx s)"
    and "tx_next_seq (s_tx s') = tx_next_seq (s_tx s)" and "\<not> tx_final_ack_pending (s_tx s')"
proof -
  let ?h = "control_header (s_conn_id s) 0 (flag_value FlagAck) (s_rx s)"
  let ?tx = "s_tx (schedule_pending_tx_work cfg now s)"
  have t: "\<not> should_timeout_idle_session cfg s now"
    using assms(4) by (simp add: should_timeout_idle_session_def not_le)
  have "tx_final_ack_pending ?tx"
    using assms(3) by (simp add: schedule_pending_tx_work_def)
  then have b: "try_build_handshake cfg now (s_role s) (s_conn_id s) (s_connection_state s) (s_rx s) ?tx =
     (Some (encode ?h []), Established, ?tx\<lparr>tx_final_ack_pending := False,
        tx_final_ack_linger_until_ms := now + handshake_linger_ms cfg\<rparr>)"
    using assms(1,2) unfolding try_build_handshake_def
    by (simp add: build_control_plain [OF consumes_flags(4)] del: flag_value.simps)
  have v: "isValidHeader ?h" "classify_control_kind ?h \<noteq> KindPing"
    unfolding control_header_kind by simp_all
  note r = poll_tx_handshake [OF t b v assms(5)]
  have "same_core (s_tx s) ?tx" by (rule same_core_helpers)
  then show "out = Some (encode ?h [])" "s_role s' = Client" "s_conn_id s' = s_conn_id s"
    "s_connection_state s' = Established" "s_rx s' = s_rx s"
    "tx_inflight (s_tx s') = tx_inflight (s_tx s)" "tx_next_seq (s_tx s') = tx_next_seq (s_tx s)"
    "\<not> tx_final_ack_pending (s_tx s')"
    using r assms(2) by (simp_all add: same_core_def)
qed

lemma acknowledge_single:
  "acknowledged_inflight cfg (isn + 1) 0 [(isn, e)] = []"
  by (simp add: acknowledged_inflight_def acknowledged_dist unsigned_minus_1_eq_mask
      mask_eq_exp_minus_1)

section \<open>The whole handshake\<close>

lemma handshake_run:
  assumes "cid \<noteq> 0" and "te < td + idle_timeout_ms cfg"
    and "d1 = encode (control_header 0 ic (flag_value FlagSyn) default_rx) []"
  obtains c1 s1 d2 s2 rx d3 c3 s3 where "poll_tx cfg ta (Session Client ic) = (Some d1, c1)"
    and "on_datagram_received cfg d1 tb (assign_conn_id cid (Session Server isn)) = s1"
    and "s_connection_state s1 = HandshakeReceived"
    and "poll_tx cfg tc s1 = (Some d2, s2)"
    and "poll_tx cfg te (on_datagram_received cfg d2 td c1) = (Some d3, c3)"
    and "d3 = encode (control_header cid 0 (flag_value FlagAck) rx) []"
    and "on_datagram_received cfg d3 tf s2 = s3"
    and "s_connection_state c3 = Established" and "s_connection_state s3 = Established"
    and "s_conn_id c3 = cid" and "s_conn_id s1 = cid" and "s_conn_id s2 = cid" and "s_conn_id s3 = cid"
    and "tx_inflight (s_tx c3) = []" and "tx_inflight (s_tx s3) = []"
    and "tx_next_seq (s_tx c3) = ic + 1" and "tx_next_seq (s_tx s3) = isn + 1"
    and "rx_next_expected (s_rx c3) = isn + 1" and "rx_received_bits (s_rx c3) = 0"
    and "rx_next_expected (s_rx s3) = (if ic + 1 = 0 then 1 else ic + 1)"
    and "rx_received_bits (s_rx s3) =
      (if 4294967232 \<le> unat (ic + 1) then 2 ^ (4294967295 - unat (ic + 1)) else 0)"
proof -
  let ?srv = "assign_conn_id cid (Session Server isn)"
  obtain out1 c1 where p1: "poll_tx cfg ta (Session Client ic) = (out1, c1)" by fastforce
  note f1 = client_sends_syn [OF p1]
  have srv: "s_role ?srv = Server" "s_connection_state ?srv = Closed" "rx_next_expected (s_rx ?srv) = 0"
    "rx_received_bits (s_rx ?srv) = 0" "s_conn_id ?srv = cid" "tx_next_seq (s_tx ?srv) = isn"
    "tx_remote_ack (s_tx ?srv) = isn" "tx_inflight (s_tx ?srv) = []"
    by (simp_all add: assign_conn_id_def Session_def default_rx_def)
  define s1 where "s1 = on_datagram_received cfg d1 tb ?srv"
  note g1 = server_receives_syn [OF srv(1-4) s1_def [unfolded assms(3)]]
  obtain out2 s2 where p2: "poll_tx cfg tc s1 = (out2, s2)" by fastforce
  have "tx_syn_ack_pending (s_tx s1)" "tx_next_seq (s_tx s1) = isn" "tx_remote_ack (s_tx s1) = isn"
    "tx_inflight (s_tx s1) = []" using g1(4) srv by simp_all
  note f2 = server_sends_syn_ack [OF g1(1,3) this p2]
  have rx1: "rx_next_expected (s_rx s1) = ic + 1" "rx_received_bits (s_rx s1) = 0"
    using g1(5) srv by simp_all
  let ?h2 = "control_header (s_conn_id s1) isn (flags_or FlagSyn FlagAck) (s_rx s1)"
  define c2 where "c2 = on_datagram_received cfg (encode ?h2 []) td c1"
  have c1: "s_conn_id s1 \<noteq> 0" "rx_next_expected (s_rx c1) = 0" "rx_received_bits (s_rx c1) = 0"
    using assms(1) g1(2) srv f1(3) by (simp_all add: default_rx_def)
  note f3 = client_receives_syn_ack [OF f1(4,2,5) c1 c2_def]
  obtain out3 c3 where p3: "poll_tx cfg te c2 = (out3, c3)" by fastforce
  have "tx_final_ack_pending (s_tx c2)" "te < s_last_rx_ms c2 + idle_timeout_ms cfg"
    using f3(4,7) assms(2) by simp_all
  note f4 = client_sends_final_ack [OF f3(3,1) this p3]
  have tx2: "tx_inflight (s_tx c2) = []" "tx_next_seq (s_tx c2) = ic + 1"
    using f3(4) f1(6) rx1 by (simp_all add: on_remote_ack_eq acknowledge_single)
  define s3 where "s3 = on_datagram_received cfg
    (encode (control_header (s_conn_id s2) 0 (flag_value FlagAck) (s_rx c2)) []) tf s2"
  note f5 = server_receives_ack [OF f2(2,4) s3_def]
  have tx3: "tx_inflight (s_tx s3) = []" "tx_next_seq (s_tx s3) = isn + 1"
    using f5(4) f2(6,7) f3(5,6) by (simp_all add: on_remote_ack_eq acknowledge_single)
  have bits: "rx_received_bits (s_rx s2) = 0" using f2(5) rx1 by simp
  have front: "rx_next_expected (s_rx s3) = (if ic + 1 = 0 then 1 else ic + 1)"
    "rx_received_bits (s_rx s3) =
      (if 4294967232 \<le> unat (ic + 1) then 2 ^ (4294967295 - unat (ic + 1)) else 0)"
    using f5(5,6) [OF bits] by (simp_all only: f2(5) rx1)
  have id: "s_conn_id s1 = cid" "s_conn_id s2 = cid" "s_conn_id c2 = cid" "s_conn_id c3 = cid" "s_conn_id s3 = cid"
    using g1(2) srv f2(3) f3(2) f4(3) f5(2) by simp_all
  have d3: "out3 = Some (encode (control_header cid 0 (flag_value FlagAck) (s_rx c2)) [])" using f4(1) id by simp
  have q3: "poll_tx cfg te (on_datagram_received cfg (encode ?h2 []) td c1) =
      (Some (encode (control_header cid 0 (flag_value FlagAck) (s_rx c2)) []), c3)"
    using p3 by (simp only: d3 c2_def)
  show thesis
    by (rule that [OF p1 [unfolded f1(1), folded assms(3)] s1_def [symmetric] g1(3) p2 [unfolded f2(1)]
          q3 refl s3_def [symmetric, unfolded id]])
      (use f4 f5(3) id tx2 tx3 f3(5,6) front in simp_all)
qed

section \<open>Properties\<close>

text \<open>
  C1. The three-way handshake completes for all initial sequence numbers of the two ends: a client's
  first poll yields a datagram (SYN), the server session that is given a connection id answers it with
  a datagram (SYN-ACK), the client answers that with a datagram (ACK), and then both ends are
  established with the server's connection id, nothing left in flight, and the client expecting the
  number the server sends next. The server expects the number \<open>ic + 1\<close> the client sends next, with an
  empty bitmap, unless \<open>ic\<close> is one of the last 65 numbers. There the final ACK, which carries the number
  0, disturbs it: with \<open>ic + 1 = 0\<close> the server expects 1, and with \<open>ic + 1\<close> at most 64 short of the wrap
  the bitmap has the bit of the number 0 set. The only timing assumption is that the client polls
  before its idle timeout.
\<close>

theorem handshake_completes:
  assumes "cid \<noteq> 0" and "te < td + idle_timeout_ms cfg"
  shows "\<exists>d1 c1 d2 s2 d3 c3 s3.
    poll_tx cfg ta (Session Client ic) = (Some d1, c1) \<and>
    poll_tx cfg tc (on_datagram_received cfg d1 tb (assign_conn_id cid (Session Server isn))) =
      (Some d2, s2) \<and>
    poll_tx cfg te (on_datagram_received cfg d2 td c1) = (Some d3, c3) \<and>
    on_datagram_received cfg d3 tf s2 = s3 \<and>
    s_connection_state c3 = Established \<and> s_connection_state s3 = Established \<and>
    s_conn_id c3 = cid \<and> s_conn_id s3 = cid \<and>
    tx_inflight (s_tx c3) = [] \<and> tx_inflight (s_tx s3) = [] \<and>
    tx_next_seq (s_tx c3) = ic + 1 \<and> tx_next_seq (s_tx s3) = isn + 1 \<and>
    rx_next_expected (s_rx c3) = isn + 1 \<and> rx_received_bits (s_rx c3) = 0 \<and>
    rx_next_expected (s_rx s3) = (if ic + 1 = 0 then 1 else ic + 1) \<and>
    rx_received_bits (s_rx s3) =
      (if 4294967232 \<le> unat (ic + 1) then 2 ^ (4294967295 - unat (ic + 1)) else 0)"
proof -
  obtain c1 s1 d2 s2 rx d3 c3 s3 where
    "poll_tx cfg ta (Session Client ic) = (Some (encode (control_header 0 ic (flag_value FlagSyn) default_rx) []), c1)"
    and s1: "on_datagram_received cfg (encode (control_header 0 ic (flag_value FlagSyn) default_rx) []) tb
      (assign_conn_id cid (Session Server isn)) = s1" and "s_connection_state s1 = HandshakeReceived"
    and "poll_tx cfg tc s1 = (Some d2, s2)"
    and "poll_tx cfg te (on_datagram_received cfg d2 td c1) = (Some d3, c3)"
    and "d3 = encode (control_header cid 0 (flag_value FlagAck) rx) []"
    and "on_datagram_received cfg d3 tf s2 = s3"
    and "s_connection_state c3 = Established" "s_connection_state s3 = Established"
    and "s_conn_id c3 = cid" "s_conn_id s1 = cid" "s_conn_id s2 = cid" "s_conn_id s3 = cid"
    and "tx_inflight (s_tx c3) = []" "tx_inflight (s_tx s3) = []"
    and "tx_next_seq (s_tx c3) = ic + 1" "tx_next_seq (s_tx s3) = isn + 1"
    and "rx_next_expected (s_rx c3) = isn + 1" "rx_received_bits (s_rx c3) = 0"
    and "rx_next_expected (s_rx s3) = (if ic + 1 = 0 then 1 else ic + 1)"
    and "rx_received_bits (s_rx s3) =
      (if 4294967232 \<le> unat (ic + 1) then 2 ^ (4294967295 - unat (ic + 1)) else 0)"
    by (rule handshake_run [where ta = ta and ic = ic and tb = tb and isn = isn and tc = tc and tf = tf,
          OF assms refl], rule that)
  then show ?thesis unfolding s1 [symmetric] by (intro exI conjI) (assumption | simp)+
qed

theorem handshake_completes_witness:
  "\<exists>d1 c1 d2 s2 d3 c3 s3.
    poll_tx default_transport 1 (Session Client 0xfffffff0) = (Some d1, c1) \<and>
    poll_tx default_transport 3
      (on_datagram_received default_transport d1 2 (assign_conn_id 77 (Session Server 0xffffffff))) =
      (Some d2, s2) \<and>
    poll_tx default_transport 5 (on_datagram_received default_transport d2 4 c1) = (Some d3, c3) \<and>
    on_datagram_received default_transport d3 6 s2 = s3 \<and>
    s_connection_state c3 = Established \<and> s_connection_state s3 = Established \<and>
    s_conn_id c3 = 77 \<and> s_conn_id s3 = 77 \<and> rx_next_expected (s_rx c3) = 0 \<and>
    rx_next_expected (s_rx s3) = 0xfffffff1 \<and> rx_received_bits (s_rx s3) = 2 ^ 14"
proof -
  have h: "(77 :: u32) \<noteq> 0" "(5 :: u64) < 4 + idle_timeout_ms default_transport"
    by (simp_all add: default_transport_def)
  have "(0xffffffff + 1 :: u32) = 0"
    "(if (0xfffffff0 :: u32) + 1 = 0 then 1 else 0xfffffff0 + 1) = (0xfffffff1 :: u32)"
    "(if 4294967232 \<le> unat (0xfffffff0 + 1 :: u32) then 2 ^ (4294967295 - unat (0xfffffff0 + 1 :: u32))
      else 0 :: u64) = 2 ^ 14" by simp_all
  with handshake_completes [OF h, where ic = "0xfffffff0" and isn = "0xffffffff" and ta = 1 and tb = 2
      and tc = 3 and tf = 6]
  show ?thesis by metis
qed

text \<open>
  C22. A connection becomes established only by completing the handshake: the step is the arrival of a
  well-formed datagram, a SYN-ACK for a client that has sent its SYN or an ACK for a server that has
  received one, whose connection id is the session's own afterwards (or the session has none). Polls,
  sends, drains and close requests never establish a connection.
\<close>

theorem established_only_by_handshake:
  assumes "session_step cfg s s'"
    and "s_connection_state s' = Established" and "s_connection_state s \<noteq> Established"
  shows "\<exists>bs now pv. s' = on_datagram_received cfg bs now s \<and> decode bs = Some pv \<and>
    (s_conn_id s' = 0 \<or> h_conn_id (pv_header pv) = s_conn_id s') \<and>
    (s_role s = Client \<and> s_connection_state s = HandshakeSent \<and>
       classify_control_kind (pv_header pv) = KindSynAck \<or>
     s_role s = Server \<and> s_connection_state s = HandshakeReceived \<and>
       classify_control_kind (pv_header pv) = KindAck)"
  using assms(1)
proof cases
  case (step_datagram bs now)
  show ?thesis
  proof (cases rule: on_datagram_received_cases [of bs cfg now s])
    case ignored
    then show ?thesis using step_datagram assms by simp
  next
    case (packet pv kind s1 s2)
    have id2: "s_role s2 = s_role s" "s_connection_state s2 = s_connection_state s"
      using packet(3,4) by (auto simp: frame_simps)
    have no: "\<not> has_conn_id_mismatch s2 kind (pv_header pv)" "\<not> is_duplicate_client_syn_ack s2 kind"
      using packet(5) step_datagram assms(2,3) id2
      by (auto simp: reset_for_conn_id_mismatch_def frame_simps is_duplicate_client_syn_ack_def
          split: if_splits)
    then have s': "s' = process_packet cfg pv kind now s2" using packet(5) step_datagram by simp
    let ?st = "if fin_acked (pv_header pv) kind s2 \<and> s_connection_state s = Closing then Closed
      else s_connection_state s"
    have "state_after (s_role s) ?st kind = Established"
      using assms(2) unfolding s' process_packet_identity id2 .
    moreover have "?st \<noteq> Established" using assms(3) by simp
    ultimately have hs: "s_role s = Client \<and> ?st = HandshakeSent \<and> kind = KindSynAck \<or>
        s_role s = Server \<and> ?st = HandshakeReceived \<and> kind = KindAck"
      by (rule state_after_Established)
    moreover have "s_conn_id s' = 0 \<or> h_conn_id (pv_header pv) = s_conn_id s'"
      using no(1) hs assms(3) id2 by (auto simp: s' process_packet_identity has_conn_id_mismatch_def
          allows_server_zero_conn_id_bootstrap_def split: if_splits)
    ultimately show ?thesis using packet(1,2) step_datagram
      by (intro exI [of _ bs] exI [of _ now] exI [of _ pv]) (auto split: if_splits)
  qed
next
  case (step_poll now out)
  from poll_tx_identity(3) [OF this] show ?thesis using assms(2,3) by (auto split: if_splits)
qed (use assms(2,3) in \<open>auto simp: queue_send_def request_close_def assign_conn_id_def
  drain_events_def split: if_splits prod.splits\<close>)

theorem established_only_by_handshake_witness:
  "\<exists>bs now pv. on_datagram_received default_transport
      (encode (control_header 7 9 (flags_or FlagSyn FlagAck) default_rx) []) 3
      ((Session Client 5)\<lparr>s_connection_state := HandshakeSent\<rparr>) =
    on_datagram_received default_transport bs now
      ((Session Client 5)\<lparr>s_connection_state := HandshakeSent\<rparr>) \<and>
    decode bs = Some pv \<and> classify_control_kind (pv_header pv) = KindSynAck"
proof -
  let ?s = "(Session Client 5)\<lparr>s_connection_state := HandshakeSent\<rparr>"
  let ?s' = "on_datagram_received default_transport
      (encode (control_header 7 9 (flags_or FlagSyn FlagAck) default_rx) []) 3 ?s"
  have "s_connection_state ?s' = Established"
    by (rule client_receives_syn_ack(3) [OF _ _ _ _ _ _ refl]) (simp_all add: Session_def default_rx_def)
  moreover have "s_connection_state ?s \<noteq> Established" "s_role ?s = Client" by (simp_all add: Session_def)
  ultimately show ?thesis
    using established_only_by_handshake [OF step_datagram [of default_transport ?s]] by fastforce
qed

section \<open>Data before the handshake is over\<close>

lemma schedule_idle_unless_established:
  "s_connection_state s \<noteq> Established \<Longrightarrow> schedule_pending_tx_work cfg now s = s"
  by (simp add: schedule_pending_tx_work_def should_schedule_reliable_ack_def
      should_schedule_activity_ack_def should_schedule_probe_def)

lemma retransmit_idle_lane:
  assumes "\<forall>p \<in> set (tx_inflight tx). retransmit_idle cfg now p"
  shows "try_build_retransmit cfg now rx tx = (default_poll_result, tx)"
proof -
  have "dropWhile (retransmit_idle cfg now) (tx_inflight tx) = []"
    using assms by (simp only: dropWhile_eq_Nil_conv)
  then show ?thesis by (simp only: try_build_retransmit_def retransmit_loop_exact) simp
qed

lemma fresh_packet:
  assumes "tx_pending_send tx = r # queue"
    and "isReliableChannel (sr_channel_type r) \<Longrightarrow> \<not> reliable_window_full tx"
  obtains q tx' where "try_build_fresh now conn_id rx tx =
    (Some (encode (default_header\<lparr>h_conn_id := conn_id, h_channel_id := sr_channel_id r,
       h_channel_type := sr_channel_type r, h_ack := rx_next_expected rx,
       h_ack_bits := rx_received_bits rx, h_seq := q\<rparr>) (sr_payload r)), tx')"
  using assms by (cases "isReliableChannel (sr_channel_type r)")
    (auto simp: try_build_fresh_def make_packet_from_request_def reliable_window_full_def Let_def)

text \<open>
  C33. Data queued by a client before the handshake is over breaks it. A client that has sent its SYN
  and whose packets in flight are not due for retransmission sends the head of its queue at the next
  poll, whatever the request's channel (one of the four types; a reliable one needs room in the send
  window). The datagram decodes to the request's payload on its channel under connection id 0; a
  server session that has answered the SYN (it has a connection id and waits for the ACK) takes it for
  one of another connection and resets.
\<close>

theorem early_data_aborts_handshake:
  assumes "s_role c = Client" and "s_connection_state c = HandshakeSent" and "s_conn_id c = 0"
    and "\<forall>p \<in> set (tx_inflight (s_tx c)). retransmit_idle cfg now p"
    and "\<not> pb_pong_pending (tx_probe (s_tx c))" and "\<not> pb_ping_pending (tx_probe (s_tx c))"
    and "\<not> tx_ack_only_pending (s_tx c)"
    and "tx_pending_send (s_tx c) = r # queue" and "named_channel (sr_channel_type r)"
    and "isReliableChannel (sr_channel_type r) \<Longrightarrow> \<not> reliable_window_full (s_tx c)"
    and "s_connection_state s = HandshakeReceived" and "s_conn_id s \<noteq> 0"
  shows "\<exists>d c' pv. poll_tx cfg now c = (Some d, c') \<and> decode d = Some pv \<and>
    h_conn_id (pv_header pv) = 0 \<and> h_channel_id (pv_header pv) = sr_channel_id r \<and>
    h_channel_type (pv_header pv) = sr_channel_type r \<and> pv_payload pv = sr_payload r \<and>
    s_connection_state (on_datagram_received cfg d now' s) = Reset"
proof -
  have hs: "try_build_handshake cfg now Client 0 HandshakeSent (s_rx c) (s_tx c) =
      (None, HandshakeSent, s_tx c)" by (simp add: try_build_handshake_def)
  obtain q tx' where fresh: "try_build_fresh now 0 (s_rx c) (s_tx c) =
    (Some (encode (default_header\<lparr>h_conn_id := 0, h_channel_id := sr_channel_id r,
       h_channel_type := sr_channel_type r, h_ack := rx_next_expected (s_rx c),
       h_ack_bits := rx_received_bits (s_rx c), h_seq := q\<rparr>) (sr_payload r)), tx')"
    using fresh_packet [OF assms(8,10)] by metis
  define h where "h = default_header\<lparr>h_conn_id := 0, h_channel_id := sr_channel_id r,
     h_channel_type := sr_channel_type r, h_ack := rx_next_expected (s_rx c),
     h_ack_bits := rx_received_bits (s_rx c), h_seq := q\<rparr>"
  have "\<exists>tx. poll cfg now Client 0 HandshakeSent (s_rx c) (s_tx c) =
      (make_poll_result (Some (encode h (sr_payload r))) False, HandshakeSent, tx)"
    using assms(5-7) by (simp add: poll_def hs retransmit_idle_lane [OF assms(4)]
        default_poll_result_def try_build_probe_lane_def try_build_ack_only_def
        fresh [folded h_def])
  then obtain c' where out: "poll_tx cfg now c = (Some (encode h (sr_payload r)), c')"
    using assms(1-3) by (auto simp: poll_tx_def should_timeout_idle_session_def
        schedule_idle_unless_established make_poll_result_def)
  have "isValidHeader h"
    using assms(9) by (auto simp: h_def isValidHeader_def default_header_def named_channel_def)
  then have d: "decode (encode h (sr_payload r)) = Some \<lparr>pv_header = h, pv_payload = sr_payload r\<rparr>"
    by (rule decode_encode_valid)
  have "classify_control_kind h \<noteq> KindSyn"
    by (simp add: h_def classify_control_kind_def hasFlag_def default_header_def)
  moreover have "h_conn_id h = 0" by (simp add: h_def)
  ultimately have "s_connection_state (on_datagram_received cfg (encode h (sr_payload r)) now' s) = Reset"
    using d assms(11,12)
    by (simp add: on_datagram_received_def Let_def should_adopt_server_conn_id_def frame_simps
        has_conn_id_mismatch_def allows_server_zero_conn_id_bootstrap_def reset_for_conn_id_mismatch_def)
  with out d show ?thesis
    by (intro exI [of _ "encode h (sr_payload r)"] exI [of _ c']
        exI [of _ "\<lparr>pv_header = h, pv_payload = sr_payload r\<rparr>"]) (simp add: h_def)
qed

text \<open>
  On a client that has polled its SYN and then queued reliable data, and the server session that
  received that SYN.
\<close>

theorem early_data_aborts_handshake_witness:
  "\<exists>syn c1 d c' pv. poll_tx default_transport 1 (Session Client 5) = (Some syn, c1) \<and>
    tx_inflight (s_tx c1) \<noteq> [] \<and>
    poll_tx default_transport 9 (queue_send 1 ReliableOrdered [42] c1) = (Some d, c') \<and>
    decode d = Some pv \<and> h_conn_id (pv_header pv) = 0 \<and> pv_payload pv = [42] \<and>
    s_connection_state (on_datagram_received default_transport d 10
      (on_datagram_received default_transport syn 2 (assign_conn_id 3 (Session Server 8)))) = Reset"
proof -
  obtain syn c1 where p1: "poll_tx default_transport 1 (Session Client 5) = (syn, c1)" by fastforce
  note c1 = client_sends_syn [OF p1]
  let ?c = "queue_send 1 ReliableOrdered [42] c1" and ?srv = "assign_conn_id 3 (Session Server 8)"
  let ?h = "control_header 0 5 (flag_value FlagSyn) default_rx"
  let ?s = "on_datagram_received default_transport (encode ?h []) 2 ?srv"
  have srv: "s_role ?srv = Server" "s_connection_state ?srv = Closed" "rx_next_expected (s_rx ?srv) = 0"
    "rx_received_bits (s_rx ?srv) = 0" "s_conn_id ?srv = 3"
    by (simp_all add: assign_conn_id_def Session_def default_rx_def)
  note s = server_receives_syn [OF srv(1-4) refl, of default_transport 0 5 default_rx 2]
  have "\<exists>d c' pv. poll_tx default_transport 9 ?c = (Some d, c') \<and> decode d = Some pv \<and>
      h_conn_id (pv_header pv) = 0 \<and> h_channel_id (pv_header pv) = sr_channel_id
        \<lparr>sr_channel_id = 1, sr_channel_type = ReliableOrdered, sr_payload = [42]\<rparr> \<and>
      h_channel_type (pv_header pv) = sr_channel_type
        \<lparr>sr_channel_id = 1, sr_channel_type = ReliableOrdered, sr_payload = [42]\<rparr> \<and>
      pv_payload pv = sr_payload
        \<lparr>sr_channel_id = 1, sr_channel_type = ReliableOrdered, sr_payload = [42]\<rparr> \<and>
      s_connection_state (on_datagram_received default_transport d 10 ?s) = Reset"
  proof (rule early_data_aborts_handshake [where queue = "[]"])
    show "\<forall>p \<in> set (tx_inflight (s_tx ?c)). retransmit_idle default_transport 9 p"
      by (simp add: c1 queue_send_def queue_app_data_def first_send_entry_def retransmit_idle_def
          retransmit_exhausted_def retransmit_due_def retransmit_timeout_for_def default_transport_def)
    show "\<not> reliable_window_full (s_tx ?c)"
      by (simp add: c1 queue_send_def queue_app_data_def reliable_window_full_def Session_def
          kReliableWindowSize_def)
  qed (use c1 s srv in \<open>simp_all add: queue_send_def queue_app_data_def copy_payload_def Session_def
      default_probe_def named_channel_def\<close>)
  then obtain d c' pv where "poll_tx default_transport 9 ?c = (Some d, c')" "decode d = Some pv"
    "h_conn_id (pv_header pv) = 0" "pv_payload pv = [42]"
    "s_connection_state (on_datagram_received default_transport d 10 ?s) = Reset" by auto
  then show ?thesis using p1 c1(1,6) by (intro exI conjI) (assumption | simp)+
qed

end
