(* ===== verification/Session_Exchange.thy ===== *)
theory Session_Exchange
  imports Session_Handshake
begin

text \<open>
  One message over an established connection, end to end: the sender's poll, the receiver's delivery,
  the receiver's delayed acknowledgement and what it does to the sender.
\<close>

section \<open>Sending\<close>

definition data_header :: "u32 \<Rightarrow> u32 \<Rightarrow> u32 \<Rightarrow> ChannelType \<Rightarrow> RxSessionState \<Rightarrow> Header" where
  "data_header conn_id seq channel t rx =
     default_header\<lparr>h_conn_id := conn_id, h_seq := seq, h_ack := rx_next_expected rx,
       h_ack_bits := rx_received_bits rx, h_channel_id := channel, h_channel_type := t\<rparr>"

lemma data_header_fields [simp]:
  "h_conn_id (data_header c q ch t rx) = c" "h_seq (data_header c q ch t rx) = q"
  "h_ack (data_header c q ch t rx) = rx_next_expected rx"
  "h_ack_bits (data_header c q ch t rx) = rx_received_bits rx"
  "h_flags (data_header c q ch t rx) = 0" "h_channel_type (data_header c q ch t rx) = t"
  "h_channel_id (data_header c q ch t rx) = ch"
  by (simp_all add: data_header_def default_header_def)

lemma data_header_valid: "isReliableChannel t \<Longrightarrow> isValidHeader (data_header c q ch t rx)"
  by (auto simp: data_header_def default_header_def isValidHeader_def isReliableChannel_def)

lemma data_header_kind [simp]: "classify_control_kind (data_header c q ch t rx) = KindNone"
  by (simp add: classify_control_kind_def hasFlag_def Let_def)

text \<open>An established session with nothing to do at time \<open>now\<close>, everything it sent acknowledged.\<close>

definition idle_session :: "TransportSettings \<Rightarrow> u64 \<Rightarrow> SessionState \<Rightarrow> bool" where
  "idle_session cfg now s \<longleftrightarrow>
     s_connection_state s = Established \<and> \<not> should_timeout_idle_session cfg s now \<and>
     schedule_pending_tx_work cfg now s = s \<and> \<not> tx_final_ack_pending (s_tx s) \<and>
     tx_inflight (s_tx s) = [] \<and> tx_pending_send (s_tx s) = [] \<and> \<not> tx_ack_only_pending (s_tx s) \<and>
     \<not> pb_ping_pending (tx_probe (s_tx s)) \<and> \<not> pb_pong_pending (tx_probe (s_tx s)) \<and>
     tx_remote_ack (s_tx s) = tx_next_seq (s_tx s)"

text \<open>
  A session of which no timer has run out at time \<open>now\<close> and which has nothing to send before its next
  message.
\<close>

definition quiet :: "TransportSettings \<Rightarrow> u64 \<Rightarrow> SessionState \<Rightarrow> bool" where
  "quiet cfg now s \<longleftrightarrow>
     s_connection_state s = Established \<and> \<not> should_timeout_idle_session cfg s now \<and>
     \<not> should_schedule_reliable_ack s now \<and> \<not> should_schedule_activity_ack cfg s now \<and>
     \<not> should_schedule_probe cfg s now \<and> \<not> tx_final_ack_pending (s_tx s) \<and>
     \<not> tx_ack_only_pending (s_tx s) \<and> \<not> pb_ping_pending (tx_probe (s_tx s)) \<and>
     \<not> pb_pong_pending (tx_probe (s_tx s))"

lemma idle_quiet:
  assumes "idle_session cfg now s"
  shows "quiet cfg now s"
proof -
  have "schedule_pending_tx_work cfg now s = s" "\<not> tx_ack_only_pending (s_tx s)"
    "\<not> pb_ping_pending (tx_probe (s_tx s))" using assms by (simp_all add: idle_session_def)
  then have "\<not> should_schedule_reliable_ack s now" "\<not> should_schedule_activity_ack cfg s now"
    "\<not> should_schedule_probe cfg s now"
    by (auto simp: schedule_pending_tx_work_def dest: arg_cong [of _ _ "\<lambda>s. tx_ack_only_pending (s_tx s)"]
      arg_cong [of _ _ "\<lambda>s. pb_ping_pending (tx_probe (s_tx s))"] split: if_splits)
  then show ?thesis using assms by (simp add: idle_session_def quiet_def)
qed

lemma quiet_queue_send [simp]: "quiet cfg now (queue_send ch t p s) = quiet cfg now s"
  by (simp add: quiet_def should_timeout_idle_session_def should_schedule_reliable_ack_def
      should_schedule_activity_ack_def should_schedule_probe_def queue_send_def queue_app_data_def)

lemma queue_send_fields [simp]:
  "s_role (queue_send ch t p s) = s_role s" "s_conn_id (queue_send ch t p s) = s_conn_id s"
  "s_rx (queue_send ch t p s) = s_rx s" "s_last_rx_ms (queue_send ch t p s) = s_last_rx_ms s"
  "tx_inflight (s_tx (queue_send ch t p s)) = tx_inflight (s_tx s)"
  "tx_next_seq (s_tx (queue_send ch t p s)) = tx_next_seq (s_tx s)"
  "tx_remote_ack (s_tx (queue_send ch t p s)) = tx_remote_ack (s_tx s)"
  "tx_pending_send (s_tx (queue_send ch t p s)) =
     tx_pending_send (s_tx s) @ [\<lparr>sr_channel_id = ch, sr_channel_type = t, sr_payload = p\<rparr>]"
  by (simp_all add: queue_send_def queue_app_data_def copy_payload_def)

lemma retransmit_loop_idle:
  "\<forall>p \<in> set m. retransmit_idle cfg now p \<Longrightarrow> retransmit_loop cfg now rx m = (default_poll_result, m)"
  by (simp add: retransmit_loop_exact dropWhile_eq_Nil_conv [THEN iffD2])

lemma sends_fresh:
  assumes "quiet cfg now s" and "\<forall>p \<in> set (tx_inflight (s_tx s)). retransmit_idle cfg now p"
    and "tx_pending_send (s_tx s) = r # rs" and "isReliableChannel (sr_channel_type r)"
    and "\<not> reliable_window_full (s_tx s)" and "tx_next_seq (s_tx s) = n"
    and "h = data_header (s_conn_id s) n (sr_channel_id r) (sr_channel_type r) (s_rx s)"
    and "poll_tx cfg now s = (out, s')"
  shows "out = Some (encode h (sr_payload r))"
    and "tx_inflight (s_tx s') = map_emplace n
      (first_send_entry \<lparr>op_header = h, op_payload = sr_payload r\<rparr> now) (tx_inflight (s_tx s))"
    and "s_role s' = s_role s" and "s_conn_id s' = s_conn_id s" and "s_rx s' = s_rx s"
    and "s_last_rx_ms s' = s_last_rx_ms s" and "tx_next_seq (s_tx s') = n + 1"
    and "tx_remote_ack (s_tx s') = tx_remote_ack (s_tx s)" and "tx_pending_send (s_tx s') = rs"
    and "quiet cfg now s'"
proof -
  let ?e = "first_send_entry \<lparr>op_header = h, op_payload = sr_payload r\<rparr> now"
  define tx where "tx = (s_tx s)\<lparr>tx_pending_send := rs, tx_next_seq := n + 1,
      tx_inflight := map_emplace n ?e (tx_inflight (s_tx s))\<rparr>"
  note q = assms(1) [unfolded quiet_def]
  have hh: "default_header\<lparr>h_conn_id := s_conn_id s, h_channel_id := sr_channel_id r,
      h_channel_type := sr_channel_type r, h_ack := rx_next_expected (s_rx s),
      h_ack_bits := rx_received_bits (s_rx s), h_seq := n\<rparr> = h"
    by (simp add: assms(7) data_header_def default_header_def)
  have v: "isValidHeader h" "classify_control_kind h = KindNone" "h_seq h = n"
    using data_header_valid [OF assms(4)] by (simp_all add: assms(7))
  have "\<not> reliable_window_full ((s_tx s)\<lparr>tx_pending_send := rs\<rparr>)"
    using assms(5) by (simp add: reliable_window_full_def)
  then have f: "try_build_fresh now (s_conn_id s) (s_rx s) (s_tx s) = (Some (encode h (sr_payload r)), tx)"
    using assms(3,4,6) by (simp add: try_build_fresh_def Let_def make_packet_from_request_def hh v tx_def)
  have "try_build_retransmit cfg now (s_rx s) (s_tx s) = (default_poll_result, s_tx s)"
    by (simp add: try_build_retransmit_def retransmit_loop_idle [OF assms(2)])
  then have p: "poll cfg now (s_role s) (s_conn_id s) Established (s_rx s) (s_tx s) =
      (make_poll_result (Some (encode h (sr_payload r))) False, Established, tx)"
    using q f by (simp add: poll_def try_build_handshake_def default_poll_result_def
        try_build_probe_lane_def try_build_ack_only_def)
  have w: "schedule_pending_tx_work cfg now s = s" using q by (simp add: schedule_pending_tx_work_def)
  have o: "out = Some (encode h (sr_payload r))"
    "s' = apply_outbound_result (encode h (sr_payload r)) now False (s\<lparr>s_connection_state := Established, s_tx := tx\<rparr>)"
    using assms(8) q w p by (simp_all add: poll_tx_def make_poll_result_def Let_def)
  show "out = Some (encode h (sr_payload r))" by (rule o)
  note out = o(2) [unfolded apply_outbound_result_def, simplified decode_encode_valid [OF v(1)],
      simplified v update_outbound_probe_state_def record_outbound_stats_def clear_outbound_ack_state_def Let_def,
      simplified]
  show "tx_inflight (s_tx s') = map_emplace n ?e (tx_inflight (s_tx s))"
    "s_role s' = s_role s" "s_conn_id s' = s_conn_id s" "s_rx s' = s_rx s"
    "s_last_rx_ms s' = s_last_rx_ms s" "tx_next_seq (s_tx s') = n + 1"
    "tx_remote_ack (s_tx s') = tx_remote_ack (s_tx s)" "tx_pending_send (s_tx s') = rs"
    by (simp_all add: out v tx_def)
  have "should_timeout_idle_session cfg s' now = should_timeout_idle_session cfg s now"
    "should_schedule_reliable_ack s' now = should_schedule_reliable_ack s now"
    "\<not> should_schedule_activity_ack cfg s' now"
    "should_schedule_probe cfg s' now = should_schedule_probe cfg s now"
    using q by (simp_all add: out v tx_def should_timeout_idle_session_def should_schedule_reliable_ack_def
        should_schedule_activity_ack_def should_schedule_probe_def)
  then show "quiet cfg now s'" using q unfolding quiet_def by (simp add: out v tx_def)
qed

lemma sends_message:
  assumes "idle_session cfg now a" and "isReliableChannel t" and "tx_next_seq (s_tx a) = n"
    and "h = data_header (s_conn_id a) n ch t (s_rx a)"
    and "poll_tx cfg now (queue_send ch t payload a) = (out, a')"
  shows "out = Some (encode h payload)"
    and "tx_inflight (s_tx a') = [(n, first_send_entry \<lparr>op_header = h, op_payload = payload\<rparr> now)]"
    and "s_role a' = s_role a" and "s_conn_id a' = s_conn_id a" and "s_connection_state a' = Established"
    and "tx_next_seq (s_tx a') = n + 1" and "tx_pending_send (s_tx a') = []"
    and "s_rx a' = s_rx a" and "s_last_rx_ms a' = s_last_rx_ms a" and "\<not> tx_final_ack_pending (s_tx a')"
proof -
  let ?q = "queue_send ch t payload a" and ?r = "\<lparr>sr_channel_id = ch, sr_channel_type = t, sr_payload = payload\<rparr>"
  have i: "tx_inflight (s_tx a) = []" "tx_pending_send (s_tx a) = []" "tx_remote_ack (s_tx a) = n"
    using assms(1,3) by (auto simp: idle_session_def)
  have p: "quiet cfg now ?q" "\<forall>p \<in> set (tx_inflight (s_tx ?q)). retransmit_idle cfg now p"
    "tx_pending_send (s_tx ?q) = [?r]" "isReliableChannel (sr_channel_type ?r)"
    "\<not> reliable_window_full (s_tx ?q)" "tx_next_seq (s_tx ?q) = n"
    "h = data_header (s_conn_id ?q) n (sr_channel_id ?r) (sr_channel_type ?r) (s_rx ?q)"
    using assms(2-4) i idle_quiet [OF assms(1)]
    by (simp_all add: reliable_window_full_def kReliableWindowSize_def)
  note f = sends_fresh [OF p assms(5)]
  show "out = Some (encode h payload)" "s_role a' = s_role a" "s_conn_id a' = s_conn_id a"
    "tx_next_seq (s_tx a') = n + 1" "tx_pending_send (s_tx a') = []"
    "s_rx a' = s_rx a" "s_last_rx_ms a' = s_last_rx_ms a" using f by simp_all
  show "tx_inflight (s_tx a') = [(n, first_send_entry \<lparr>op_header = h, op_payload = payload\<rparr> now)]"
    using f(2) i(1) by (simp add: map_emplace_def map_find_def)
  show "s_connection_state a' = Established" "\<not> tx_final_ack_pending (s_tx a')"
    using f(10) by (simp_all add: quiet_def)
qed

section \<open>Receiving\<close>

text \<open>
  A receiver at the front of whose window the message arrives, with nothing waiting before it and, on the
  ordered channel, nothing undelivered before it.
\<close>

definition ready_receiver :: "ChannelType \<Rightarrow> u32 \<Rightarrow> RxSessionState \<Rightarrow> bool" where
  "ready_receiver t n rx \<longleftrightarrow> rx_next_expected rx = n \<and> n \<noteq> 0 \<and> rx_received_bits rx = 0 \<and>
     (t = ReliableOrdered \<longrightarrow> rx_ordered_reorder_buffer rx = [] \<and>
       (rx_ordered_delivery_started rx \<longrightarrow> rx_next_ordered_delivery rx = n))"

lemma owned_data_event_make: "owned_data_event (make_owned_packet pv) = make_data_event pv"
  by (simp add: owned_data_event_def make_owned_packet_def make_data_event_def)

lemma delivers_in_order:
  assumes "ready_receiver t n rx" and "isReliableChannel t" and "h_channel_type (pv_header pv) = t"
    and "h_seq (pv_header pv) = n" and "on_packet pv now KindNone rx = (r, rx')"
  shows "rr_schedule_ack_only r" and "rx_pending_events rx' = rx_pending_events rx @ [make_data_event pv]"
    and "rx_next_expected rx' = n + 1" and "rx_received_bits rx' = 0"
    and "n + 1 \<noteq> 0 \<Longrightarrow> ready_receiver t (n + 1) rx'"
proof -
  have rx: "rx_next_expected rx = n" "n \<noteq> 0" "rx_received_bits rx = 0"
    using assms(1) by (auto simp: ready_receiver_def)
  have tr: "tracks_reliable pv KindNone" using assms(2,3) by (simp add: tracks_reliable_def)
  let ?rx = "rx\<lparr>rx_next_expected := n + 1\<rparr>"
  have adv: "advance_receive_window rx = ?rx"
    using rx by (simp add: advance_receive_window_def advance_receive_loop.simps)
  have u: "update_reliable_receive_state pv KindNone r0 rx = (True, tracked_result pv KindNone r0, ?rx)" for r0
    using update_in_order [OF tr, of rx] rx assms(4) by (simp add: adv)
  have o: "on_packet pv now KindNone rx = (tracked_result pv KindNone \<lparr>rr_schedule_ack_only = False\<rparr>,
      deliver_payload pv ?rx)"
    by (simp add: on_packet_def u is_control_only_def)
  have d: "rx_pending_events (deliver_payload pv ?rx) = rx_pending_events rx @ [make_data_event pv] \<and>
      rx_next_expected (deliver_payload pv ?rx) = n + 1 \<and> rx_received_bits (deliver_payload pv ?rx) = 0 \<and>
      (n + 1 \<noteq> 0 \<longrightarrow> ready_receiver t (n + 1) (deliver_payload pv ?rx))"
  proof (cases "t = ReliableOrdered")
    case True
    then have "rx_ordered_reorder_buffer rx = []" "rx_ordered_delivery_started rx \<Longrightarrow> rx_next_ordered_delivery rx = n"
      using assms(1) by (simp_all add: ready_receiver_def)
    then show ?thesis using rx assms(3,4) True
      by (cases "rx_ordered_delivery_started rx")
        (simp_all add: deliver_payload_def handle_reliable_ordered_def ensure_ordered_delivery_started_def
          drain_contiguous_ordered_def drain_contiguous_loop.simps map_find_def map_erase_def
          owned_data_event_make Let_def ready_receiver_def)
  next
    case False
    then have "h_channel_type (pv_header pv) = ReliableUnordered"
      using assms(2,3) by (simp add: isReliableChannel_def)
    then show ?thesis using rx False
      by (simp add: deliver_payload_def handle_reliable_unordered_def push_event_def ready_receiver_def)
  qed
  show "rr_schedule_ack_only r" using assms(2,3,5) o by auto
  show "rx_pending_events rx' = rx_pending_events rx @ [make_data_event pv]" "rx_next_expected rx' = n + 1"
    "rx_received_bits rx' = 0" "n + 1 \<noteq> 0 \<Longrightarrow> ready_receiver t (n + 1) rx'" using assms(5) o d by auto
qed

lemma no_transition: "decide_connection_transition role Established KindNone = default_decision"
  "decide_connection_transition role Established KindAck = default_decision"
  by simp_all

lemma apply_no_decision [simp]: "apply_connection_decision pv default_decision s = s"
  by (simp add: apply_connection_decision_def default_decision_def emit_connection_decision_events_def Let_def)

text \<open>A packet of the session's own connection other than a handshake packet gets past all early returns.\<close>

lemma own_packet_processed:
  assumes "isValidHeader h" and "h_conn_id h = s_conn_id s" and "classify_control_kind h = kind"
    and "kind \<in> {KindNone, KindAck, KindFin}"
  shows "on_datagram_received cfg (encode h p) now s = process_packet cfg \<lparr>pv_header = h, pv_payload = p\<rparr> kind now
    (record_received_stats kind (length (encode h p)) now s)"
proof -
  let ?s = "record_received_stats kind (length (encode h p)) now s"
  have "\<not> should_adopt_server_conn_id ?s kind h" "\<not> has_conn_id_mismatch ?s kind h"
    "\<not> is_duplicate_client_syn_ack ?s kind"
    using assms(2,4) by (auto simp: should_adopt_server_conn_id_def has_conn_id_mismatch_def
        is_duplicate_client_syn_ack_def received_identity frame_simps)
  then show ?thesis using assms(1,3) by (simp add: on_datagram_received_def decode_encode_valid Let_def)
qed

lemma accepted_packet:
  assumes "isValidHeader h" and "h_conn_id h = s_conn_id s" and "s_connection_state s = Established"
    and "classify_control_kind h = kind" and "kind = KindNone \<or> kind = KindAck"
    and "tx_inflight (s_tx s) = [] \<or> \<not> (\<exists>p \<in> set (tx_inflight (s_tx s)). hasFlag (op_header (te_packet (snd p))) FlagFin)"
    and "on_packet \<lparr>pv_header = h, pv_payload = p\<rparr> now kind (s_rx s) = (r, rx')"
    and "s' = on_datagram_received cfg (encode h p) now s"
  shows "s_rx s' = rx'" and "s_role s' = s_role s" and "s_conn_id s' = s_conn_id s"
    and "s_connection_state s' = Established" and "s_last_rx_ms s' = now"
    and "s_tx s' = s_tx (schedule_receive_side_ack cfg \<lparr>pv_header = h, pv_payload = p\<rparr> kind r now
      (update_post_receive_liveness kind
        (s\<lparr>s_tx := snd (on_remote_ack cfg (h_ack h) (h_ack_bits h) (s_tx s))\<rparr>)))"
proof -
  let ?pv = "\<lparr>pv_header = h, pv_payload = p\<rparr>"
  let ?s = "record_received_stats kind (length (encode h p)) now s"
  have id: "s_role ?s = s_role s" "s_conn_id ?s = s_conn_id s" "s_connection_state ?s = Established"
    "s_tx ?s = s_tx s" "s_rx ?s = s_rx s" "s_last_rx_ms ?s = now"
    using assms(3) by (simp_all add: frame_simps received_identity)
  have s': "s' = process_packet cfg ?pv kind now ?s"
    unfolding assms(8) by (rule own_packet_processed [OF assms(1,2,4)]) (use assms(5) in auto)
  obtain ar tx where ack: "on_remote_ack cfg (h_ack h) (h_ack_bits h) (s_tx s) = (ar, tx)" by fastforce
  have fin: "\<not> ar_acknowledged_fin ar" using ack assms(6) by (auto simp: on_remote_ack_eq)
  have probe: "handle_probe_receive kind now ?s = ?s" using assms(5) by (auto simp: handle_probe_receive_def)
  have dec: "decide_connection_transition (s_role s) Established kind = default_decision"
    using assms(5) by auto
  have eq: "s' = schedule_receive_side_ack cfg ?pv kind r now (update_post_receive_liveness kind
      (?s\<lparr>s_tx := tx, s_rx := rx'\<rparr>))"
    using assms(5,7) unfolding s' process_packet_def Let_def probe
    by (auto simp: apply_remote_ack_def should_apply_remote_ack_def id ack fin dec
        should_close_after_fin_acknowledgement_def)
  show "s_rx s' = rx'" by (simp add: eq schedule_receive_side_ack_def update_post_receive_liveness_def)
  show "s_role s' = s_role s" "s_conn_id s' = s_conn_id s"
    "s_connection_state s' = Established" "s_last_rx_ms s' = now"
    using assms(3) by (simp_all add: eq frame_simps)
  show "s_tx s' = s_tx (schedule_receive_side_ack cfg ?pv kind r now (update_post_receive_liveness kind
        (s\<lparr>s_tx := snd (on_remote_ack cfg (h_ack h) (h_ack_bits h) (s_tx s))\<rparr>)))"
    using id assms(3) by (simp add: eq ack schedule_receive_side_ack_def update_post_receive_liveness_def)
qed

text \<open>An established session with no packet of its own under way and no control packet to send at once.\<close>

definition listening :: "SessionState \<Rightarrow> bool" where
  "listening b \<longleftrightarrow> s_connection_state b = Established \<and> tx_inflight (s_tx b) = [] \<and>
     \<not> tx_final_ack_pending (s_tx b) \<and> \<not> tx_ack_only_pending (s_tx b) \<and>
     \<not> pb_ping_pending (tx_probe (s_tx b)) \<and> \<not> pb_pong_pending (tx_probe (s_tx b))"

lemma idle_listening: "idle_session cfg now b \<Longrightarrow> listening b"
  by (simp add: idle_session_def listening_def)

text \<open>It owes an acknowledgement for what arrived last, at \<open>now\<close>.\<close>

definition owes_ack :: "TransportSettings \<Rightarrow> u64 \<Rightarrow> SessionState \<Rightarrow> bool" where
  "owes_ack cfg now b \<longleftrightarrow> listening b \<and> s_last_rx_ms b = now \<and> tx_reliable_ack_pending (s_tx b) \<and>
     tx_reliable_ack_due_ms (s_tx b) = now + reliable_ack_delay_ms cfg"

definition data_event :: "u32 \<Rightarrow> u32 \<Rightarrow> ChannelType \<Rightarrow> bytes \<Rightarrow> SessionEvent" where
  "data_event n ch t payload = \<lparr>ev_type = DataReceived, ev_seq = n, ev_channel_id = ch, ev_channel_type = t,
     ev_payload = payload, ev_error_message = []\<rparr>"

lemma received_data:
  assumes "listening b" and "isReliableChannel t" and "h = data_header (s_conn_id b) n ch t rx"
    and "on_packet \<lparr>pv_header = h, pv_payload = payload\<rparr> now KindNone (s_rx b) = (r, rx')"
    and "rr_schedule_ack_only r" and "b' = on_datagram_received cfg (encode h payload) now b"
  shows "s_rx b' = rx'" and "s_conn_id b' = s_conn_id b" and "owes_ack cfg now b'"
proof -
  note l = assms(1) [unfolded listening_def]
  have h: "isValidHeader h" "h_conn_id h = s_conn_id b" "classify_control_kind h = KindNone"
    "isReliableChannel (h_channel_type h)"
    using data_header_valid [OF assms(2)] assms(2) by (simp_all add: assms(3))
  have k: "KindNone = KindNone \<or> KindNone = KindAck" by simp
  have f: "tx_inflight (s_tx b) = [] \<or>
    \<not> (\<exists>p \<in> set (tx_inflight (s_tx b)). hasFlag (op_header (te_packet (snd p))) FlagFin)" using l by simp
  have e: "s_connection_state b = Established" using l by simp
  note a = accepted_packet [OF h(1,2) e h(3) k f assms(4,6)]
  show "s_rx b' = rx'" "s_conn_id b' = s_conn_id b" by (rule a)+
  have tx: "s_tx b' = (snd (on_remote_ack cfg (h_ack h) (h_ack_bits h) (s_tx b)))\<lparr>tx_activity_ack_pending := True,
      tx_reliable_ack_pending := True, tx_reliable_ack_due_ms := now + reliable_ack_delay_ms cfg\<rparr>"
    using a(6) assms(5) h(4) e by (simp add: schedule_receive_side_ack_def update_post_receive_liveness_def)
  show "owes_ack cfg now b'"
    using l a(4,5) by (simp add: owes_ack_def listening_def tx on_remote_ack_eq acknowledged_inflight_def)
qed

lemma receives_message:
  assumes "listening b" and "ready_receiver t n (s_rx b)" and "isReliableChannel t"
    and "h = data_header (s_conn_id b) n ch t rx" and "b' = on_datagram_received cfg (encode h payload) now b"
  shows "rx_pending_events (s_rx b') = rx_pending_events (s_rx b) @ [data_event n ch t payload]"
    and "rx_next_expected (s_rx b') = n + 1" and "rx_received_bits (s_rx b') = 0"
    and "n + 1 \<noteq> 0 \<Longrightarrow> ready_receiver t (n + 1) (s_rx b')"
    and "s_conn_id b' = s_conn_id b" and "owes_ack cfg now b'"
proof -
  let ?pv = "\<lparr>pv_header = h, pv_payload = payload\<rparr>"
  obtain r rx' where o: "on_packet ?pv now KindNone (s_rx b) = (r, rx')" by fastforce
  have h: "h_channel_type (pv_header ?pv) = t" "h_seq (pv_header ?pv) = n" by (simp_all add: assms(4))
  note d = delivers_in_order [OF assms(2,3) h o]
  note a = received_data [OF assms(1,3,4) o d(1) assms(5)]
  show "rx_pending_events (s_rx b') = rx_pending_events (s_rx b) @ [data_event n ch t payload]"
    using d(2) by (simp add: a(1) make_data_event_def data_event_def assms(4))
  show "rx_next_expected (s_rx b') = n + 1" "rx_received_bits (s_rx b') = 0"
    "n + 1 \<noteq> 0 \<Longrightarrow> ready_receiver t (n + 1) (s_rx b')" "s_conn_id b' = s_conn_id b" "owes_ack cfg now b'"
    using d a by simp_all
qed

text \<open>A further copy of the message is answered and otherwise dropped.\<close>

lemma copy_dropped:
  assumes "listening b" and "isReliableChannel t" and "rx_next_expected (s_rx b) = n + 1" and "n + 1 \<noteq> 0"
    and "h = data_header (s_conn_id b) n ch t rx" and "b' = on_datagram_received cfg (encode h payload) now b"
  shows "s_rx b' = s_rx b" and "s_conn_id b' = s_conn_id b" and "owes_ack cfg now b'"
proof -
  let ?pv = "\<lparr>pv_header = h, pv_payload = payload\<rparr>"
  have t: "tracks_reliable ?pv KindNone" using assms(2) by (simp add: tracks_reliable_def assms(5))
  have "n - (n + 1) = (- 1 :: u32)" by simp
  then have "64 < unat (h_seq (pv_header ?pv) - rx_next_expected (s_rx b))"
    using assms(3) by (simp add: assms(5) unsigned_minus_1_eq_mask mask_eq_exp_minus_1)
  from update_rejected [OF t _ this]
  have o: "on_packet ?pv now KindNone (s_rx b) = (tracked_result ?pv KindNone \<lparr>rr_schedule_ack_only = False\<rparr>, s_rx b)"
    using assms(3,4) by (simp add: on_packet_def)
  have "rr_schedule_ack_only (tracked_result ?pv KindNone \<lparr>rr_schedule_ack_only = False\<rparr>)"
    using assms(2) by (simp add: assms(5))
  note a = received_data [OF assms(1,2,5) o this assms(6)]
  show "s_rx b' = s_rx b" "s_conn_id b' = s_conn_id b" "owes_ack cfg now b'" by (rule a)+
qed

section \<open>Acknowledging\<close>

lemma acknowledges_message:
  assumes "owes_ack cfg t b" and "t + reliable_ack_delay_ms cfg \<le> now" and "now < t + idle_timeout_ms cfg"
    and "h = control_header (s_conn_id b) 0 (flag_value FlagAck) (s_rx b)"
    and "poll_tx cfg now b = (out, b')"
  shows "out = Some (encode h [])" and "s_rx b' = s_rx b" and "\<not> tx_reliable_ack_pending (s_tx b')"
proof -
  note o = assms(1) [unfolded owes_ack_def listening_def]
  let ?q = "schedule_pending_tx_work cfg now b"
  have t: "\<not> should_timeout_idle_session cfg b now"
    using assms(3) o by (simp add: should_timeout_idle_session_def not_le)
  have q: "?q = b\<lparr>s_tx := (s_tx b)\<lparr>tx_ack_only_pending := True, tx_reliable_ack_pending := False\<rparr>\<rparr>"
    using assms(2) o by (simp add: schedule_pending_tx_work_def should_schedule_reliable_ack_def)
  have hh: "default_header\<lparr>h_conn_id := s_conn_id b, h_flags := flag_value FlagAck, h_channel_type := Unreliable,
      h_ack := rx_next_expected (s_rx b), h_ack_bits := rx_received_bits (s_rx b)\<rparr> = h"
    by (simp add: assms(4) control_header_def default_header_def)
  have v: "isValidHeader h" "classify_control_kind h = KindAck"
    by (simp_all add: assms(4) control_header_kind del: flag_value.simps) simp
  obtain tx where p: "poll cfg now (s_role b) (s_conn_id b) Established (s_rx b) (s_tx ?q) =
      (make_poll_result (Some (encode h [])) False, Established, tx)"
    using assms(2) o by (simp add: q poll_def try_build_handshake_def try_build_retransmit_def default_poll_result_def
        try_build_probe_lane_def try_build_ack_only_def hh Let_def del: flag_value.simps)
  show "out = Some (encode h [])" "s_rx b' = s_rx b" "\<not> tx_reliable_ack_pending (s_tx b')"
    using assms(5) o t p v by (auto simp: poll_tx_def make_poll_result_def frame_simps
      apply_outbound_result_def decode_encode_valid update_outbound_probe_state_def
      record_outbound_stats_def clear_outbound_ack_state_def Let_def)
qed

text \<open>Every packet in flight is one of the \<open>k\<close> messages sent from number \<open>n\<close> on.\<close>

definition sent_messages :: "u32 \<Rightarrow> nat \<Rightarrow> SessionState \<Rightarrow> bool" where
  "sent_messages n k a \<longleftrightarrow> (\<forall>p \<in> set (tx_inflight (s_tx a)).
     (\<exists>i < k. fst p = n + of_nat i) \<and> \<not> hasFlag (op_header (te_packet (snd p))) FlagFin)"

lemma acknowledge_behind:
  assumes "i < k" and "k \<le> 64"
  shows "is_acknowledged_by_remote (n + of_nat i) (n + of_nat k) bits"
proof -
  have "n + of_nat k - (n + of_nat i) = (of_nat (k - i) :: u32)" using assms(1) by (simp add: of_nat_diff)
  moreover have "unat (of_nat (k - i) :: u32) = k - i"
    using assms(2) by (simp add: unat_of_nat take_bit_nat_eq_self)
  ultimately have d: "unat (n + of_nat k - (n + of_nat i)) = k - i" by simp
  moreover from d assms(1) have "n + of_nat k \<noteq> n + of_nat i" by auto
  ultimately have "2147483648 \<le> unat (n + of_nat i - (n + of_nat k))"
    using assms unat_minus_swap [of "n + of_nat k" "n + of_nat i"] by linarith
  then show ?thesis by (simp only: acknowledged_dist simp_thms)
qed

lemma ack_reaches_sender:
  assumes "s_connection_state a = Established" and "s_conn_id a = c" and "sent_messages n k a" and "k \<le> 64"
    and "rx_next_expected rx = n + of_nat k" and "rx_received_bits rx = 0"
    and "a' = on_datagram_received cfg (encode (control_header c 0 (flag_value FlagAck) rx) []) now a"
  shows "s_connection_state a' = Established" and "tx_inflight (s_tx a') = []"
    and "tx_remote_ack (s_tx a') = n + of_nat k" and "tx_next_seq (s_tx a') = tx_next_seq (s_tx a)"
    and "tx_pending_send (s_tx a') = tx_pending_send (s_tx a)"
proof -
  let ?h = "control_header c 0 (flag_value FlagAck) rx"
  let ?pv = "\<lparr>pv_header = ?h, pv_payload = []\<rparr>"
  have h: "isValidHeader ?h" "h_conn_id ?h = s_conn_id a" "classify_control_kind ?h = KindAck"
    using assms(2) by (simp_all add: control_header_kind del: flag_value.simps) simp
  obtain r rx' where o: "on_packet ?pv now KindAck (s_rx a) = (r, rx')" by fastforce
  then have nr: "\<not> rr_schedule_ack_only r"
    using update_result [of ?pv KindAck "\<lparr>rr_schedule_ack_only = False\<rparr>" "s_rx a"]
    by (auto simp: on_packet_def is_control_only_def isReliableChannel_def split: prod.splits if_splits)
  have k: "KindAck = KindNone \<or> KindAck = KindAck" by simp
  have f: "tx_inflight (s_tx a) = [] \<or>
    \<not> (\<exists>p \<in> set (tx_inflight (s_tx a)). hasFlag (op_header (te_packet (snd p))) FlagFin)"
    using assms(3) by (simp add: sent_messages_def)
  note r = accepted_packet [OF h(1,2) assms(1) h(3) k f o assms(7)]
  have e: "acknowledged_inflight cfg (n + of_nat k) 0 (tx_inflight (s_tx a)) = []"
    using assms(3) acknowledge_behind [OF _ assms(4), of _ n 0]
    by (auto simp: acknowledged_inflight_def sent_messages_def filter_empty_conv)
  show "s_connection_state a' = Established" using r by simp
  show "tx_inflight (s_tx a') = []" "tx_remote_ack (s_tx a') = n + of_nat k"
    "tx_next_seq (s_tx a') = tx_next_seq (s_tx a)" "tx_pending_send (s_tx a') = tx_pending_send (s_tx a)"
    using r(6) nr assms(5,6) e
    by (simp_all add: schedule_receive_side_ack_def update_post_receive_liveness_def on_remote_ack_eq)
qed

section \<open>Streams\<close>

text \<open>
  Messages are pairs of a channel id and a payload. The application queues them one after the other; the
  session is polled at a list of times; datagrams arrive with their times.
\<close>

primrec queue_all :: "ChannelType \<Rightarrow> (u32 \<times> bytes) list \<Rightarrow> SessionState \<Rightarrow> SessionState" where
  "queue_all t [] s = s"
| "queue_all t (m # ms) s = queue_all t ms (queue_send (fst m) t (snd m) s)"

primrec poll_times :: "TransportSettings \<Rightarrow> u64 list \<Rightarrow> SessionState \<Rightarrow> bytes option list \<times> SessionState" where
  "poll_times cfg [] s = ([], s)"
| "poll_times cfg (now # later) s =
     (let (out, s) = poll_tx cfg now s; (outs, s) = poll_times cfg later s in (out # outs, s))"

primrec receive_all :: "TransportSettings \<Rightarrow> (bytes \<times> u64) list \<Rightarrow> SessionState \<Rightarrow> SessionState" where
  "receive_all cfg [] s = s"
| "receive_all cfg (d # ds) s = receive_all cfg ds (on_datagram_received cfg (fst d) (snd d) s)"

primrec stream_datagrams ::
  "u32 \<Rightarrow> RxSessionState \<Rightarrow> ChannelType \<Rightarrow> u32 \<Rightarrow> (u32 \<times> bytes) list \<Rightarrow> bytes list"
where
  "stream_datagrams c rx t n [] = []"
| "stream_datagrams c rx t n (m # ms) =
     encode (data_header c n (fst m) t rx) (snd m) # stream_datagrams c rx t (n + 1) ms"

primrec stream_events :: "ChannelType \<Rightarrow> u32 \<Rightarrow> (u32 \<times> bytes) list \<Rightarrow> SessionEvent list" where
  "stream_events t n [] = []"
| "stream_events t n (m # ms) = data_event n (fst m) t (snd m) # stream_events t (n + 1) ms"

lemma length_stream_datagrams [simp]: "length (stream_datagrams c rx t n ms) = length ms"
  by (induction ms arbitrary: n) simp_all

lemma queue_all_fields [simp]:
  "quiet cfg now (queue_all t ms s) = quiet cfg now s"
  "s_conn_id (queue_all t ms s) = s_conn_id s" "s_rx (queue_all t ms s) = s_rx s"
  "tx_inflight (s_tx (queue_all t ms s)) = tx_inflight (s_tx s)"
  "tx_next_seq (s_tx (queue_all t ms s)) = tx_next_seq (s_tx s)"
  "tx_remote_ack (s_tx (queue_all t ms s)) = tx_remote_ack (s_tx s)"
  "tx_pending_send (s_tx (queue_all t ms s)) = tx_pending_send (s_tx s) @
     map (\<lambda>m. \<lparr>sr_channel_id = fst m, sr_channel_type = t, sr_payload = snd m\<rparr>) ms"
  by (induction ms arbitrary: s) simp_all

lemma sends_stream:
  assumes "isReliableChannel t" and "0 < max_retransmit_count cfg" and "now < now + retransmit_timeout_for cfg 0"
  shows "quiet cfg now s \<Longrightarrow> sent_messages n k s \<Longrightarrow>
    \<forall>p \<in> set (tx_inflight (s_tx s)). retransmit_idle cfg now p \<Longrightarrow>
    tx_pending_send (s_tx s) = map (\<lambda>m. \<lparr>sr_channel_id = fst m, sr_channel_type = t, sr_payload = snd m\<rparr>) ms \<Longrightarrow>
    tx_next_seq (s_tx s) = n + of_nat k \<Longrightarrow> tx_remote_ack (s_tx s) = n \<Longrightarrow> k + length ms \<le> 64 \<Longrightarrow>
    \<exists>s'. poll_times cfg (replicate (length ms) now) s =
        (map Some (stream_datagrams (s_conn_id s) (s_rx s) t (n + of_nat k) ms), s') \<and>
      sent_messages n (k + length ms) s' \<and> quiet cfg now s' \<and> s_conn_id s' = s_conn_id s \<and>
      tx_pending_send (s_tx s') = [] \<and> tx_next_seq (s_tx s') = n + of_nat (k + length ms)"
proof (induction ms arbitrary: s k)
  case (Cons m ms)
  let ?r = "\<lparr>sr_channel_id = fst m, sr_channel_type = t, sr_payload = snd m\<rparr>"
  let ?h = "data_header (s_conn_id s) (n + of_nat k) (fst m) t (s_rx s)"
  let ?e = "first_send_entry \<lparr>op_header = ?h, op_payload = snd m\<rparr> now"
  obtain out s1 where p: "poll_tx cfg now s = (out, s1)" by fastforce
  have "unat (of_nat k :: u32) = k" using Cons.prems(7) by (simp add: unat_of_nat take_bit_nat_eq_self)
  then have w: "\<not> reliable_window_full (s_tx s)"
    using Cons.prems(5-7) by (simp add: reliable_window_full_def kReliableWindowSize_def)
  have r: "isReliableChannel (sr_channel_type ?r)" "tx_pending_send (s_tx s) = ?r # map
      (\<lambda>m. \<lparr>sr_channel_id = fst m, sr_channel_type = t, sr_payload = snd m\<rparr>) ms"
    "?h = data_header (s_conn_id s) (n + of_nat k) (sr_channel_id ?r) (sr_channel_type ?r) (s_rx s)"
    using assms(1) Cons.prems(4) by simp_all
  note f = sends_fresh [OF Cons.prems(1,3) r(2,1) w Cons.prems(5) r(3) p]
  have e: "set (tx_inflight (s_tx s1)) \<subseteq> insert (n + of_nat k, ?e) (set (tx_inflight (s_tx s)))"
    unfolding f(2) using set_map_emplace_subset by fastforce
  have "retransmit_idle cfg now (n + of_nat k, ?e)" "\<not> hasFlag (op_header (te_packet ?e)) FlagFin"
    using assms(2,3) by (auto simp: retransmit_idle_def retransmit_exhausted_def retransmit_due_def
        first_send_entry_def hasFlag_def)
  then have i: "\<forall>p \<in> set (tx_inflight (s_tx s1)). retransmit_idle cfg now p" "sent_messages n (Suc k) s1"
    using e Cons.prems(2,3) unfolding sent_messages_def by (force simp: less_Suc_eq)+
  have n1: "tx_next_seq (s_tx s1) = n + of_nat (Suc k)" "tx_remote_ack (s_tx s1) = n" "Suc k + length ms \<le> 64"
    using f(7,8) Cons.prems(6,7) by (simp_all add: ac_simps)
  from Cons.IH [OF f(10) i(2,1) f(9) n1] obtain s' where
    "poll_times cfg (replicate (length ms) now) s1 =
        (map Some (stream_datagrams (s_conn_id s1) (s_rx s1) t (n + of_nat (Suc k)) ms), s')"
    "sent_messages n (Suc k + length ms) s'" "quiet cfg now s'" "s_conn_id s' = s_conn_id s1"
    "tx_pending_send (s_tx s') = []" "tx_next_seq (s_tx s') = n + of_nat (Suc k + length ms)"
    by blast
  then show ?case using p f(1,4,5) by (intro exI [of _ s']) (simp add: ac_simps)
qed (simp add: quiet_def)

lemma receives_stream:
  assumes "isReliableChannel t"
  shows "listening b \<Longrightarrow> ready_receiver t n (s_rx b) \<Longrightarrow> length ts = length ms \<Longrightarrow> ms \<noteq> [] \<Longrightarrow>
    unat n + length ms \<le> 2 ^ 32 \<Longrightarrow>
    b' = receive_all cfg (zip (stream_datagrams (s_conn_id b) rx t n ms) ts) b \<Longrightarrow>
    rx_pending_events (s_rx b') = rx_pending_events (s_rx b) @ stream_events t n ms \<and>
    rx_next_expected (s_rx b') = n + of_nat (length ms) \<and> rx_received_bits (s_rx b') = 0 \<and>
    s_conn_id b' = s_conn_id b \<and> owes_ack cfg (last ts) b'"
proof (induction ms arbitrary: n b ts)
  case (Cons m ms)
  obtain now later where t: "ts = now # later" "length later = length ms"
    using Cons.prems(3) by (cases ts) simp_all
  define b1 where "b1 = on_datagram_received cfg (encode (data_header (s_conn_id b) n (fst m) t rx) (snd m)) now b"
  note r = receives_message [OF Cons.prems(1,2) assms refl b1_def]
  have b': "b' = receive_all cfg (zip (stream_datagrams (s_conn_id b1) rx t (n + 1) ms) later) b1"
    unfolding r(5) using Cons.prems(6) by (simp add: t b1_def)
  show ?case
  proof (cases "ms = []")
    case True
    then show ?thesis using r b' t by simp
  next
    case False
    have n: "unat (n + 1) = unat n + 1" using Cons.prems(5) False
      by (cases ms) (simp_all add: unat_word_ariths)
    then have "n + 1 \<noteq> 0" by auto
    moreover have "listening b1" using r(6) by (simp add: owes_ack_def)
    moreover have "unat (n + 1) + length ms \<le> 2 ^ 32" using Cons.prems(5) n by simp
    ultimately show ?thesis using Cons.IH [OF _ _ t(2) False _ b'] r t False by (auto simp: ac_simps)
  qed
qed simp

section \<open>Properties\<close>

text \<open>
  C2. Up to 64 messages end to end over an established connection, on either reliable channel, for every
  payloads, channel ids and sequence numbers up to the wrap-around, and from either side. The sender has
  nothing else to do and everything it sent is acknowledged; the receiver expects the sender's next number
  and has no gap. The application queues the messages; as many polls at the same time yield one datagram
  each. When these arrive in order, at whatever times, the receiver's application gets exactly these
  messages, each once, in order and nothing else; the receiver's first poll after the acknowledgement delay
  yields a datagram; and its arrival empties the sender's in-flight map: none of the messages is
  retransmitted afterwards.
\<close>

theorem stream_delivered:
  assumes "idle_session cfg t1 a" and "idle_session cfg t2 b" and "s_conn_id a = s_conn_id b"
    and "isReliableChannel t" and "tx_next_seq (s_tx a) = n" and "ready_receiver t n (s_rx b)"
    and "0 < max_retransmit_count cfg" and "t1 < t1 + retransmit_timeout_for cfg 0"
    and "ms \<noteq> []" and "length ms \<le> 64" and "unat n + length ms \<le> 2 ^ 32" and "length ts = length ms"
    and "last ts + reliable_ack_delay_ms cfg \<le> t3" and "t3 < last ts + idle_timeout_ms cfg"
  shows "\<exists>ds a1 d b1.
    poll_times cfg (replicate (length ms) t1) (queue_all t ms a) = (map Some ds, a1) \<and>
    poll_tx cfg t3 (receive_all cfg (zip ds ts) b) = (Some d, b1) \<and>
    fst (drain_events b1) = fst (drain_events b) @ stream_events t n ms \<and>
    (let a2 = on_datagram_received cfg d t4 a1 in
     s_connection_state a2 = Established \<and> tx_inflight (s_tx a2) = [] \<and> tx_pending_send (s_tx a2) = [] \<and>
     tx_next_seq (s_tx a2) = n + of_nat (length ms) \<and> tx_remote_ack (s_tx a2) = n + of_nat (length ms))"
proof -
  have a: "quiet cfg t1 (queue_all t ms a)" "sent_messages n 0 (queue_all t ms a)"
    "\<forall>p \<in> set (tx_inflight (s_tx (queue_all t ms a))). retransmit_idle cfg t1 p"
    "tx_pending_send (s_tx (queue_all t ms a)) =
       map (\<lambda>m. \<lparr>sr_channel_id = fst m, sr_channel_type = t, sr_payload = snd m\<rparr>) ms"
    "tx_next_seq (s_tx (queue_all t ms a)) = n + of_nat 0" "tx_remote_ack (s_tx (queue_all t ms a)) = n"
    "0 + length ms \<le> 64"
    using assms(1,5,10) idle_quiet [OF assms(1)] by (simp_all add: idle_session_def sent_messages_def)
  let ?ds = "stream_datagrams (s_conn_id b) (s_rx a) t n ms"
  from sends_stream [OF assms(4,7,8) a] assms(3) obtain a1 where
    s: "poll_times cfg (replicate (length ms) t1) (queue_all t ms a) = (map Some ?ds, a1)"
      "sent_messages n (length ms) a1" "quiet cfg t1 a1" "s_conn_id a1 = s_conn_id b"
      "tx_pending_send (s_tx a1) = []" "tx_next_seq (s_tx a1) = n + of_nat (length ms)"
    by auto
  define b' where "b' = receive_all cfg (zip ?ds ts) b"
  have r: "rx_pending_events (s_rx b') = rx_pending_events (s_rx b) @ stream_events t n ms"
    "rx_next_expected (s_rx b') = n + of_nat (length ms)" "rx_received_bits (s_rx b') = 0"
    "s_conn_id b' = s_conn_id b" "owes_ack cfg (last ts) b'"
    using receives_stream [OF assms(4) idle_listening [OF assms(2)] assms(6,12,9,11) b'_def] by simp_all
  obtain out b1 where p: "poll_tx cfg t3 b' = (out, b1)" by fastforce
  note k = acknowledges_message [OF r(5) assms(13,14) refl p]
  have e: "s_connection_state a1 = Established" "s_conn_id a1 = s_conn_id b'" using s(3,4) r(4) by (simp_all add: quiet_def)
  note f = ack_reaches_sender [OF e s(2) assms(10) r(2,3) refl]
  have d: "poll_tx cfg t3 (receive_all cfg (zip ?ds ts) b) =
      (Some (encode (control_header (s_conn_id b') 0 (flag_value FlagAck) (s_rx b')) []), b1)"
    using p by (simp only: k(1) b'_def)
  have ev: "fst (drain_events s) = rx_pending_events (s_rx s)" for s
    by (simp add: drain_events_def rx_drain_events_def)
  show ?thesis
    unfolding ev Let_def by (rule exI conjI s(1) d)+ (simp_all only: k(2) r(1) f s(5,6))
qed

definition sample_end :: "SessionRole \<Rightarrow> u32 \<Rightarrow> u32 \<Rightarrow> SessionState" where
  "sample_end role next_seq expected =
     (Session role next_seq)\<lparr>s_connection_state := Established, s_conn_id := 7, s_last_rx_ms := 100,
       s_established_since_ms := 100, s_rx := default_rx\<lparr>rx_next_expected := expected\<rparr>\<rparr>"

lemma sample_end_idle: "idle_session default_transport 101 (sample_end role q x)"
  by (simp add: idle_session_def sample_end_def Session_def should_timeout_idle_session_def
      default_transport_def default_probe_def schedule_pending_tx_work_def should_schedule_reliable_ack_def
      should_schedule_activity_ack_def should_schedule_probe_def)

lemma sample_end_ready: "x \<noteq> 0 \<Longrightarrow> ready_receiver t x (s_rx (sample_end role q x))"
  by (simp add: sample_end_def Session_def ready_receiver_def default_rx_def)

lemma sample_end_fields [simp]:
  "s_conn_id (sample_end role q x) = 7" "tx_next_seq (s_tx (sample_end role q x)) = q"
  "fst (drain_events (sample_end role q x)) = []" "s_last_rx_ms (sample_end role q x) = 100"
  by (simp_all add: sample_end_def Session_def drain_events_def rx_drain_events_def default_rx_def)

theorem stream_delivered_witness:
  "\<exists>ds a1 d b1.
    poll_times default_transport [101, 101] (queue_all ReliableOrdered [(3, [1, 2]), (4, [])] (sample_end Client 50 9)) =
      (map Some ds, a1) \<and>
    poll_tx default_transport 200 (receive_all default_transport (zip ds [130, 120]) (sample_end Server 9 50)) =
      (Some d, b1) \<and>
    map ev_payload (fst (drain_events b1)) = [[1, 2], []] \<and>
    tx_inflight (s_tx (on_datagram_received default_transport d 201 a1)) = []"
proof -
  let ?ms = "[(3, [1, 2]), (4, [])] :: (u32 \<times> bytes) list" and ?t = "[130, 120] :: u64 list"
  have c: "s_conn_id (sample_end Client 50 9) = s_conn_id (sample_end Server 9 50)"
    "isReliableChannel ReliableOrdered" "tx_next_seq (s_tx (sample_end Client 50 9)) = 50" "(50 :: u32) \<noteq> 0"
    by (simp_all add: isReliableChannel_def)
  have t: "0 < max_retransmit_count default_transport"
    "101 < 101 + retransmit_timeout_for default_transport 0" "?ms \<noteq> []" "length ?ms \<le> 64"
    "unat (50 :: u32) + length ?ms \<le> 2 ^ 32" "length ?t = length ?ms"
    "last ?t + reliable_ack_delay_ms default_transport \<le> 200" "200 < last ?t + idle_timeout_ms default_transport"
    by (simp_all add: default_transport_def retransmit_timeout_for_def)
  note stream_delivered [OF sample_end_idle sample_end_idle c(1-3) sample_end_ready [OF c(4)] t, of 201]
  then obtain ds a1 d b1 where r:
    "poll_times default_transport (replicate (length ?ms) 101) (queue_all ReliableOrdered ?ms (sample_end Client 50 9)) =
      (map Some ds, a1)"
    "poll_tx default_transport 200 (receive_all default_transport (zip ds ?t) (sample_end Server 9 50)) = (Some d, b1)"
    "fst (drain_events b1) = fst (drain_events (sample_end Server 9 50)) @ stream_events ReliableOrdered 50 ?ms"
    "tx_inflight (s_tx (on_datagram_received default_transport d 201 a1)) = []"
    unfolding Let_def by blast
  have two: "replicate (length ?ms) (101 :: u64) = [101, 101]" by (simp add: numeral_2_eq_2)
  have "map ev_payload (fst (drain_events b1)) = [[1, 2], []]" using r(3) by (simp add: data_event_def)
  with r(1,2,4) show ?thesis unfolding two
    by (intro exI [of _ ds] exI [of _ a1] exI [of _ d] exI [of _ b1] conjI) assumption+
qed

end
