(* ===== verification/Session_Loss.thy ===== *)
theory Session_Loss
  imports Session_Exchange
begin

text \<open>
  A message over a network that loses datagrams: the sender's retransmissions, how many losses they make
  up for, and what happens after the last one.
\<close>

section \<open>Retransmissions\<close>

lemma schedule_final_ack [simp]:
  "tx_final_ack_pending (s_tx (schedule_pending_tx_work cfg now s)) = tx_final_ack_pending (s_tx s)"
  by (simp add: schedule_pending_tx_work_def)

lemma schedule_last_rx [simp]: "s_last_rx_ms (schedule_pending_tx_work cfg now s) = s_last_rx_ms s"
  by (simp add: schedule_pending_tx_work_def)








section \<open>Copies\<close>



section \<open>Properties\<close>



end
