(* ===== verification/Session_Liveness.thy ===== *)
theory Session_Liveness
  imports Session_Exchange
begin

text \<open>
  What a session does when only time passes (polls, no datagram): the keepalive probe and the end of a
  passively closed connection.
\<close>

section \<open>Polling over time\<close>

lemma poll_times_inv:
  assumes "\<And>now s. P s \<Longrightarrow> P (snd (poll_tx cfg now s))" and "P s"
  shows "P (snd (poll_times cfg nows s))"
  using assms(2)
proof (induction nows arbitrary: s)
  case (Cons now nows)
  from Cons.IH [OF assms(1) [OF Cons.prems, of now]] show ?case by (simp add: split_beta)
qed simp

section \<open>The probe\<close>

definition probe_waiting :: "ProbeTxState \<Rightarrow> bool" where
  "probe_waiting pb \<longleftrightarrow> pb_ping_outstanding pb \<and> \<not> pb_ping_pending pb"

lemma lanes_keep_probe:
  shows "try_build_handshake cfg now role conn_id cs rx tx = (out, cs', tx') \<Longrightarrow> tx_probe tx' = tx_probe tx"
    and "try_build_retransmit cfg now rx tx = (result, tx') \<Longrightarrow> tx_probe tx' = tx_probe tx"
    and "try_build_ack_only conn_id rx tx = (out, tx') \<Longrightarrow> tx_probe tx' = tx_probe tx"
    and "try_build_fresh now conn_id rx tx = (out, tx') \<Longrightarrow> tx_probe tx' = tx_probe tx"
  by (auto simp: try_build_handshake_def build_control_packet_def try_build_retransmit_def
      try_build_ack_only_def try_build_fresh_def make_packet_from_request_def Let_def
      split: if_splits prod.splits option.splits list.splits)

lemma probe_lane_keeps_waiting:
  "try_build_probe_lane conn_id rx tx = (out, tx') \<Longrightarrow> probe_waiting (tx_probe tx) \<Longrightarrow>
   probe_waiting (tx_probe tx')"
  by (auto simp: try_build_probe_lane_def probe_waiting_def Let_def split: if_splits)

lemma poll_keeps_waiting:
  assumes "poll cfg now role conn_id cs rx tx = (result, cs', tx')" and "probe_waiting (tx_probe tx)"
  shows "probe_waiting (tx_probe tx')"
  using assms(1)
proof (cases rule: poll_cases)
  case (handshake bs)
  then show ?thesis using assms(2) lanes_keep_probe(1) by metis
next
  case (later tx1 tx2 r2)
  have "probe_waiting (tx_probe tx2)"
    using assms(2) lanes_keep_probe(1) [OF later(1)] lanes_keep_probe(2) [OF later(2)] by simp
  then show ?thesis
    using later(3,4) probe_lane_keeps_waiting lanes_keep_probe(3,4) by metis
qed

lemma poll_tx_keeps_waiting:
  assumes "probe_waiting (tx_probe (s_tx s))"
  shows "probe_waiting (tx_probe (s_tx (snd (poll_tx cfg now s))))"
proof -
  have sched: "probe_waiting (tx_probe (s_tx (schedule_pending_tx_work cfg now s)))"
    using assms by (auto simp: schedule_pending_tx_work_def should_schedule_probe_def probe_waiting_def)
  have out: "probe_waiting (tx_probe tx) \<Longrightarrow> probe_waiting (tx_probe (s_tx
      (apply_outbound_result bs now b (s1\<lparr>s_connection_state := cs, s_tx := tx\<rparr>))))" for tx bs b s1 cs
    by (auto simp: apply_outbound_result_def update_outbound_probe_state_def record_outbound_stats_def
        clear_outbound_ack_state_def probe_waiting_def Let_def split: option.splits)
  show ?thesis
  proof (cases rule: poll_tx_cases [of cfg s now])
    case timeout
    then show ?thesis using assms by (simp add: mark_idle_timeout_def)
  next
    case (fatal s1 result cs tx)
    then show ?thesis using poll_keeps_waiting [OF fatal(3)] sched by simp
  next
    case (sent s1 result cs tx bs)
    then show ?thesis using poll_keeps_waiting [OF sent(3)] sched out by simp
  next
    case (quiet s1 result cs tx)
    then show ?thesis using poll_keeps_waiting [OF quiet(3)] sched by simp
  qed
qed

section \<open>Passive close\<close>

text \<open>Closed by the peer: the FIN was received, and nothing is left to send.\<close>

definition closed_by_peer :: "SessionState \<Rightarrow> bool" where
  "closed_by_peer s \<longleftrightarrow> s_connection_state s = Closing \<and> \<not> tx_fin_pending (s_tx s) \<and>
     tx_inflight (s_tx s) = [] \<and> tx_pending_send (s_tx s) = []"

lemma poll_closed_by_peer:
  assumes "poll cfg now role conn_id Closing rx tx = (result, cs', tx')"
    and "\<not> tx_fin_pending tx" and "tx_inflight tx = []" and "tx_pending_send tx = []"
  shows "\<not> pr_fatal_error result \<and> cs' = Closing \<and> \<not> tx_fin_pending tx' \<and> tx_inflight tx' = [] \<and>
    tx_pending_send tx' = []"
  using assms
  by (auto simp: poll_def try_build_handshake_def try_build_retransmit_def try_build_probe_lane_def
      try_build_ack_only_def try_build_fresh_def default_poll_result_def make_poll_result_def Let_def
      split: if_splits)

lemma fin_pending_outbound [simp]:
  "tx_fin_pending (s_tx (apply_outbound_result bs now b s)) = tx_fin_pending (s_tx s)"
  by (auto simp: apply_outbound_result_def update_outbound_probe_state_def record_outbound_stats_def
      clear_outbound_ack_state_def Let_def split: option.splits)

lemma poll_tx_closed_by_peer:
  assumes "closed_by_peer s"
  shows "closed_by_peer (snd (poll_tx cfg now s))"
proof -
  have idle: "schedule_pending_tx_work cfg now s = s" "\<not> should_timeout_idle_session cfg s now"
    using assms by (simp_all add: closed_by_peer_def schedule_pending_tx_work_def
        should_schedule_reliable_ack_def should_schedule_activity_ack_def should_schedule_probe_def
        should_timeout_idle_session_def)
  have step: "\<not> pr_fatal_error result \<and> cs = Closing \<and> \<not> tx_fin_pending tx \<and> tx_inflight tx = [] \<and>
      tx_pending_send tx = []"
    if "s1 = schedule_pending_tx_work cfg now s"
      "poll cfg now (s_role s1) (s_conn_id s1) (s_connection_state s1) (s_rx s1) (s_tx s1) = (result, cs, tx)"
    for s1 result cs tx
  proof (rule poll_closed_by_peer)
    show "poll cfg now (s_role s) (s_conn_id s) Closing (s_rx s) (s_tx s) = (result, cs, tx)"
      using that idle(1) assms by (simp add: closed_by_peer_def)
  qed (use assms in \<open>simp_all add: closed_by_peer_def\<close>)
  show ?thesis
  proof (cases rule: poll_tx_cases [of cfg s now])
    case (sent s1 result cs tx bs)
    then show ?thesis
      using step [OF sent(2,3)]
        same_core_outbound [of "s1\<lparr>s_connection_state := cs, s_tx := tx\<rparr>" bs now "pr_retransmission result"]
      by (simp add: closed_by_peer_def same_core_def frame_simps)
  next
    case (quiet s1 result cs tx)
    then show ?thesis using step [OF quiet(2,3)] by (simp add: closed_by_peer_def)
  next
    case (fatal s1 result cs tx)
    then show ?thesis using step [OF fatal(2,3)] by blast
  qed (use idle in simp)
qed

lemma closed_by_peer_stays:
  "closed_by_peer s \<Longrightarrow> s_connection_state (snd (poll_times cfg nows s)) = Closing"
  using poll_times_inv [where P = closed_by_peer, OF poll_tx_closed_by_peer]
  by (simp add: closed_by_peer_def)

section \<open>Properties\<close>

text \<open>
  One lost probe ends the keepalive: while a PING waits for its PONG no other is scheduled, and no
  amount of time changes that. Whatever the times of the polls, the probe stays outstanding and no PING
  is pending after them.
\<close>

lemma lost_probe_ends_keepalive:
  assumes "pb_ping_outstanding (tx_probe (s_tx s))" and "\<not> pb_ping_pending (tx_probe (s_tx s))"
  shows "pb_ping_outstanding (tx_probe (s_tx (snd (poll_times cfg nows s)))) \<and>
    \<not> pb_ping_pending (tx_probe (s_tx (snd (poll_times cfg nows s))))"
  using poll_times_inv [where P = "\<lambda>s. probe_waiting (tx_probe (s_tx s))", OF poll_tx_keeps_waiting]
    assms by (simp add: probe_waiting_def)

end
