(* ===== verification/Session_Close.thy ===== *)
theory Session_Close
  imports Session_Liveness
begin

text \<open>
  The end of a connection: \<open>request_close\<close>, the FIN, its acknowledgement, and what becomes of the two ends.
\<close>

section \<open>The end that closes\<close>

lemma sends_fin:
  assumes "idle_session cfg now a" and "tx_next_seq (s_tx a) = n"
    and "h = control_header (s_conn_id a) n (flag_value FlagFin) (s_rx a)"
    and "poll_tx cfg now (request_close a) = (out, a')"
  shows "out = Some (encode h [])" and "s_connection_state a' = Closing" and "s_rx a' = s_rx a"
    and "s_role a' = s_role a" and "s_conn_id a' = s_conn_id a"
    and "tx_inflight (s_tx a') = [(n, first_send_entry \<lparr>op_header = h, op_payload = []\<rparr> now)]"
    and "tx_next_seq (s_tx a') = n + 1"
proof -
  let ?q = "request_close a"
  have i: "s_connection_state a = Established" "tx_inflight (s_tx a) = []" "tx_remote_ack (s_tx a) = n"
    using assms(1,2) by (simp_all add: idle_session_def)
  have q: "s_connection_state ?q = Closing" "s_role ?q = s_role a" "s_conn_id ?q = s_conn_id a" "s_rx ?q = s_rx a"
    "tx_fin_pending (s_tx ?q)" "tx_inflight (s_tx ?q) = []" "tx_next_seq (s_tx ?q) = n" "tx_remote_ack (s_tx ?q) = n"
    using i assms(2) by (simp_all add: request_close_def)
  have t: "\<not> should_timeout_idle_session cfg ?q now" using q(1) by (simp add: should_timeout_idle_session_def)
  have w: "s_tx (schedule_pending_tx_work cfg now ?q) = s_tx ?q"
    using q(1) by (simp add: schedule_pending_tx_work_def should_schedule_reliable_ack_def
        should_schedule_activity_ack_def should_schedule_probe_def)
  have room: "\<not> reliable_window_full (s_tx ?q)"
    using q(7,8) by (simp add: reliable_window_full_def kReliableWindowSize_def)
  have b: "try_build_handshake cfg now (s_role ?q) (s_conn_id ?q) (s_connection_state ?q) (s_rx ?q)
      (s_tx (schedule_pending_tx_work cfg now ?q)) = (Some (encode h []), Closing,
     (s_tx ?q)\<lparr>tx_next_seq := n + 1, tx_inflight :=
        [(n, first_send_entry \<lparr>op_header = h, op_payload = []\<rparr> now)], tx_fin_pending := False\<rparr>)"
    using q room unfolding w try_build_handshake_def
    by (simp add: build_control_consuming [OF consumes_flags(3)] assms(3) Let_def map_emplace_def map_find_def
        del: flag_value.simps)
  have v: "isValidHeader h" "classify_control_kind h \<noteq> KindPing"
    unfolding assms(3) control_header_kind by simp_all
  note r = poll_tx_handshake [OF t b v assms(4)]
  show "out = Some (encode h [])" "s_connection_state a' = Closing" "s_rx a' = s_rx a"
    "s_role a' = s_role a" "s_conn_id a' = s_conn_id a"
    "tx_inflight (s_tx a') = [(n, first_send_entry \<lparr>op_header = h, op_payload = []\<rparr> now)]"
    "tx_next_seq (s_tx a') = n + 1" using r q by simp_all
qed

section \<open>The other end\<close>

lemma receives_fin:
  assumes "listening b" and "rx_next_expected (s_rx b) = n" and "n \<noteq> 0" and "rx_received_bits (s_rx b) = 0"
    and "\<not> tx_fin_pending (s_tx b)" and "h = control_header (s_conn_id b) n (flag_value FlagFin) rx"
    and "b' = on_datagram_received cfg (encode h []) now b"
  shows "s_connection_state b' = Closing" and "s_conn_id b' = s_conn_id b" and "tx_inflight (s_tx b') = []"
    and "rx_next_expected (s_rx b') = n + 1" and "rx_received_bits (s_rx b') = 0"
    and "map ev_type (rx_pending_events (s_rx b')) = map ev_type (rx_pending_events (s_rx b)) @ [ConnectionClosed]"
    and "tx_ack_only_pending (s_tx b')" and "\<not> tx_fin_pending (s_tx b')"
    and "\<not> pb_ping_pending (tx_probe (s_tx b'))" and "\<not> pb_pong_pending (tx_probe (s_tx b'))"
    and "tx_pending_send (s_tx b') = tx_pending_send (s_tx b)"
proof -
  let ?pv = "\<lparr>pv_header = h, pv_payload = []\<rparr>" and ?s = "record_received_stats KindFin (length (encode h [])) now b"
  note l = assms(1) [unfolded listening_def]
  have h: "isValidHeader h" "h_conn_id h = s_conn_id b" "classify_control_kind h = KindFin"
    "h_channel_type h = Unreliable" "h_seq h = n"
    by (simp_all add: assms(6) control_header_kind del: flag_value.simps) simp
  have id: "s_role ?s = s_role b" "s_conn_id ?s = s_conn_id b" "s_connection_state ?s = Established"
    "s_tx ?s = s_tx b" "s_rx ?s = s_rx b"
    using l by (simp_all add: frame_simps received_identity)
  let ?rx = "emit_control_event ConnectionClosed ?pv [] (s_rx b)"
  have "tracks_reliable ?pv KindFin" by (simp add: tracks_reliable_def)
  from update_in_order [OF this, of ?rx]
  have pkt: "on_packet ?pv now KindFin ?rx = (\<lparr>rr_schedule_ack_only = True\<rparr>, ?rx\<lparr>rx_next_expected := n + 1\<rparr>)"
    using assms(2-4) h(5) by (simp add: on_packet_def is_control_only_def advance_receive_window_def
        advance_receive_loop.simps)
  have ack: "on_remote_ack cfg (h_ack h) (h_ack_bits h) (s_tx b) = (\<lparr>ar_acknowledged_fin = False\<rparr>,
      (s_tx b)\<lparr>tx_remote_ack := h_ack h, tx_remote_ack_bits := h_ack_bits h\<rparr>)"
    using l by (simp add: on_remote_ack_eq acknowledged_inflight_def)
  have b': "b' = ?s\<lparr>s_connection_state := Closing, s_rx := ?rx\<lparr>rx_next_expected := n + 1\<rparr>,
      s_tx := (s_tx b)\<lparr>tx_remote_ack := h_ack h, tx_remote_ack_bits := h_ack_bits h, tx_ack_only_pending := True\<rparr>\<rparr>"
    unfolding assms(7) own_packet_processed [OF h(1-3), simplified] process_packet_def
    by (simp add: Let_def handle_probe_receive_def apply_remote_ack_def should_apply_remote_ack_def id ack
        should_close_after_fin_acknowledgement_def apply_connection_decision_def decision_defs
        emit_connection_decision_events_def pkt update_post_receive_liveness_def schedule_receive_side_ack_def)
  show "s_connection_state b' = Closing" "s_conn_id b' = s_conn_id b" "tx_inflight (s_tx b') = []"
    "rx_next_expected (s_rx b') = n + 1" "rx_received_bits (s_rx b') = 0"
    "map ev_type (rx_pending_events (s_rx b')) = map ev_type (rx_pending_events (s_rx b)) @ [ConnectionClosed]"
    "tx_ack_only_pending (s_tx b')" "\<not> tx_fin_pending (s_tx b')"
    "\<not> pb_ping_pending (tx_probe (s_tx b'))" "\<not> pb_pong_pending (tx_probe (s_tx b'))"
    "tx_pending_send (s_tx b') = tx_pending_send (s_tx b)"
    using l assms(4,5) id by (simp_all add: b' emit_control_event_def push_event_def)
qed

lemma acknowledges_fin:
  assumes "s_connection_state b = Closing" and "tx_inflight (s_tx b) = []" and "tx_ack_only_pending (s_tx b)"
    and "\<not> tx_fin_pending (s_tx b)" and "\<not> pb_ping_pending (tx_probe (s_tx b))"
    and "\<not> pb_pong_pending (tx_probe (s_tx b))" and "tx_pending_send (s_tx b) = []"
    and "h = control_header (s_conn_id b) 0 (flag_value FlagAck) (s_rx b)"
    and "poll_tx cfg now b = (out, b')"
  shows "out = Some (encode h [])" and "s_rx b' = s_rx b" and "closed_by_peer b'"
proof -
  have t: "\<not> should_timeout_idle_session cfg b now" "schedule_pending_tx_work cfg now b = b"
    using assms(1) by (simp_all add: should_timeout_idle_session_def schedule_pending_tx_work_def
        should_schedule_reliable_ack_def should_schedule_activity_ack_def should_schedule_probe_def)
  have hh: "default_header\<lparr>h_conn_id := s_conn_id b, h_flags := flag_value FlagAck, h_channel_type := Unreliable,
      h_ack := rx_next_expected (s_rx b), h_ack_bits := rx_received_bits (s_rx b)\<rparr> = h"
    by (simp add: assms(8) control_header_def default_header_def)
  have p: "poll cfg now (s_role b) (s_conn_id b) Closing (s_rx b) (s_tx b) =
      (make_poll_result (Some (encode h [])) False, Closing, (s_tx b)\<lparr>tx_inflight := [], tx_ack_only_pending := False\<rparr>)"
    using assms(1-6) by (simp add: poll_def try_build_handshake_def try_build_retransmit_def default_poll_result_def
        try_build_probe_lane_def try_build_ack_only_def hh Let_def del: flag_value.simps)
  then have o: "out = Some (encode h [])" "s_rx b' = s_rx b"
    using assms(1,9) t by (auto simp: poll_tx_def make_poll_result_def frame_simps)
  show "out = Some (encode h [])" "s_rx b' = s_rx b" by (rule o)+
  have "closed_by_peer b" using assms(1,2,4,7) by (simp add: closed_by_peer_def)
  then show "closed_by_peer b'" using poll_tx_closed_by_peer [of b cfg now] assms(9) by simp
qed

section \<open>The acknowledgement\<close>

lemma fin_acknowledged:
  assumes "s_connection_state a = Closing" and "tx_inflight (s_tx a) = [(n, e)]"
    and "hasFlag (op_header (te_packet e)) FlagFin" and "tx_next_seq (s_tx a) = n + 1"
    and "rx_next_expected rx = n + 1" and "rx_received_bits rx = 0"
    and "h = control_header (s_conn_id a) 0 (flag_value FlagAck) rx"
    and "a' = on_datagram_received cfg (encode h []) now a"
  shows "s_connection_state a' = Closed" and "s_role a' = s_role a" and "tx_inflight (s_tx a') = []"
    and "map ev_type (rx_pending_events (s_rx a')) = map ev_type (rx_pending_events (s_rx a)) @ [ConnectionClosed]"
    and "tx_next_seq (s_tx a') = n + 1" and "tx_remote_ack (s_tx a') = n + 1"
proof -
  let ?pv = "\<lparr>pv_header = h, pv_payload = []\<rparr>" and ?s = "record_received_stats KindAck (length (encode h [])) now a"
  have h: "isValidHeader h" "h_conn_id h = s_conn_id a" "classify_control_kind h = KindAck"
    "h_channel_type h = Unreliable" "h_ack h = n + 1" "h_ack_bits h = 0"
    using assms(5,6) by (simp_all add: assms(7) control_header_kind del: flag_value.simps) simp
  have id: "s_role ?s = s_role a" "s_conn_id ?s = s_conn_id a" "s_connection_state ?s = Closing"
    "s_tx ?s = s_tx a" "s_rx ?s = s_rx a"
    using assms(1) by (simp_all add: frame_simps received_identity)
  let ?rx = "emit_control_event ConnectionClosed ?pv [] (s_rx a)"
  obtain ok r ne bits where u: "update_reliable_receive_state ?pv KindAck \<lparr>rr_schedule_ack_only = False\<rparr> ?rx =
      (ok, r, ?rx\<lparr>rx_next_expected := ne, rx_received_bits := bits\<rparr>)" by (rule update_frame)
  then have nr: "\<not> rr_schedule_ack_only r"
    using update_result [of ?pv KindAck "\<lparr>rr_schedule_ack_only = False\<rparr>" ?rx] h(4)
    by (auto simp: isReliableChannel_def split: if_splits)
  have pkt: "on_packet ?pv now KindAck ?rx = (r, ?rx\<lparr>rx_next_expected := ne, rx_received_bits := bits\<rparr>)"
    by (simp add: on_packet_def is_control_only_def u)
  have acked: "is_acknowledged_by_remote n (n + 1) 0"
    by (simp add: acknowledged_dist unsigned_minus_1_eq_mask mask_eq_exp_minus_1)
  have ack: "on_remote_ack cfg (n + 1) 0 (s_tx a) = (\<lparr>ar_acknowledged_fin = True\<rparr>,
      (s_tx a)\<lparr>tx_remote_ack := n + 1, tx_remote_ack_bits := 0, tx_inflight := []\<rparr>)"
    using assms(2,3) acked by (simp add: on_remote_ack_eq acknowledge_single)
  have a': "a' = ?s\<lparr>s_connection_state := Closed,
      s_rx := ?rx\<lparr>rx_next_expected := ne, rx_received_bits := bits\<rparr>,
      s_tx := (s_tx a)\<lparr>tx_remote_ack := n + 1, tx_remote_ack_bits := 0, tx_inflight := []\<rparr>\<rparr>"
    unfolding assms(8) own_packet_processed [OF h(1-3), simplified] process_packet_def
    using nr by (simp add: Let_def handle_probe_receive_def apply_remote_ack_def should_apply_remote_ack_def id ack
        h(5,6) should_close_after_fin_acknowledgement_def close_after_fin_acknowledgement_def
        apply_connection_decision_def decision_defs emit_connection_decision_events_def pkt
        update_post_receive_liveness_def schedule_receive_side_ack_def)
  show "s_connection_state a' = Closed" "s_role a' = s_role a" "tx_inflight (s_tx a') = []"
    "map ev_type (rx_pending_events (s_rx a')) = map ev_type (rx_pending_events (s_rx a)) @ [ConnectionClosed]"
    "tx_next_seq (s_tx a') = n + 1" "tx_remote_ack (s_tx a') = n + 1"
    using assms(4) id by (simp_all add: a' emit_control_event_def push_event_def)
qed

lemma closed_client_polled:
  assumes "s_role s = Client" and "s_connection_state s = Closed" and "tx_next_seq (s_tx s) = tx_remote_ack (s_tx s)"
  shows "\<exists>d s'. poll_tx cfg now s = (Some d, s') \<and> s_connection_state s' = HandshakeSent"
proof -
  have t: "\<not> should_timeout_idle_session cfg s now" "schedule_pending_tx_work cfg now s = s"
    using assms(2) by (simp_all add: should_timeout_idle_session_def schedule_pending_tx_work_def
        should_schedule_reliable_ack_def should_schedule_activity_ack_def should_schedule_probe_def)
  have room: "\<not> reliable_window_full (s_tx s)"
    using assms(3) by (simp add: reliable_window_full_def kReliableWindowSize_def)
  show ?thesis using assms(1,2) t
    by (simp add: poll_tx_def poll_def try_build_handshake_def build_control_consuming [OF consumes_flags(1) room]
        Let_def make_poll_result_def frame_simps del: flag_value.simps)
qed

section \<open>Properties\<close>

text \<open>
  C14. A connection closed by one end. Both ends are established with nothing else to do, and the other end
  expects the next number of the closing one. After \<open>request_close\<close> the first poll yields the FIN; its arrival
  puts the other end into Closing and reports the end of the connection to its application; its next poll, at
  any time, yields the acknowledgement; and that closes the first end, with nothing in flight and the end
  reported. Two things then do not end: the other end stays in Closing under all later polls at all times (it
  sends no FIN of its own, and the idle timeout covers established sessions only); and a client that closed its
  session opens a new handshake with the very next poll, because Closed is also the state a client starts
  from.
\<close>

theorem close_completes:
  assumes "idle_session cfg t1 a" and "idle_session cfg t2 b" and "s_conn_id a = s_conn_id b"
    and "tx_next_seq (s_tx a) = n" and "rx_next_expected (s_rx b) = n" and "n \<noteq> 0"
    and "rx_received_bits (s_rx b) = 0" and "\<not> tx_fin_pending (s_tx b)"
  shows "\<exists>d1 a1 d2 b1.
    poll_tx cfg t1 (request_close a) = (Some d1, a1) \<and>
    poll_tx cfg t3 (on_datagram_received cfg d1 t2 b) = (Some d2, b1) \<and>
    map ev_type (fst (drain_events b1)) = map ev_type (fst (drain_events b)) @ [ConnectionClosed] \<and>
    (\<forall>nows. s_connection_state (snd (poll_times cfg nows b1)) = Closing) \<and>
    (let a2 = on_datagram_received cfg d2 t4 a1 in
     s_connection_state a2 = Closed \<and> tx_inflight (s_tx a2) = [] \<and>
     map ev_type (fst (drain_events a2)) = map ev_type (fst (drain_events a)) @ [ConnectionClosed] \<and>
     (s_role a = Client \<longrightarrow> (\<exists>d a3. poll_tx cfg t5 a2 = (Some d, a3) \<and> s_connection_state a3 = HandshakeSent)))"
proof -
  let ?h = "control_header (s_conn_id b) n (flag_value FlagFin) (s_rx a)"
  let ?e = "first_send_entry \<lparr>op_header = ?h, op_payload = []\<rparr> t1"
  obtain o1 a1 where p1: "poll_tx cfg t1 (request_close a) = (o1, a1)" by fastforce
  have hd: "?h = control_header (s_conn_id a) n (flag_value FlagFin) (s_rx a)" using assms(3) by simp
  note f1 = sends_fin [OF assms(1,4) hd p1]
  define b' where "b' = on_datagram_received cfg (encode ?h []) t2 b"
  note f2 = receives_fin [OF idle_listening [OF assms(2)] assms(5-8) refl b'_def]
  have ps: "tx_pending_send (s_tx b') = []" using f2(11) assms(2) by (simp add: idle_session_def)
  obtain o2 b1 where p2: "poll_tx cfg t3 b' = (o2, b1)" by fastforce
  note f3 = acknowledges_fin [OF f2(1,3,7-10) ps refl p2]
  let ?k = "control_header (s_conn_id b') 0 (flag_value FlagAck) (s_rx b')"
  have e: "hasFlag (op_header (te_packet ?e)) FlagFin" by (simp add: first_send_entry_def hasFlag_def)
  have kd: "?k = control_header (s_conn_id a1) 0 (flag_value FlagAck) (s_rx b')" using f1(5) f2(2) assms(3) by simp
  define a2 where "a2 = on_datagram_received cfg (encode ?k []) t4 a1"
  note f4 = fin_acknowledged [OF f1(2,6) e f1(7) f2(4,5) kd a2_def]
  have re: "\<exists>d a3. poll_tx cfg t5 a2 = (Some d, a3) \<and> s_connection_state a3 = HandshakeSent" if "s_role a = Client"
    using that f4 f1(4) by (intro closed_client_polled) simp_all
  have d1: "poll_tx cfg t1 (request_close a) = (Some (encode ?h []), a1)" using p1 by (simp only: f1(1))
  have d2: "poll_tx cfg t3 (on_datagram_received cfg (encode ?h []) t2 b) = (Some (encode ?k []), b1)"
    using p2 by (simp only: f3(1) b'_def)
  have ev: "fst (drain_events s) = rx_pending_events (s_rx s)" for s
    by (simp add: drain_events_def rx_drain_events_def)
  show ?thesis
    unfolding ev Let_def
    by (rule exI [of _ "encode ?h []"], rule exI [of _ a1], rule exI [of _ "encode ?k []"], rule exI [of _ b1],
        intro conjI allI impI)
      (simp_all only: d1 d2 f3(2) f2(6) f4(1,3,4) f1(3) a2_def [symmetric] closed_by_peer_stays [OF f3(3)] re)
qed

theorem close_completes_witness:
  "\<exists>d1 a1 d2 b1.
    poll_tx default_transport 101 (request_close (sample_end Client 50 9)) = (Some d1, a1) \<and>
    poll_tx default_transport 102 (on_datagram_received default_transport d1 101 (sample_end Server 9 50)) =
      (Some d2, b1) \<and>
    map ev_type (fst (drain_events b1)) = [ConnectionClosed] \<and>
    s_connection_state (snd (poll_times default_transport [1000, 100000] b1)) = Closing \<and>
    s_connection_state (on_datagram_received default_transport d2 103 a1) = Closed"
proof -
  let ?a = "sample_end Client 50 9" and ?b = "sample_end Server 9 50"
  have h: "s_conn_id ?a = s_conn_id ?b" "tx_next_seq (s_tx ?a) = 50" "rx_next_expected (s_rx ?b) = 50"
    "(50 :: u32) \<noteq> 0" "rx_received_bits (s_rx ?b) = 0" "\<not> tx_fin_pending (s_tx ?b)"
    by (simp_all add: sample_end_def Session_def default_rx_def)
  note c = close_completes [OF sample_end_idle sample_end_idle h, of 102 103 104]
  then obtain d1 a1 d2 b1 where r:
    "poll_tx default_transport 101 (request_close ?a) = (Some d1, a1)"
    "poll_tx default_transport 102 (on_datagram_received default_transport d1 101 ?b) = (Some d2, b1)"
    "map ev_type (fst (drain_events b1)) = map ev_type (fst (drain_events ?b)) @ [ConnectionClosed]"
    "s_connection_state (snd (poll_times default_transport [1000, 100000] b1)) = Closing"
    "s_connection_state (on_datagram_received default_transport d2 103 a1) = Closed"
    unfolding Let_def by blast
  then have "map ev_type (fst (drain_events b1)) = [ConnectionClosed]" by simp
  with r(1,2,4,5) show ?thesis
    by (intro exI [of _ d1] exI [of _ a1] exI [of _ d2] exI [of _ b1] conjI) assumption+
qed

end
