(* ===== verification/Server_Session_Manager.thy ===== *)
theory Server_Session_Manager
  imports Session_Core
begin

text \<open>
  Model of \<open>src/ServerSessionManager.cpp\<close>: the server's table of connections. Peers whose handshake is
  not over are pending, filed under their endpoint; established ones are active, filed under their
  connection id, with an index from endpoint to id; ids of removed connections are retired. An
  iterator of the code is the key it points at. The draws of \<open>std::random_device\<close> during a call are
  the argument \<open>rd\<close>; an operation that needs more draws than it is given (the loop of
  \<open>allocate_conn_id\<close> is still running) has no result, \<open>None\<close>.
\<close>

section \<open>Data\<close>

record EndpointKey =
  ek_address :: string
  ek_port :: u16

record OutboundDatagram =
  od_endpoint :: EndpointKey
  od_bytes :: bytes

record ServerSessionEvent =
  se_endpoint :: EndpointKey
  se_conn_id :: "u32 option"
  se_event :: SessionEvent

type_synonym PendingMap = "(EndpointKey, SessionState) unordered_map"
type_synonym ActiveMap = "(u32, SessionState) unordered_map"
type_synonym EndpointToConnIdMap = "(EndpointKey, u32) unordered_map"
type_synonym ConnIdSet = "u32 set"

record ServerSessionManager =
  pending_by_endpoint :: PendingMap
  active_by_conn_id :: ActiveMap
  active_conn_id_by_endpoint :: EndpointToConnIdMap
  retired_conn_ids :: ConnIdSet

definition empty_manager :: ServerSessionManager where
  "empty_manager =
     \<lparr>pending_by_endpoint = [], active_by_conn_id = [], active_conn_id_by_endpoint = [],
      retired_conn_ids = {}\<rparr>"

text \<open>The two standard hashes are parameters.\<close>

definition hash_combine :: "u64 \<Rightarrow> u64 \<Rightarrow> u64" where
  "hash_combine seed v =
     seed XOR (v + 0x9e3779b97f4a7c15 + push_bit 6 seed + drop_bit 2 seed)"

definition EndpointKeyHash :: "(string \<Rightarrow> u64) \<Rightarrow> (u16 \<Rightarrow> u64) \<Rightarrow> EndpointKey \<Rightarrow> u64" where
  "EndpointKeyHash hash_string hash_u16 endpoint =
     (let seed = hash_string (ek_address endpoint)
      in hash_combine seed (hash_u16 (ek_port endpoint)))"

section \<open>Lookups\<close>

definition is_terminal_state :: "ConnectionState \<Rightarrow> bool" where
  "is_terminal_state state = (state = Reset \<or> state = Closed)"

definition find_pending_session :: "EndpointKey \<Rightarrow> ServerSessionManager \<Rightarrow> SessionState option" where
  "find_pending_session endpoint m = map_find (pending_by_endpoint m) endpoint"

definition find_active_session :: "u32 \<Rightarrow> ServerSessionManager \<Rightarrow> SessionState option" where
  "find_active_session conn_id m = map_find (active_by_conn_id m) conn_id"

definition pending_session_count :: "ServerSessionManager \<Rightarrow> nat" where
  "pending_session_count m = length (pending_by_endpoint m)"

definition active_session_count :: "ServerSessionManager \<Rightarrow> nat" where
  "active_session_count m = length (active_by_conn_id m)"

definition has_pending_session :: "EndpointKey \<Rightarrow> ServerSessionManager \<Rightarrow> bool" where
  "has_pending_session endpoint m = (find_pending_session endpoint m \<noteq> None)"

definition has_active_session :: "u32 \<Rightarrow> ServerSessionManager \<Rightarrow> bool" where
  "has_active_session conn_id m = (find_active_session conn_id m \<noteq> None)"

definition pending_conn_id :: "EndpointKey \<Rightarrow> ServerSessionManager \<Rightarrow> u32 option" where
  "pending_conn_id endpoint m = map_option s_conn_id (find_pending_session endpoint m)"

definition active_conn_id :: "EndpointKey \<Rightarrow> ServerSessionManager \<Rightarrow> u32 option" where
  "active_conn_id endpoint m = map_find (active_conn_id_by_endpoint m) endpoint"

definition pending_connection_state ::
  "EndpointKey \<Rightarrow> ServerSessionManager \<Rightarrow> ConnectionState option"
where
  "pending_connection_state endpoint m =
     map_option s_connection_state (find_pending_session endpoint m)"

definition active_stats :: "u32 \<Rightarrow> ServerSessionManager \<Rightarrow> SessionStats option" where
  "active_stats conn_id m = map_option s_stats (find_active_session conn_id m)"

definition is_active_endpoint_match :: "EndpointKey \<Rightarrow> u32 \<Rightarrow> ServerSessionManager \<Rightarrow> bool" where
  "is_active_endpoint_match endpoint conn_id m =
     (case map_find (active_conn_id_by_endpoint m) endpoint of
        None \<Rightarrow> False
      | Some c \<Rightarrow> c = conn_id)"

definition conn_id_is_in_use :: "u32 \<Rightarrow> ServerSessionManager \<Rightarrow> bool" where
  "conn_id_is_in_use conn_id m =
     (if conn_id = 0 then True
      else if conn_id \<in> retired_conn_ids m then True
      else if map_find (active_by_conn_id m) conn_id \<noteq> None then True
      else list_ex (\<lambda>(endpoint, session). s_conn_id session = conn_id) (pending_by_endpoint m))"

fun allocate_conn_id :: "u32 list \<Rightarrow> ServerSessionManager \<Rightarrow> u32 option" where
  "allocate_conn_id (rd1 # rd2 # rd) m =
     (let upper = push_bit 16 rd1;
          lower = rd2 AND 0xffff;
          v = upper XOR lower
      in if conn_id_is_in_use v m then allocate_conn_id rd m else Some v)"
| "allocate_conn_id _ m = None"

section \<open>Removal and promotion\<close>

definition promote_pending_session ::
  "EndpointKey \<Rightarrow> ServerSessionManager \<Rightarrow> ServerSessionManager"
where
  "promote_pending_session endpoint m =
     (case find_pending_session endpoint m of
        None \<Rightarrow> m
      | Some session \<Rightarrow>
          let conn_id = s_conn_id session in
          if conn_id = 0 then m
          else m\<lparr>active_conn_id_by_endpoint :=
                   umap_assign endpoint conn_id (active_conn_id_by_endpoint m),
                 active_by_conn_id := umap_assign conn_id session (active_by_conn_id m),
                 pending_by_endpoint := map_erase endpoint (pending_by_endpoint m)\<rparr>)"

definition cleanup_pending_session ::
  "EndpointKey \<Rightarrow> ServerSessionManager \<Rightarrow> ServerSessionManager"
where
  "cleanup_pending_session endpoint m =
     (case find_pending_session endpoint m of
        None \<Rightarrow> m
      | Some session \<Rightarrow>
          let conn_id = s_conn_id session;
              m = (if conn_id \<noteq> 0
                   then m\<lparr>retired_conn_ids := insert conn_id (retired_conn_ids m)\<rparr> else m)
          in m\<lparr>pending_by_endpoint := map_erase endpoint (pending_by_endpoint m)\<rparr>)"

definition cleanup_active_session ::
  "EndpointKey \<Rightarrow> u32 \<Rightarrow> ServerSessionManager \<Rightarrow> ServerSessionManager"
where
  "cleanup_active_session endpoint conn_id m =
     (let m = (if conn_id \<noteq> 0
               then m\<lparr>retired_conn_ids := insert conn_id (retired_conn_ids m)\<rparr> else m);
          m = m\<lparr>active_by_conn_id := map_erase conn_id (active_by_conn_id m)\<rparr>
      in case map_find (active_conn_id_by_endpoint m) endpoint of
           None \<Rightarrow> m
         | Some c \<Rightarrow>
             if c = conn_id
             then m\<lparr>active_conn_id_by_endpoint := map_erase endpoint (active_conn_id_by_endpoint m)\<rparr>
             else m)"

definition cleanup_pending_if_terminal ::
  "EndpointKey \<Rightarrow> ServerSessionManager \<Rightarrow> ServerSessionManager"
where
  "cleanup_pending_if_terminal endpoint m =
     (case find_pending_session endpoint m of
        None \<Rightarrow> m
      | Some session \<Rightarrow>
          if \<not> is_terminal_state (s_connection_state session) then m
          else cleanup_pending_session endpoint m)"

definition cleanup_active_if_terminal ::
  "EndpointKey \<Rightarrow> u32 \<Rightarrow> ServerSessionManager \<Rightarrow> ServerSessionManager"
where
  "cleanup_active_if_terminal endpoint conn_id m =
     (case find_active_session conn_id m of
        None \<Rightarrow> m
      | Some session \<Rightarrow>
          if \<not> is_terminal_state (s_connection_state session) then m
          else cleanup_active_session endpoint conn_id m)"

section \<open>Routing\<close>

definition try_dispatch_active ::
  "TransportSettings \<Rightarrow> EndpointKey \<Rightarrow> bytes \<Rightarrow> u32 \<Rightarrow> u64 \<Rightarrow> ServerSessionManager
   \<Rightarrow> bool \<times> ServerSessionManager"
where
  "try_dispatch_active cfg endpoint bs conn_id now_ms m =
     (case find_active_session conn_id m of
        None \<Rightarrow> (False, m)
      | Some session \<Rightarrow>
          let m = m\<lparr>active_by_conn_id := map_modify conn_id
                     (on_datagram_received cfg bs now_ms) (active_by_conn_id m)\<rparr>
          in (True, cleanup_active_if_terminal endpoint conn_id m))"

definition try_dispatch_pending ::
  "TransportSettings \<Rightarrow> EndpointKey \<Rightarrow> bytes \<Rightarrow> u64 \<Rightarrow> ServerSessionManager
   \<Rightarrow> bool \<times> ServerSessionManager"
where
  "try_dispatch_pending cfg endpoint bs now_ms m =
     (case find_pending_session endpoint m of
        None \<Rightarrow> (False, m)
      | Some session \<Rightarrow>
          let state = s_connection_state (on_datagram_received cfg bs now_ms session);
              m = m\<lparr>pending_by_endpoint := map_modify endpoint
                     (on_datagram_received cfg bs now_ms) (pending_by_endpoint m)\<rparr>
          in if state = Established then (True, promote_pending_session endpoint m)
             else (True, cleanup_pending_if_terminal endpoint m))"

definition route_existing_active ::
  "TransportSettings \<Rightarrow> EndpointKey \<Rightarrow> bytes \<Rightarrow> Header \<Rightarrow> u64 \<Rightarrow> ServerSessionManager
   \<Rightarrow> bool \<times> ServerSessionManager"
where
  "route_existing_active cfg endpoint bs header now_ms m =
     (if h_conn_id header = 0 then (False, m)
      else if \<not> has_active_session (h_conn_id header) m then (False, m)
      else if \<not> is_active_endpoint_match endpoint (h_conn_id header) m then (True, m)
      else try_dispatch_active cfg endpoint bs (h_conn_id header) now_ms m)"

definition route_existing_pending ::
  "TransportSettings \<Rightarrow> EndpointKey \<Rightarrow> bytes \<Rightarrow> u64 \<Rightarrow> ServerSessionManager
   \<Rightarrow> bool \<times> ServerSessionManager"
where
  "route_existing_pending cfg endpoint bs now_ms m = try_dispatch_pending cfg endpoint bs now_ms m"

text \<open>
  Whether the iterator returned is valid, and the manager. \<open>try_emplace\<close> first constructs the session
  (two draws for its initial sequence number), then the id is allocated.
\<close>

definition ensure_session_for_new_peer ::
  "u32 list \<Rightarrow> EndpointKey \<Rightarrow> ServerSessionManager \<Rightarrow> (bool \<times> ServerSessionManager) option"
where
  "ensure_session_for_new_peer rd endpoint m =
     (if find_pending_session endpoint m \<noteq> None then Some (True, m)
      else if map_find (active_conn_id_by_endpoint m) endpoint \<noteq> None then Some (False, m)
      else case rd of
             rd1 # rd2 # rd \<Rightarrow>
               let m = m\<lparr>pending_by_endpoint := umap_assign endpoint (Session_random Server rd1 rd2)
                          (pending_by_endpoint m)\<rparr>
               in (case allocate_conn_id rd m of
                     None \<Rightarrow> None
                   | Some conn_id \<Rightarrow>
                       Some (True, m\<lparr>pending_by_endpoint := map_modify endpoint (assign_conn_id conn_id)
                               (pending_by_endpoint m)\<rparr>))
           | _ \<Rightarrow> None)"

definition route_new_peer ::
  "TransportSettings \<Rightarrow> u32 list \<Rightarrow> EndpointKey \<Rightarrow> bytes \<Rightarrow> Header \<Rightarrow> u64 \<Rightarrow> ServerSessionManager
   \<Rightarrow> (bool \<times> ServerSessionManager) option"
where
  "route_new_peer cfg rd endpoint bs header now_ms m =
     (if h_conn_id header \<noteq> 0 then Some (False, m)
      else case ensure_session_for_new_peer rd endpoint m of
             None \<Rightarrow> None
           | Some (found, m) \<Rightarrow>
               if \<not> found then Some (False, m)
               else Some (True, snd (try_dispatch_pending cfg endpoint bs now_ms m)))"

definition ssm_on_datagram_received ::
  "TransportSettings \<Rightarrow> u32 list \<Rightarrow> EndpointKey \<Rightarrow> bytes \<Rightarrow> u64 \<Rightarrow> ServerSessionManager
   \<Rightarrow> ServerSessionManager option"
where
  "ssm_on_datagram_received cfg rd endpoint bs now_ms m =
     (case decode bs of
        None \<Rightarrow> Some m
      | Some decoded \<Rightarrow>
     (case route_existing_active cfg endpoint bs (pv_header decoded) now_ms m of
        (True, m) \<Rightarrow> Some m
      | (False, m) \<Rightarrow>
     (case route_existing_pending cfg endpoint bs now_ms m of
        (True, m) \<Rightarrow> Some m
      | (False, m) \<Rightarrow> map_option snd (route_new_peer cfg rd endpoint bs (pv_header decoded) now_ms m))))"

section \<open>Polling\<close>

text \<open>The sessions after the poll, the datagrams, and the endpoints to clean up, in iteration order.\<close>

fun collect_pending_tx ::
  "TransportSettings \<Rightarrow> u64 \<Rightarrow> PendingMap \<Rightarrow> PendingMap \<times> OutboundDatagram list \<times> EndpointKey list"
where
  "collect_pending_tx cfg now_ms [] = ([], [], [])"
| "collect_pending_tx cfg now_ms ((endpoint, session) # rest) =
     (let (out, session) = poll_tx cfg now_ms session;
          (sessions, outbound, cleanup) = collect_pending_tx cfg now_ms rest
      in case out of
           Some bs \<Rightarrow>
             ((endpoint, session) # sessions,
              \<lparr>od_endpoint = endpoint, od_bytes = bs\<rparr> # outbound, cleanup)
         | None \<Rightarrow>
             ((endpoint, session) # sessions, outbound,
              if is_terminal_state (s_connection_state session) then endpoint # cleanup else cleanup))"

fun collect_active_tx ::
  "TransportSettings \<Rightarrow> u64 \<Rightarrow> EndpointToConnIdMap \<Rightarrow> ActiveMap
   \<Rightarrow> ActiveMap \<times> OutboundDatagram list \<times> (EndpointKey \<times> u32) list"
where
  "collect_active_tx cfg now_ms [] active = (active, [], [])"
| "collect_active_tx cfg now_ms ((endpoint, conn_id) # rest) active =
     (case map_find active conn_id of
        None \<Rightarrow> collect_active_tx cfg now_ms rest active
      | Some session \<Rightarrow>
          let (out, session) = poll_tx cfg now_ms session;
              active = map_modify conn_id (\<lambda>_. session) active;
              (active, outbound, cleanup) = collect_active_tx cfg now_ms rest active
          in case out of
               Some bs \<Rightarrow> (active, \<lparr>od_endpoint = endpoint, od_bytes = bs\<rparr> # outbound, cleanup)
             | None \<Rightarrow>
                 (active, outbound,
                  if is_terminal_state (s_connection_state session)
                  then (endpoint, conn_id) # cleanup else cleanup))"

definition ssm_poll_tx ::
  "TransportSettings \<Rightarrow> u64 \<Rightarrow> ServerSessionManager \<Rightarrow> OutboundDatagram list \<times> ServerSessionManager"
where
  "ssm_poll_tx cfg now_ms m =
     (let (pending, outbound1, pending_to_cleanup) =
            collect_pending_tx cfg now_ms (pending_by_endpoint m);
          m = m\<lparr>pending_by_endpoint := pending\<rparr>;
          (active, outbound2, active_to_cleanup) =
            collect_active_tx cfg now_ms (active_conn_id_by_endpoint m) (active_by_conn_id m);
          m = m\<lparr>active_by_conn_id := active\<rparr>;
          m = fold cleanup_pending_session pending_to_cleanup m;
          m = fold (\<lambda>(endpoint, conn_id). cleanup_active_session endpoint conn_id) active_to_cleanup m
      in (outbound1 @ outbound2, m))"

section \<open>Events and sending\<close>

definition drain_active_events ::
  "u32 \<Rightarrow> ServerSessionManager \<Rightarrow> SessionEvent list \<times> ServerSessionManager"
where
  "drain_active_events conn_id m =
     (case find_active_session conn_id m of
        None \<Rightarrow> ([], m)
      | Some session \<Rightarrow>
          let (events, session) = drain_events session
          in (events, m\<lparr>active_by_conn_id := map_modify conn_id (\<lambda>_. session) (active_by_conn_id m)\<rparr>))"

definition ssm_queue_send ::
  "u32 \<Rightarrow> u32 \<Rightarrow> ChannelType \<Rightarrow> bytes \<Rightarrow> ServerSessionManager \<Rightarrow> bool \<times> ServerSessionManager"
where
  "ssm_queue_send conn_id channel_id channel_type payload m =
     (case find_active_session conn_id m of
        None \<Rightarrow> (False, m)
      | Some session \<Rightarrow>
          (True, m\<lparr>active_by_conn_id := map_modify conn_id (queue_send channel_id channel_type payload)
                    (active_by_conn_id m)\<rparr>))"

fun drain_pending_loop :: "PendingMap \<Rightarrow> PendingMap \<times> ServerSessionEvent list" where
  "drain_pending_loop [] = ([], [])"
| "drain_pending_loop ((endpoint, session) # rest) =
     (let (drained, session) = drain_events session;
          (sessions, events) = drain_pending_loop rest
      in ((endpoint, session) # sessions,
          map (\<lambda>event. \<lparr>se_endpoint = endpoint,
                 se_conn_id = (if s_conn_id session \<noteq> 0 then Some (s_conn_id session) else None),
                 se_event = event\<rparr>) drained @ events))"

fun drain_active_loop ::
  "EndpointToConnIdMap \<Rightarrow> ActiveMap \<Rightarrow> ActiveMap \<times> ServerSessionEvent list"
where
  "drain_active_loop [] active = (active, [])"
| "drain_active_loop ((endpoint, conn_id) # rest) active =
     (case map_find active conn_id of
        None \<Rightarrow> drain_active_loop rest active
      | Some session \<Rightarrow>
          let (drained, session) = drain_events session;
              (active, events) = drain_active_loop rest (map_modify conn_id (\<lambda>_. session) active)
          in (active,
              map (\<lambda>event. \<lparr>se_endpoint = endpoint, se_conn_id = Some conn_id, se_event = event\<rparr>)
                drained @ events))"

definition ssm_drain_events ::
  "ServerSessionManager \<Rightarrow> ServerSessionEvent list \<times> ServerSessionManager"
where
  "ssm_drain_events m =
     (let (pending, events1) = drain_pending_loop (pending_by_endpoint m);
          (active, events2) = drain_active_loop (active_conn_id_by_endpoint m) (active_by_conn_id m)
      in (events1 @ events2, m\<lparr>pending_by_endpoint := pending, active_by_conn_id := active\<rparr>))"

end
