(* ===== verification/Manager_Invariant.thy ===== *)
theory Manager_Invariant
  imports Server_Session_Manager
begin

text \<open>
  The invariant of the server's connection table: which ids and endpoints are in use (the identity
  part, over the keys only), and that the sessions filed there are live server sessions. Every
  operation of \<open>src/ServerSessionManager.cpp\<close> keeps it.
\<close>

section \<open>Identity part\<close>

definition pending_ids :: "ServerSessionManager \<Rightarrow> (EndpointKey \<times> u32) list" where
  "pending_ids m = map (\<lambda>(e, s). (e, s_conn_id s)) (pending_by_endpoint m)"

definition active_ids :: "ServerSessionManager \<Rightarrow> u32 list" where
  "active_ids m = map fst (active_by_conn_id m)"

definition ids_ok :: "(EndpointKey \<times> u32) list \<Rightarrow> u32 list \<Rightarrow> (EndpointKey \<times> u32) list \<Rightarrow> u32 set \<Rightarrow> bool"
where
  "ids_ok P A I R \<longleftrightarrow>
     distinct (map fst (P @ I)) \<and> distinct (map snd P @ A) \<and>
     distinct (map snd I) \<and> set (map snd I) = set A \<and>
     0 \<notin> set (map snd P @ A) \<and> 0 \<notin> R \<and> R \<inter> set (map snd P @ A) = {}"

lemma ids_ok_pendingD:
  assumes "ids_ok P A I R" and "(e, c) \<in> set P"
  shows "c \<noteq> 0" and "c \<notin> set A" and "c \<notin> R" and "e \<notin> fst ` set I" and "c \<notin> snd ` set I"
proof -
  have "c \<in> snd ` set P" "e \<in> fst ` set P" using assms(2) by (auto intro: rev_image_eqI)
  then show "c \<noteq> 0" "c \<notin> set A" "c \<notin> R" "e \<notin> fst ` set I" "c \<notin> snd ` set I"
    using assms(1) unfolding ids_ok_def by auto
qed

lemma ids_ok_indexD:
  assumes "ids_ok P A I R" and "(e, c) \<in> set I"
  shows "c \<noteq> 0" and "c \<in> set A" and "c \<notin> R" and "e \<notin> fst ` set P" and "c \<notin> snd ` set P"
proof -
  have "c \<in> snd ` set I" "e \<in> fst ` set I" using assms(2) by (auto intro: rev_image_eqI)
  then show "c \<noteq> 0" "c \<in> set A" "c \<notin> R" "e \<notin> fst ` set P" "c \<notin> snd ` set P"
    using assms(1) unfolding ids_ok_def by auto
qed

lemma ids_ok_remove_pending:
  assumes "ids_ok P A I R" and "(e, c) \<in> set P"
  shows "ids_ok (filter (\<lambda>p. fst p \<noteq> e) P) A I (insert c R)"
proof -
  have d: "distinct (map fst P)" "distinct (map snd P)" using assms(1) by (auto simp: ids_ok_def)
  have "c \<notin> snd ` set (filter (\<lambda>p. fst p \<noteq> e) P)"
  proof
    assume "c \<in> snd ` set (filter (\<lambda>p. fst p \<noteq> e) P)"
    then obtain e' where "(e', c) \<in> set P" "e' \<noteq> e" by auto
    with d(2) assms(2) show False
      by (metis distinct_map inj_onD prod.inject snd_conv)
  qed
  moreover note ids_ok_pendingD(1,2) [OF assms]
  ultimately show ?thesis using assms(1)
    by (auto simp: ids_ok_def distinct_map_filter)
qed

lemma ids_ok_promote:
  assumes "ids_ok P A I R" and "(e, c) \<in> set P"
  shows "ids_ok (filter (\<lambda>p. fst p \<noteq> e) P) (A @ [c]) (I @ [(e, c)]) R"
proof -
  have "ids_ok (filter (\<lambda>p. fst p \<noteq> e) P) A I (insert c R)"
    by (rule ids_ok_remove_pending [OF assms])
  moreover note ids_ok_pendingD(3-5) [OF assms]
  ultimately show ?thesis by (auto simp: ids_ok_def)
qed

lemma ids_ok_remove_active:
  assumes "ids_ok P A I R" and "(e, c) \<in> set I"
  shows "ids_ok P (filter (\<lambda>x. x \<noteq> c) A) (filter (\<lambda>p. fst p \<noteq> e) I) (insert c R)"
proof -
  have d: "distinct (map fst I)" "distinct (map snd I)" using assms(1) by (auto simp: ids_ok_def)
  have same: "fst p = e \<longleftrightarrow> snd p = c" if "p \<in> set I" for p
    using that assms(2) d by (metis distinct_map inj_onD fst_conv snd_conv)
  have A: "set A = snd ` set I" using assms(1) by (auto simp: ids_ok_def)
  have "set (map snd (filter (\<lambda>p. fst p \<noteq> e) I)) = set (filter (\<lambda>x. x \<noteq> c) A)"
    using same A by auto
  moreover note ids_ok_indexD [OF assms]
  ultimately show ?thesis using assms(1)
    by (auto simp: ids_ok_def distinct_map_filter)
qed

lemma ids_ok_open:
  assumes "ids_ok P A I R" and "e \<notin> fst ` set P" and "e \<notin> fst ` set I"
    and "c \<noteq> 0" and "c \<notin> R" and "c \<notin> set A" and "c \<notin> snd ` set P"
  shows "ids_ok (P @ [(e, c)]) A I R"
  using assms by (auto simp: ids_ok_def)

lemma umap_assign_new: "k \<notin> fst ` set m \<Longrightarrow> umap_assign k v m = m @ [(k, v)]"
  unfolding umap_assign_def by (induction m) auto

lemma map_fst_erase: "map fst (map_erase k m) = filter (\<lambda>x. x \<noteq> k) (map fst m)"
  by (induction m) (auto simp: map_erase_def)

section \<open>Session part\<close>

definition server_session :: "TransportSettings \<Rightarrow> SessionState \<Rightarrow> bool" where
  "server_session cfg s \<longleftrightarrow> session_inv cfg s \<and> s_role s = Server"

definition sessions_ok :: "TransportSettings \<Rightarrow> ServerSessionManager \<Rightarrow> bool" where
  "sessions_ok cfg m \<longleftrightarrow>
     (\<forall>(e, s) \<in> set (pending_by_endpoint m). server_session cfg s) \<and>
     (\<forall>(c, s) \<in> set (active_by_conn_id m). server_session cfg s \<and> s_conn_id s = c)"

definition states_ok :: "ServerSessionManager \<Rightarrow> bool" where
  "states_ok m \<longleftrightarrow>
     (\<forall>(e, s) \<in> set (pending_by_endpoint m).
        \<not> is_terminal_state (s_connection_state s) \<and> s_connection_state s \<noteq> Established) \<and>
     (\<forall>(c, s) \<in> set (active_by_conn_id m). \<not> is_terminal_state (s_connection_state s))"

abbreviation table_ok :: "ServerSessionManager \<Rightarrow> bool" where
  "table_ok m \<equiv>
     ids_ok (pending_ids m) (active_ids m) (active_conn_id_by_endpoint m) (retired_conn_ids m)"

definition manager_inv :: "TransportSettings \<Rightarrow> ServerSessionManager \<Rightarrow> bool" where
  "manager_inv cfg m \<longleftrightarrow> table_ok m \<and> sessions_ok cfg m \<and> states_ok m"

text \<open>The operations of a session keep its role and, on the server side, its id.\<close>

lemma on_datagram_received_server:
  assumes "server_session cfg s"
  shows "server_session cfg (on_datagram_received cfg bs now s)"
    and "s_conn_id (on_datagram_received cfg bs now s) = s_conn_id s"
proof -
  have "s_role (on_datagram_received cfg bs now s) = Server \<and>
      s_conn_id (on_datagram_received cfg bs now s) = s_conn_id s"
  proof (cases rule: on_datagram_received_cases [of bs cfg now s])
    case ignored
    then show ?thesis using assms by (simp add: server_session_def)
  next
    case (packet pv kind s1 s2)
    have "s2 = s1" "s_role s1 = Server" "s_conn_id s1 = s_conn_id s"
      using packet(3,4) assms
      by (simp_all add: server_session_def should_adopt_server_conn_id_def frame_simps)
    then show ?thesis using packet(5)
      by (simp add: reset_for_conn_id_mismatch_def frame_simps process_packet_identity)
  qed
  then show "server_session cfg (on_datagram_received cfg bs now s)"
    and "s_conn_id (on_datagram_received cfg bs now s) = s_conn_id s"
    using assms on_datagram_received_inv by (simp_all add: server_session_def)
qed

lemma poll_tx_server:
  assumes "server_session cfg s"
  shows "server_session cfg (snd (poll_tx cfg now s))"
    and "s_conn_id (snd (poll_tx cfg now s)) = s_conn_id s"
  using assms poll_tx_sound(1) [of cfg s now] poll_tx_identity(1,2) [of cfg now s]
  by (metis prod.collapse server_session_def)+

lemma poll_tx_server_state:
  assumes "s_role s = Server" and "poll_tx cfg now s = (out, s')"
  shows "s_connection_state s' = s_connection_state s \<or> out = None \<and> s_connection_state s' = Reset"
proof (cases rule: poll_tx_cases [of cfg s now])
  case timeout
  then show ?thesis using assms by (auto simp: mark_idle_timeout_def)
next
  case (fatal s1 result cs tx)
  then show ?thesis using assms by auto
next
  case (sent s1 result cs tx bs)
  then show ?thesis using assms poll_state [OF sent(3)] by (auto simp: frame_simps)
next
  case (quiet s1 result cs tx)
  then show ?thesis using assms poll_state [OF quiet(3)] by (auto simp: frame_simps)
qed

lemma simple_ops_server:
  assumes "server_session cfg s"
  shows "named_channel t \<Longrightarrow> server_session cfg (queue_send c t payload s)"
    and "s_conn_id (queue_send c t payload s) = s_conn_id s"
    and "s_connection_state (queue_send c t payload s) = s_connection_state s"
    and "server_session cfg (snd (drain_events s))"
    and "s_conn_id (snd (drain_events s)) = s_conn_id s"
    and "s_connection_state (snd (drain_events s)) = s_connection_state s"
  using assms simple_ops_inv(1,4) [of cfg s]
  by (auto simp: server_session_def queue_send_def drain_events_def split: prod.splits)

section \<open>Removal and promotion keep the invariant\<close>

lemma pending_ids_modify:
  "(\<And>s. s_conn_id (f s) = s_conn_id s) \<Longrightarrow>
   map (\<lambda>(e, s). (e, s_conn_id s)) (map_modify k f m) = map (\<lambda>(e, s). (e, s_conn_id s)) m"
  by (induction m) (auto simp: map_modify_def)

lemma find_pending_ids:
  "find_pending_session e m = Some s \<Longrightarrow> (e, s_conn_id s) \<in> set (pending_ids m)"
  by (force simp: find_pending_session_def pending_ids_def dest: map_find_SomeD)

lemma pending_ids_erase:
  "map (\<lambda>(e, s). (e, s_conn_id s)) (map_erase k m) =
   filter (\<lambda>p. fst p \<noteq> k) (map (\<lambda>(e, s). (e, s_conn_id s)) m)"
  by (induction m) (auto simp: map_erase_def)

lemma nonzero_pending:
  "table_ok m \<Longrightarrow> find_pending_session e m = Some s \<Longrightarrow> s_conn_id s \<noteq> 0"
  by (rule ids_ok_pendingD(1) [OF _ find_pending_ids])

lemma cleanup_pending_fields:
  assumes "table_ok m" and "find_pending_session e m = Some s"
  shows "cleanup_pending_session e m =
    m\<lparr>pending_by_endpoint := map_erase e (pending_by_endpoint m),
      retired_conn_ids := insert (s_conn_id s) (retired_conn_ids m)\<rparr>"
  using assms nonzero_pending [OF assms] by (simp add: cleanup_pending_session_def Let_def)

lemma cleanup_pending_table:
  assumes "table_ok m"
  shows "table_ok (cleanup_pending_session e m)"
proof (cases "find_pending_session e m")
  case None
  then show ?thesis using assms by (simp add: cleanup_pending_session_def)
next
  case (Some s)
  show ?thesis
    using ids_ok_remove_pending [OF assms find_pending_ids [OF Some]]
    by (simp add: cleanup_pending_fields [OF assms Some] pending_ids_def pending_ids_erase active_ids_def)
qed

lemma sessions_ok_cleanup:
  "sessions_ok cfg m \<Longrightarrow> sessions_ok cfg (cleanup_pending_session e m)"
  "sessions_ok cfg m \<Longrightarrow> sessions_ok cfg (cleanup_active_session e c m)"
  by (auto simp: sessions_ok_def cleanup_pending_session_def cleanup_active_session_def map_erase_def
      Let_def split: option.splits)

lemma cleanup_active_fields:
  assumes "table_ok m" and "(e, c) \<in> set (active_conn_id_by_endpoint m)"
  shows "cleanup_active_session e c m =
    m\<lparr>active_by_conn_id := map_erase c (active_by_conn_id m),
      active_conn_id_by_endpoint := map_erase e (active_conn_id_by_endpoint m),
      retired_conn_ids := insert c (retired_conn_ids m)\<rparr>"
proof -
  have "distinct (map fst (active_conn_id_by_endpoint m))" using assms(1) by (auto simp: ids_ok_def)
  then have "map_find (active_conn_id_by_endpoint m) e = Some c" using assms(2) by (rule map_find_in)
  moreover have "c \<noteq> 0" using assms by (rule ids_ok_indexD)
  ultimately show ?thesis by (simp add: cleanup_active_session_def Let_def)
qed

lemma cleanup_active_table:
  assumes "table_ok m" and "(e, c) \<in> set (active_conn_id_by_endpoint m)"
  shows "table_ok (cleanup_active_session e c m)"
  using ids_ok_remove_active [OF assms]
  by (simp add: cleanup_active_fields [OF assms] pending_ids_def active_ids_def map_fst_erase)
    (simp add: map_erase_def)

lemma promote_fields:
  assumes "table_ok m" and "find_pending_session e m = Some s"
  shows "promote_pending_session e m =
    m\<lparr>active_conn_id_by_endpoint := active_conn_id_by_endpoint m @ [(e, s_conn_id s)],
      active_by_conn_id := active_by_conn_id m @ [(s_conn_id s, s)],
      pending_by_endpoint := map_erase e (pending_by_endpoint m)\<rparr>"
proof -
  note id = ids_ok_pendingD [OF assms(1) find_pending_ids [OF assms(2)]]
  have "e \<notin> fst ` set (active_conn_id_by_endpoint m)" by (rule id)
  moreover have "s_conn_id s \<notin> fst ` set (active_by_conn_id m)" using id(2) by (simp add: active_ids_def)
  ultimately show ?thesis using nonzero_pending [OF assms] assms(2)
    by (simp add: promote_pending_session_def umap_assign_new Let_def)
qed

lemma promote_table:
  assumes "table_ok m" and "find_pending_session e m = Some s"
  shows "table_ok (promote_pending_session e m)"
  using ids_ok_promote [OF assms(1) find_pending_ids [OF assms(2)]]
  by (simp add: promote_fields [OF assms] pending_ids_def pending_ids_erase active_ids_def)

section \<open>Routing keeps the invariant\<close>

lemma set_map_modify:
  "set (map_modify k f m) = (\<lambda>(k', v). (k', if k' = k then f v else v)) ` set m"
  by (simp add: map_modify_def)

lemma table_ok_distinct:
  assumes "table_ok m"
  shows "distinct (map fst (pending_by_endpoint m))" and "distinct (map fst (active_by_conn_id m))"
    and "distinct (map fst (active_conn_id_by_endpoint m))"
proof -
  have "map fst (pending_ids m) = map fst (pending_by_endpoint m)"
    unfolding pending_ids_def by (induction "pending_by_endpoint m") auto
  then show "distinct (map fst (pending_by_endpoint m))" "distinct (map fst (active_by_conn_id m))"
    "distinct (map fst (active_conn_id_by_endpoint m))"
    using assms unfolding ids_ok_def active_ids_def by auto
qed

text \<open>
  Changing the sessions of a table by a function that keeps ids and roles keeps everything but
  possibly the states.
\<close>

lemma modify_active_ok:
  assumes "table_ok m" and "sessions_ok cfg m"
    and "\<And>s. server_session cfg s \<Longrightarrow> server_session cfg (f s) \<and> s_conn_id (f s) = s_conn_id s"
    and "m' = m\<lparr>active_by_conn_id := map_modify c f (active_by_conn_id m)\<rparr>"
  shows "table_ok m'" and "sessions_ok cfg m'"
  using assms(1-3) unfolding assms(4)
  by (auto simp: pending_ids_def active_ids_def sessions_ok_def set_map_modify)

lemma modify_pending_ids:
  assumes "\<forall>(e', s) \<in> set ps. server_session cfg s"
    and "\<And>s. server_session cfg s \<Longrightarrow> s_conn_id (f s) = s_conn_id s"
  shows "map (\<lambda>(e, s). (e, s_conn_id s)) (map_modify e f ps) = map (\<lambda>(e, s). (e, s_conn_id s)) ps"
  using assms by (induction ps) (auto simp: map_modify_def)

lemma modify_pending_ok:
  assumes "table_ok m" and "sessions_ok cfg m"
    and "\<And>s. server_session cfg s \<Longrightarrow> server_session cfg (f s) \<and> s_conn_id (f s) = s_conn_id s"
    and "m' = m\<lparr>pending_by_endpoint := map_modify e f (pending_by_endpoint m)\<rparr>"
  shows "table_ok m'" and "sessions_ok cfg m'"
proof -
  have "pending_ids m' = pending_ids m"
    unfolding assms(4) pending_ids_def using assms(2,3)
    by (auto simp: sessions_ok_def intro!: modify_pending_ids)
  then show "table_ok m'" using assms(1) by (simp add: assms(4) active_ids_def)
  show "sessions_ok cfg m'" using assms(2,3) unfolding assms(4)
    by (auto simp: sessions_ok_def set_map_modify)
qed

lemma key_unique:
  "distinct (map fst m) \<Longrightarrow> map_find m k = Some v \<Longrightarrow> (k, v') \<in> set m \<Longrightarrow> v' = v"
  by (metis map_find_in option.inject)

lemma try_dispatch_active_inv:
  assumes "manager_inv cfg m" and "(e, c) \<in> set (active_conn_id_by_endpoint m)"
    and "try_dispatch_active cfg e bs c now m = (ok, m')"
  shows "manager_inv cfg m'"
proof (cases "find_active_session c m")
  case None
  then show ?thesis using assms by (simp add: try_dispatch_active_def)
next
  case (Some s)
  let ?f = "on_datagram_received cfg bs now"
  let ?m = "m\<lparr>active_by_conn_id := map_modify c ?f (active_by_conn_id m)\<rparr>"
  have inv: "table_ok m" "sessions_ok cfg m" "states_ok m" using assms(1) by (simp_all add: manager_inv_def)
  have f: "server_session cfg s \<Longrightarrow> server_session cfg (?f s) \<and> s_conn_id (?f s) = s_conn_id s" for s
    using on_datagram_received_server by blast
  note m = modify_active_ok [where c = c, OF inv(1,2) f refl]
  have found: "find_active_session c ?m = Some (?f s)"
    using Some by (simp add: find_active_session_def map_find_map_modify)
  have m': "m' = cleanup_active_if_terminal e c ?m"
    using assms(3) Some by (simp add: try_dispatch_active_def Let_def)
  have in': "(e, c) \<in> set (active_conn_id_by_endpoint ?m)" using assms(2) by simp
  have others: "\<not> is_terminal_state (s_connection_state s')"
    if "(c', s') \<in> set (active_by_conn_id ?m)" "c' \<noteq> c" for c' s'
    using that inv(3) by (auto simp: states_ok_def set_map_modify split: if_splits)
  have here: "s' = ?f s" if "(c, s') \<in> set (active_by_conn_id ?m)" for s'
    using key_unique [OF table_ok_distinct(2) [OF m(1)]] found that by (simp add: find_active_session_def)
  show ?thesis
  proof (cases "is_terminal_state (s_connection_state (?f s))")
    case False
    then have "states_ok ?m" using inv(3) others here by (auto simp: states_ok_def)
    then show ?thesis using m False found
      by (simp add: m' cleanup_active_if_terminal_def manager_inv_def)
  next
    case True
    then have "m' = cleanup_active_session e c ?m" using found by (simp add: m' cleanup_active_if_terminal_def)
    moreover have eq: "cleanup_active_session e c ?m =
        ?m\<lparr>active_by_conn_id := map_erase c (active_by_conn_id ?m),
          active_conn_id_by_endpoint := map_erase e (active_conn_id_by_endpoint ?m),
          retired_conn_ids := insert c (retired_conn_ids ?m)\<rparr>"
      by (rule cleanup_active_fields [OF m(1) in'])
    have "states_ok (cleanup_active_session e c ?m)"
      using inv(3) others unfolding eq by (auto simp: states_ok_def map_erase_def)
    ultimately show ?thesis using m cleanup_active_table [OF m(1) in'] sessions_ok_cleanup(2)
      by (simp add: manager_inv_def)
  qed
qed

text \<open>
  The same for a pending session, under a weaker premise: the session the datagram goes to may be new
  and still closed.
\<close>

definition states_ok_but :: "EndpointKey \<Rightarrow> ServerSessionManager \<Rightarrow> bool" where
  "states_ok_but e m \<longleftrightarrow>
     (\<forall>(e', s) \<in> set (pending_by_endpoint m). e' \<noteq> e \<longrightarrow>
        \<not> is_terminal_state (s_connection_state s) \<and> s_connection_state s \<noteq> Established) \<and>
     (\<forall>(c, s) \<in> set (active_by_conn_id m). \<not> is_terminal_state (s_connection_state s))"

lemma promote_inv:
  assumes "table_ok m" and "sessions_ok cfg m" and "states_ok_but e m"
    and "find_pending_session e m = Some s" and "s_connection_state s = Established"
  shows "manager_inv cfg (promote_pending_session e m)"
proof -
  have eq: "promote_pending_session e m =
      m\<lparr>active_conn_id_by_endpoint := active_conn_id_by_endpoint m @ [(e, s_conn_id s)],
        active_by_conn_id := active_by_conn_id m @ [(s_conn_id s, s)],
        pending_by_endpoint := map_erase e (pending_by_endpoint m)\<rparr>"
    by (rule promote_fields [OF assms(1,4)])
  have "server_session cfg s"
    using assms(2,4) map_find_SomeD by (force simp: sessions_ok_def find_pending_session_def)
  then have "sessions_ok cfg (promote_pending_session e m)"
    using assms(2) unfolding eq by (auto simp: sessions_ok_def map_erase_def)
  moreover have "states_ok (promote_pending_session e m)"
    using assms(3,5) unfolding eq by (auto simp: states_ok_def states_ok_but_def map_erase_def is_terminal_state_def)
  ultimately show ?thesis using promote_table [OF assms(1,4)] by (simp add: manager_inv_def)
qed

lemma cleanup_pending_inv:
  assumes "table_ok m" and "sessions_ok cfg m" and "states_ok_but e m"
    and "find_pending_session e m = Some s"
  shows "manager_inv cfg (cleanup_pending_session e m)"
proof -
  have eq: "cleanup_pending_session e m =
      m\<lparr>pending_by_endpoint := map_erase e (pending_by_endpoint m),
        retired_conn_ids := insert (s_conn_id s) (retired_conn_ids m)\<rparr>"
    by (rule cleanup_pending_fields [OF assms(1,4)])
  have "states_ok (cleanup_pending_session e m)"
    using assms(3) unfolding eq by (auto simp: states_ok_def states_ok_but_def map_erase_def)
  then show ?thesis using cleanup_pending_table [OF assms(1)] sessions_ok_cleanup(1) [OF assms(2)]
    by (simp add: manager_inv_def)
qed

lemma kept_pending_inv:
  assumes "table_ok m" and "sessions_ok cfg m" and "states_ok_but e m"
    and "find_pending_session e m = Some s"
    and "\<not> is_terminal_state (s_connection_state s)" and "s_connection_state s \<noteq> Established"
  shows "manager_inv cfg m"
proof -
  have "s' = s" if "(e, s') \<in> set (pending_by_endpoint m)" for s'
    using key_unique [OF table_ok_distinct(1) [OF assms(1)]] assms(4) that by (simp add: find_pending_session_def)
  then have "states_ok m" using assms(3,5,6) by (fastforce simp: states_ok_def states_ok_but_def)
  then show ?thesis using assms(1,2) by (simp add: manager_inv_def)
qed

lemma try_dispatch_pending_inv:
  assumes "table_ok m" and "sessions_ok cfg m" and "states_ok_but e m"
    and "find_pending_session e m = Some s"
    and "try_dispatch_pending cfg e bs now m = (ok, m')"
  shows "manager_inv cfg m'"
proof -
  let ?f = "on_datagram_received cfg bs now"
  let ?m = "m\<lparr>pending_by_endpoint := map_modify e ?f (pending_by_endpoint m)\<rparr>"
  have f: "server_session cfg s \<Longrightarrow> server_session cfg (?f s) \<and> s_conn_id (?f s) = s_conn_id s" for s
    using on_datagram_received_server by blast
  note m = modify_pending_ok [where e = e, OF assms(1,2) f refl]
  have but: "states_ok_but e ?m"
    using assms(3) by (auto simp: states_ok_but_def set_map_modify split: if_splits)
  have found: "find_pending_session e ?m = Some (?f s)"
    using assms(4) by (simp add: find_pending_session_def map_find_map_modify)
  consider (promote) "s_connection_state (?f s) = Established" "m' = promote_pending_session e ?m"
    | (clean) "m' = cleanup_pending_session e ?m"
    | (stay) "s_connection_state (?f s) \<noteq> Established" "\<not> is_terminal_state (s_connection_state (?f s))"
        "m' = ?m"
    using assms(4,5) found
    by (auto simp: try_dispatch_pending_def Let_def cleanup_pending_if_terminal_def split: if_splits)
  then show ?thesis
  proof cases
    case promote
    show ?thesis unfolding promote(2) by (rule promote_inv [OF m but found promote(1)])
  next
    case clean
    show ?thesis unfolding clean by (rule cleanup_pending_inv [OF m but found])
  next
    case stay
    show ?thesis unfolding stay(3) by (rule kept_pending_inv [OF m but found stay(2,1)])
  qed
qed

lemma states_ok_but_weaken: "states_ok m \<Longrightarrow> states_ok_but e m"
  by (auto simp: states_ok_def states_ok_but_def)

lemma route_existing_active_inv:
  assumes "manager_inv cfg m" and "route_existing_active cfg e bs h now m = (ok, m')"
  shows "manager_inv cfg m'"
proof -
  have "manager_inv cfg m'" if "is_active_endpoint_match e (h_conn_id h) m"
    "try_dispatch_active cfg e bs (h_conn_id h) now m = (ok, m')"
    using that(1) by (intro try_dispatch_active_inv [OF assms(1) _ that(2)])
      (auto simp: is_active_endpoint_match_def split: option.splits dest: map_find_SomeD)
  then show ?thesis using assms by (auto simp: route_existing_active_def split: if_splits)
qed

lemma dispatch_pending_inv:
  assumes "manager_inv cfg m" and "try_dispatch_pending cfg e bs now m = (ok, m')"
  shows "manager_inv cfg m'"
proof (cases "find_pending_session e m")
  case None
  then show ?thesis using assms by (simp add: try_dispatch_pending_def)
next
  case (Some s)
  then show ?thesis using assms
    by (intro try_dispatch_pending_inv [OF _ _ _ Some assms(2)])
      (simp_all add: manager_inv_def states_ok_but_weaken)
qed

lemma allocate_conn_id_fresh:
  "allocate_conn_id rd m = Some c \<Longrightarrow> \<not> conn_id_is_in_use c m"
  by (induction rd m rule: allocate_conn_id.induct) (auto simp: Let_def split: if_splits)

lemma map_modify_append_new:
  "k \<notin> fst ` set m \<Longrightarrow> map_modify k f (m @ [(k, v)]) = m @ [(k, f v)]"
  by (auto simp: map_modify_def rev_image_eqI intro!: map_idI)

lemma ensure_session_cases:
  assumes "ensure_session_for_new_peer rd e m = Some (found, m')"
  obtains (old) "m' = m"
  | (fresh) rd1 rd2 c where "found" and "find_pending_session e m = None"
      and "e \<notin> fst ` set (pending_by_endpoint m)" and "e \<notin> fst ` set (active_conn_id_by_endpoint m)"
      and "\<not> conn_id_is_in_use c m"
      and "m' = m\<lparr>pending_by_endpoint := pending_by_endpoint m @
        [(e, assign_conn_id c (Session_random Server rd1 rd2))]\<rparr>"
proof (cases "find_pending_session e m \<noteq> None \<or> map_find (active_conn_id_by_endpoint m) e \<noteq> None")
  case True
  then show ?thesis using assms old by (auto simp: ensure_session_for_new_peer_def split: if_splits)
next
  case False
  then have e: "e \<notin> fst ` set (pending_by_endpoint m)" "e \<notin> fst ` set (active_conn_id_by_endpoint m)"
    "find_pending_session e m = None"
    by (simp_all add: find_pending_session_def map_find_None_iff)
  let ?m = "\<lambda>rd1 rd2. m\<lparr>pending_by_endpoint := pending_by_endpoint m @ [(e, Session_random Server rd1 rd2)]\<rparr>"
  from assms False e obtain rd1 rd2 rd' c where
    alloc: "allocate_conn_id rd' (?m rd1 rd2) = Some c" and found and
    m': "m' = m\<lparr>pending_by_endpoint := map_modify e (assign_conn_id c)
      (pending_by_endpoint m @ [(e, Session_random Server rd1 rd2)])\<rparr>"
    by (auto simp: ensure_session_for_new_peer_def umap_assign_new Let_def split: list.splits option.splits)
  have "\<not> conn_id_is_in_use c m"
    using allocate_conn_id_fresh [OF alloc] by (auto simp: conn_id_is_in_use_def split: if_splits)
  then show ?thesis using fresh [OF \<open>found\<close> e(3,1,2)] m' e(1) by (simp add: map_modify_append_new)
qed

lemma new_session_server:
  "server_session cfg (assign_conn_id c (Session_random Server rd1 rd2))"
  by (simp add: server_session_def Session_random_def simple_ops_inv(3) session_inv_init)
    (simp add: assign_conn_id_def Session_def)

lemma not_in_use_fresh:
  assumes "\<not> conn_id_is_in_use c m"
  shows "c \<noteq> 0" and "c \<notin> retired_conn_ids m" and "c \<notin> set (active_ids m)"
    and "c \<notin> snd ` set (pending_ids m)"
  using assms
  by (auto simp: conn_id_is_in_use_def active_ids_def pending_ids_def map_find_None_iff list_ex_iff
      split: if_splits)

lemma route_new_peer_inv:
  assumes "manager_inv cfg m" and "route_new_peer cfg rd e bs h now m = Some (ok, m')"
  shows "manager_inv cfg m'"
proof (cases "h_conn_id h = 0")
  case False
  then show ?thesis using assms by (simp add: route_new_peer_def)
next
  case True
  then obtain found m1 where ens: "ensure_session_for_new_peer rd e m = Some (found, m1)"
    and m': "m' = (if found then snd (try_dispatch_pending cfg e bs now m1) else m1)"
    using assms(2) by (auto simp: route_new_peer_def split: option.splits prod.splits if_splits)
  show ?thesis using ens
  proof (cases rule: ensure_session_cases)
    case old
    then show ?thesis using m' dispatch_pending_inv [OF assms(1)] assms(1) by (metis prod.collapse)
  next
    case (fresh rd1 rd2 c)
    let ?s = "assign_conn_id c (Session_random Server rd1 rd2)"
    have inv: "table_ok m" "sessions_ok cfg m" "states_ok m" using assms(1) by (simp_all add: manager_inv_def)
    have "pending_ids m1 = pending_ids m @ [(e, c)]"
      by (simp add: fresh(6) pending_ids_def assign_conn_id_def)
    moreover have "fst ` set (pending_ids m) = fst ` set (pending_by_endpoint m)"
      by (force simp: pending_ids_def)
    ultimately have "table_ok m1"
      using ids_ok_open [OF inv(1), of e c] fresh(3,4) not_in_use_fresh [OF fresh(5)]
      by (simp add: fresh(6) active_ids_def)
    moreover have "sessions_ok cfg m1"
      using inv(2) new_session_server by (auto simp: fresh(6) sessions_ok_def)
    moreover have "states_ok_but e m1" using inv(3) by (auto simp: fresh(6) states_ok_def states_ok_but_def)
    moreover have "find_pending_session e m1 = Some ?s"
      using fresh(3) by (simp add: fresh(6) find_pending_session_def map_find_def map_add_Some_iff
          map_of_eq_None_iff)
    ultimately show ?thesis using m' \<open>found\<close> try_dispatch_pending_inv by (metis prod.collapse)
  qed
qed

lemma ssm_on_datagram_received_inv:
  assumes "manager_inv cfg m" and "ssm_on_datagram_received cfg rd e bs now m = Some m'"
  shows "manager_inv cfg m'"
proof (cases "decode bs")
  case None
  then show ?thesis using assms by (simp add: ssm_on_datagram_received_def)
next
  case (Some pv)
  obtain ok1 m1 where a: "route_existing_active cfg e bs (pv_header pv) now m = (ok1, m1)" by fastforce
  obtain ok2 m2 where p: "route_existing_pending cfg e bs now m1 = (ok2, m2)" by fastforce
  have i1: "manager_inv cfg m1" using route_existing_active_inv [OF assms(1) a] .
  have i2: "manager_inv cfg m2" using dispatch_pending_inv [OF i1] p by (simp add: route_existing_pending_def)
  consider "m' = m1" | "m' = m2" | ok3 where "route_new_peer cfg rd e bs (pv_header pv) now m2 = Some (ok3, m')"
    using assms(2) Some a p
    by (auto simp: ssm_on_datagram_received_def split: bool.splits)
  then show ?thesis using i1 i2 route_new_peer_inv by cases auto
qed

section \<open>Polling keeps the invariant\<close>

text \<open>What the two collection loops compute: every session is polled once.\<close>

definition polled :: "TransportSettings \<Rightarrow> u64 \<Rightarrow> SessionState \<Rightarrow> SessionState" where
  "polled cfg now s = snd (poll_tx cfg now s)"

definition outbound_of ::
  "TransportSettings \<Rightarrow> u64 \<Rightarrow> EndpointKey \<Rightarrow> SessionState \<Rightarrow> OutboundDatagram list"
where
  "outbound_of cfg now e s =
     (case fst (poll_tx cfg now s) of None \<Rightarrow> [] | Some bs \<Rightarrow> [\<lparr>od_endpoint = e, od_bytes = bs\<rparr>])"

definition expires :: "TransportSettings \<Rightarrow> u64 \<Rightarrow> SessionState \<Rightarrow> bool" where
  "expires cfg now s \<longleftrightarrow>
     fst (poll_tx cfg now s) = None \<and> is_terminal_state (s_connection_state (polled cfg now s))"

lemma collect_pending_tx_exact:
  "collect_pending_tx cfg now ps =
     (map (\<lambda>(e, s). (e, polled cfg now s)) ps,
      concat (map (\<lambda>(e, s). outbound_of cfg now e s) ps),
      map fst (filter (\<lambda>(e, s). expires cfg now s) ps))"
  by (induction ps)
    (auto simp: polled_def outbound_of_def expires_def Let_def split: prod.splits option.splits)

definition active_poll ::
  "TransportSettings \<Rightarrow> u64 \<Rightarrow> u32 set \<Rightarrow> ActiveMap \<Rightarrow> ActiveMap"
where
  "active_poll cfg now ids active = map (\<lambda>(c, s). (c, if c \<in> ids then polled cfg now s else s)) active"

lemma active_poll_insert:
  assumes "distinct (map fst active)" and "map_find active c = Some s" and "c \<notin> ids"
  shows "active_poll cfg now ids (map_modify c (\<lambda>_. polled cfg now s) active) =
    active_poll cfg now (insert c ids) active"
  using assms
  by (auto simp: active_poll_def map_modify_def dest: key_unique [OF assms(1,2)])

lemma collect_active_tx_exact:
  assumes "distinct (map fst active)" and "distinct (map snd idx)"
    and "snd ` set idx \<subseteq> fst ` set active"
  shows "collect_active_tx cfg now idx active =
    (active_poll cfg now (snd ` set idx) active,
     concat (map (\<lambda>(e, c). outbound_of cfg now e (the (map_find active c))) idx),
     filter (\<lambda>(e, c). expires cfg now (the (map_find active c))) idx)"
  using assms
proof (induction idx arbitrary: active)
  case Nil
  then show ?case by (auto simp: active_poll_def intro!: map_idI)
next
  case (Cons p idx)
  obtain e c where p: "p = (e, c)" by fastforce
  with Cons.prems obtain s where s: "map_find active c = Some s"
    using map_find_None_iff [of active c] by fastforce
  let ?active = "map_modify c (\<lambda>_. polled cfg now s) active"
  have c: "c \<notin> snd ` set idx" using Cons.prems(2) p by simp
  have keys: "fst ` set ?active = fst ` set active"
    by (metis list.set_map map_fst_map_modify)
  have IH: "collect_active_tx cfg now idx ?active =
    (active_poll cfg now (snd ` set idx) ?active,
     concat (map (\<lambda>(e, c). outbound_of cfg now e (the (map_find ?active c))) idx),
     filter (\<lambda>(e, c). expires cfg now (the (map_find ?active c))) idx)"
    using Cons.prems p keys by (intro Cons.IH) auto
  have same: "map_find ?active c' = map_find active c'" if "(e', c') \<in> set idx" for e' c'
    using that c by (force simp: map_find_map_modify)
  have out: "concat (map (\<lambda>(e, c). outbound_of cfg now e (the (map_find ?active c))) idx) =
      concat (map (\<lambda>(e, c). outbound_of cfg now e (the (map_find active c))) idx)"
    using same by (intro arg_cong [where f = concat] map_cong) auto
  have clean: "filter (\<lambda>(e, c). expires cfg now (the (map_find ?active c))) idx =
      filter (\<lambda>(e, c). expires cfg now (the (map_find active c))) idx"
    using same by (intro filter_cong) auto
  show ?case
    using IH s unfolding p out clean active_poll_insert [OF Cons.prems(1) s c]
    by (auto simp: polled_def outbound_of_def expires_def Let_def split: prod.splits option.splits)
qed

lemma map_erase_absent: "k \<notin> fst ` set m \<Longrightarrow> map_erase k m = m"
  by (force simp: map_erase_def filter_id_conv)

lemma fold_cleanup_pending:
  assumes "table_ok m" and "sessions_ok cfg m"
  shows "table_ok (fold cleanup_pending_session es m) \<and>
    sessions_ok cfg (fold cleanup_pending_session es m) \<and>
    pending_by_endpoint (fold cleanup_pending_session es m) =
      filter (\<lambda>p. fst p \<notin> set es) (pending_by_endpoint m) \<and>
    active_by_conn_id (fold cleanup_pending_session es m) = active_by_conn_id m \<and>
    active_conn_id_by_endpoint (fold cleanup_pending_session es m) = active_conn_id_by_endpoint m"
  using assms
proof (induction es arbitrary: m)
  case (Cons e es)
  let ?m = "cleanup_pending_session e m"
  have fields: "pending_by_endpoint ?m = map_erase e (pending_by_endpoint m)"
    "active_by_conn_id ?m = active_by_conn_id m"
    "active_conn_id_by_endpoint ?m = active_conn_id_by_endpoint m"
    by (auto simp: cleanup_pending_session_def find_pending_session_def Let_def
        map_find_None_iff map_erase_absent split: option.splits)
  note IH = Cons.IH [OF cleanup_pending_table [OF Cons.prems(1)] sessions_ok_cleanup(1) [OF Cons.prems(2)]]
  show ?case unfolding fold_Cons comp_def
    using IH [where e1 = e] fields by (auto simp: map_erase_def conj_commute)
qed simp

lemma fold_cleanup_active:
  assumes "table_ok m" and "sessions_ok cfg m" and "set xs \<subseteq> set (active_conn_id_by_endpoint m)"
    and "distinct (map fst xs)"
  shows "table_ok (fold (\<lambda>(e, c). cleanup_active_session e c) xs m) \<and>
    sessions_ok cfg (fold (\<lambda>(e, c). cleanup_active_session e c) xs m) \<and>
    active_by_conn_id (fold (\<lambda>(e, c). cleanup_active_session e c) xs m) =
      filter (\<lambda>p. fst p \<notin> snd ` set xs) (active_by_conn_id m) \<and>
    pending_by_endpoint (fold (\<lambda>(e, c). cleanup_active_session e c) xs m) = pending_by_endpoint m"
  using assms
proof (induction xs arbitrary: m)
  case (Cons x xs)
  obtain e c where x: "x = (e, c)" by fastforce
  then have ec: "(e, c) \<in> set (active_conn_id_by_endpoint m)" using Cons.prems(3) by simp
  let ?m = "cleanup_active_session e c m"
  note fields = cleanup_active_fields [OF Cons.prems(1) ec]
  have "set xs \<subseteq> set (active_conn_id_by_endpoint ?m)"
    using Cons.prems(3,4) x by (force simp: fields map_erase_def)
  note IH = Cons.IH [OF cleanup_active_table [OF Cons.prems(1) ec] sessions_ok_cleanup(2) [OF Cons.prems(2)]
      this]
  show ?case using IH Cons.prems(4) unfolding x fold_Cons comp_def prod.case
    by (auto simp: fields map_erase_def conj_commute)
qed simp

lemma filter_keys_map:
  assumes "\<And>k v. (k, v) \<in> set m \<Longrightarrow> P k \<longleftrightarrow> Q v"
  shows "filter (\<lambda>p. P (fst p)) (map (\<lambda>(k, v). (k, f v)) m) =
    map (\<lambda>(k, v). (k, f v)) (filter (\<lambda>(k, v). Q v) m)"
proof -
  have "\<forall>p \<in> set m. P (fst p) = Q (snd p)" using assms by auto
  then show ?thesis by (induction m) auto
qed

text \<open>A poll of the table: all sessions are polled, then the expired ones are removed.\<close>

definition polled_table :: "TransportSettings \<Rightarrow> u64 \<Rightarrow> ServerSessionManager \<Rightarrow> ServerSessionManager" where
  "polled_table cfg now m =
     m\<lparr>pending_by_endpoint := map (\<lambda>(e, s). (e, polled cfg now s)) (pending_by_endpoint m),
       active_by_conn_id := map (\<lambda>(c, s). (c, polled cfg now s)) (active_by_conn_id m)\<rparr>"

definition expired_pending :: "TransportSettings \<Rightarrow> u64 \<Rightarrow> ServerSessionManager \<Rightarrow> EndpointKey list" where
  "expired_pending cfg now m = map fst (filter (\<lambda>(e, s). expires cfg now s) (pending_by_endpoint m))"

definition expired_active ::
  "TransportSettings \<Rightarrow> u64 \<Rightarrow> ServerSessionManager \<Rightarrow> (EndpointKey \<times> u32) list"
where
  "expired_active cfg now m =
     filter (\<lambda>(e, c). expires cfg now (the (map_find (active_by_conn_id m) c)))
       (active_conn_id_by_endpoint m)"

lemma ssm_poll_tx_shape:
  assumes "manager_inv cfg m"
  shows "ssm_poll_tx cfg now m =
    (concat (map (\<lambda>(e, s). outbound_of cfg now e s) (pending_by_endpoint m)) @
     concat (map (\<lambda>(e, c). outbound_of cfg now e (the (map_find (active_by_conn_id m) c)))
        (active_conn_id_by_endpoint m)),
     fold (\<lambda>(e, c). cleanup_active_session e c) (expired_active cfg now m)
       (fold cleanup_pending_session (expired_pending cfg now m) (polled_table cfg now m)))"
proof -
  let ?A = "active_by_conn_id m" and ?I = "active_conn_id_by_endpoint m"
  have inv: "table_ok m" using assms by (simp add: manager_inv_def)
  note dist = table_ok_distinct [OF inv]
  have idx: "distinct (map snd ?I)" "snd ` set ?I = fst ` set ?A"
    using inv by (auto simp: ids_ok_def active_ids_def)
  have "active_poll cfg now (snd ` set ?I) ?A = map (\<lambda>(c, s). (c, polled cfg now s)) ?A"
    unfolding active_poll_def idx(2) by (rule map_cong) (force split: prod.splits)+
  then show ?thesis
    using collect_active_tx_exact [OF dist(2) idx(1) eq_refl [OF idx(2)], of cfg now]
    by (simp add: ssm_poll_tx_def collect_pending_tx_exact Let_def expired_pending_def
        expired_active_def polled_table_def)
qed

lemma polled_table_ok:
  assumes "table_ok m" and "sessions_ok cfg m"
  shows "pending_ids (polled_table cfg now m) = pending_ids m"
    and "active_ids (polled_table cfg now m) = active_ids m"
    and "active_conn_id_by_endpoint (polled_table cfg now m) = active_conn_id_by_endpoint m"
    and "retired_conn_ids (polled_table cfg now m) = retired_conn_ids m"
    and "table_ok (polled_table cfg now m)" and "sessions_ok cfg (polled_table cfg now m)"
proof -
  show ids: "pending_ids (polled_table cfg now m) = pending_ids m"
    "active_ids (polled_table cfg now m) = active_ids m"
    using assms(2) poll_tx_server(2)
    unfolding sessions_ok_def pending_ids_def active_ids_def polled_table_def polled_def
    by (auto simp: o_def split_beta)
  show same: "active_conn_id_by_endpoint (polled_table cfg now m) = active_conn_id_by_endpoint m"
    "retired_conn_ids (polled_table cfg now m) = retired_conn_ids m"
    by (simp_all add: polled_table_def)
  show "table_ok (polled_table cfg now m)" using assms(1) by (simp add: ids same)
  show "sessions_ok cfg (polled_table cfg now m)"
    using assms(2) poll_tx_server by (auto simp: polled_table_def sessions_ok_def polled_def)
qed

lemma expired_active_listed:
  assumes "table_ok m"
  shows "set (expired_active cfg now m) \<subseteq> set (active_conn_id_by_endpoint m)"
    and "distinct (map fst (expired_active cfg now m))"
  using table_ok_distinct(3) [OF assms] by (auto simp: expired_active_def distinct_map_filter)

lemma ssm_poll_tx_exact:
  assumes "manager_inv cfg m" and "ssm_poll_tx cfg now m = (out, m')"
  shows "pending_by_endpoint m' = map (\<lambda>(e, s). (e, polled cfg now s))
      (filter (\<lambda>(e, s). \<not> expires cfg now s) (pending_by_endpoint m))"
    and "active_by_conn_id m' = map (\<lambda>(c, s). (c, polled cfg now s))
      (filter (\<lambda>(c, s). \<not> expires cfg now s) (active_by_conn_id m))"
    and "table_ok m'" and "sessions_ok cfg m'"
proof -
  let ?P = "pending_by_endpoint m" and ?A = "active_by_conn_id m" and ?I = "active_conn_id_by_endpoint m"
  let ?pcl = "expired_pending cfg now m" and ?acl = "expired_active cfg now m"
  have inv: "table_ok m" "sessions_ok cfg m" using assms(1) by (simp_all add: manager_inv_def)
  note dist = table_ok_distinct [OF inv(1)]
  have idx: "snd ` set ?I = fst ` set ?A" using inv(1) by (auto simp: ids_ok_def active_ids_def)
  let ?m2 = "fold cleanup_pending_session ?pcl (polled_table cfg now m)"
  have m': "m' = fold (\<lambda>(e, c). cleanup_active_session e c) ?acl ?m2"
    using assms(2) ssm_poll_tx_shape [OF assms(1)] by simp
  note f1 = fold_cleanup_pending [OF polled_table_ok(5,6) [OF inv, of now], of ?pcl]
  have m2: "table_ok ?m2" "sessions_ok cfg ?m2" "set ?acl \<subseteq> set (active_conn_id_by_endpoint ?m2)"
    using f1 expired_active_listed(1) [OF inv(1)] polled_table_ok(3) [OF inv] by auto
  note f2 = fold_cleanup_active [OF m2 expired_active_listed(2) [OF inv(1)]]
  show "table_ok m'" "sessions_ok cfg m'" using f2 by (simp_all add: m')
  have "(e, s) \<in> set ?P \<Longrightarrow> e \<in> set ?pcl \<longleftrightarrow> expires cfg now s" for e s
    unfolding expired_pending_def using map_find_in [OF dist(1)] by (force dest: map_find_in [OF dist(1)])
  then have "filter (\<lambda>p. fst p \<notin> set ?pcl) (map (\<lambda>(e, s). (e, polled cfg now s)) ?P) =
      map (\<lambda>(e, s). (e, polled cfg now s)) (filter (\<lambda>(e, s). \<not> expires cfg now s) ?P)"
    by (intro filter_keys_map) simp
  then show "pending_by_endpoint m' = map (\<lambda>(e, s). (e, polled cfg now s))
      (filter (\<lambda>(e, s). \<not> expires cfg now s) ?P)"
    using f2 f1 unfolding m' by (simp add: polled_table_def)
  have "(c, s) \<in> set ?A \<Longrightarrow> c \<in> snd ` set ?acl \<longleftrightarrow> expires cfg now s" for c s
    unfolding expired_active_def using map_find_in [OF dist(2), of c s] idx by (force intro: rev_image_eqI)
  then have "filter (\<lambda>p. fst p \<notin> snd ` set ?acl) (map (\<lambda>(c, s). (c, polled cfg now s)) ?A) =
      map (\<lambda>(c, s). (c, polled cfg now s)) (filter (\<lambda>(c, s). \<not> expires cfg now s) ?A)"
    by (intro filter_keys_map) simp
  then show "active_by_conn_id m' = map (\<lambda>(c, s). (c, polled cfg now s))
      (filter (\<lambda>(c, s). \<not> expires cfg now s) ?A)"
    using f2 f1 unfolding m' by (simp add: polled_table_def)
qed

lemma ssm_poll_tx_inv:
  assumes "manager_inv cfg m" and "ssm_poll_tx cfg now m = (out, m')"
  shows "manager_inv cfg m'"
proof -
  note exact = ssm_poll_tx_exact [OF assms]
  have inv: "sessions_ok cfg m" "states_ok m" using assms(1) by (simp_all add: manager_inv_def)
  have kept: "\<not> is_terminal_state (s_connection_state (polled cfg now s)) \<and>
      (s_connection_state (polled cfg now s) = Established \<longrightarrow> s_connection_state s = Established)"
    if "\<not> expires cfg now s" "server_session cfg s" "\<not> is_terminal_state (s_connection_state s)" for s
    using that poll_tx_server_state [of s cfg now "fst (poll_tx cfg now s)" "polled cfg now s"]
    by (auto simp: expires_def polled_def server_session_def is_terminal_state_def)
  have "states_ok m'"
    using inv kept unfolding states_ok_def exact sessions_ok_def by fastforce
  then show ?thesis using exact(3,4) by (simp add: manager_inv_def)
qed

section \<open>Sending and draining keep the invariant\<close>

lemma modify_same_state:
  assumes "manager_inv cfg m"
    and "\<And>s. server_session cfg s \<Longrightarrow> server_session cfg (f s) \<and> s_conn_id (f s) = s_conn_id s \<and>
      s_connection_state (f s) = s_connection_state s"
  shows "manager_inv cfg (m\<lparr>active_by_conn_id := map_modify c f (active_by_conn_id m)\<rparr>)"
proof -
  have inv: "table_ok m" "sessions_ok cfg m" "states_ok m" using assms(1) by (simp_all add: manager_inv_def)
  have "server_session cfg s \<Longrightarrow> server_session cfg (f s) \<and> s_conn_id (f s) = s_conn_id s" for s
    using assms(2) by blast
  note m = modify_active_ok [where c = c, OF inv(1,2) this refl]
  have "\<not> is_terminal_state (s_connection_state s')"
    if "(c', s') \<in> set (map_modify c f (active_by_conn_id m))" for c' s'
  proof -
    from that obtain s where s: "(c', s) \<in> set (active_by_conn_id m)" "s' = (if c' = c then f s else s)"
      by (auto simp: set_map_modify)
    with inv(2,3) have "server_session cfg s" "\<not> is_terminal_state (s_connection_state s)"
      by (auto simp: sessions_ok_def states_ok_def)
    then show ?thesis using assms(2) s(2) by auto
  qed
  then have "states_ok (m\<lparr>active_by_conn_id := map_modify c f (active_by_conn_id m)\<rparr>)"
    using inv(3) by (auto simp: states_ok_def)
  then show ?thesis using m by (simp add: manager_inv_def)
qed

lemma map_modify_const:
  assumes "distinct (map fst m)" and "map_find m k = Some v"
  shows "map_modify k (\<lambda>_. f v) m = map_modify k f m"
  using key_unique [OF assms] by (auto simp: map_modify_def)

lemma ssm_queue_send_inv:
  assumes "manager_inv cfg m" and "named_channel t" and "ssm_queue_send c ch t payload m = (ok, m')"
  shows "manager_inv cfg m'"
proof -
  have "server_session cfg (queue_send ch t payload s) \<and>
      s_conn_id (queue_send ch t payload s) = s_conn_id s \<and>
      s_connection_state (queue_send ch t payload s) = s_connection_state s"
    if "server_session cfg s" for s
    using simple_ops_server(1-3) [OF that] assms(2) by blast
  from modify_same_state [OF assms(1) this, of c] show ?thesis
    using assms(1,3) by (auto simp: ssm_queue_send_def split: option.splits)
qed

lemma drain_active_events_inv:
  assumes "manager_inv cfg m" and "drain_active_events c m = (events, m')"
  shows "manager_inv cfg m'"
proof (cases "find_active_session c m")
  case None
  then show ?thesis using assms by (simp add: drain_active_events_def)
next
  case (Some s)
  have "distinct (map fst (active_by_conn_id m))"
    using assms(1) table_ok_distinct(2) by (simp add: manager_inv_def)
  from map_modify_const [OF this, of c s "\<lambda>s. snd (drain_events s)"] Some
  have "m' = m\<lparr>active_by_conn_id := map_modify c (\<lambda>s. snd (drain_events s)) (active_by_conn_id m)\<rparr>"
    using assms(2) by (auto simp: drain_active_events_def find_active_session_def split: prod.splits)
  then show ?thesis using modify_same_state [OF assms(1), of "\<lambda>s. snd (drain_events s)" c]
      simple_ops_server(4-6) by blast
qed

definition drained :: "SessionState \<Rightarrow> SessionState" where
  "drained s = snd (drain_events s)"

lemma drain_pending_exact:
  "fst (drain_pending_loop ps) = map (\<lambda>(e, s). (e, drained s)) ps"
  by (induction ps) (auto simp: drained_def Let_def split: prod.splits)

lemma drain_active_keeps:
  assumes "\<forall>(c, s) \<in> set active. server_session cfg s \<and> s_conn_id s = c \<and> Q (s_connection_state s)"
    and "distinct (map fst active)"
  shows "(\<forall>(c, s) \<in> set (fst (drain_active_loop idx active)).
      server_session cfg s \<and> s_conn_id s = c \<and> Q (s_connection_state s)) \<and>
    map fst (fst (drain_active_loop idx active)) = map fst active"
  using assms
proof (induction idx active rule: drain_active_loop.induct)
  case (2 e c rest active)
  show ?case
  proof (cases "map_find active c")
    case None
    then show ?thesis using 2(1) [OF None 2(3,4)] by simp
  next
    case (Some s)
    obtain ev s' where d: "drain_events s = (ev, s')" by fastforce
    let ?active = "map_modify c (\<lambda>_. s') active"
    have "server_session cfg s \<and> s_conn_id s = c \<and> Q (s_connection_state s)"
      using 2(3) map_find_SomeD [OF Some] by auto
    then have s': "server_session cfg s' \<and> s_conn_id s' = c \<and> Q (s_connection_state s')"
      using simple_ops_server(4-6) [of cfg s] d by simp
    have "\<forall>(c, s) \<in> set ?active. server_session cfg s \<and> s_conn_id s = c \<and> Q (s_connection_state s)"
      using 2(3) s' by (auto simp: set_map_modify)
    note IH = 2(2) [OF Some d [symmetric] refl this]
    then show ?thesis using Some d 2(4) by (auto simp: Let_def split: prod.splits)
  qed
qed simp

lemma ssm_drain_events_inv:
  assumes "manager_inv cfg m" and "ssm_drain_events m = (events, m')"
  shows "manager_inv cfg m'"
proof -
  have inv: "table_ok m" "sessions_ok cfg m" "states_ok m" using assms(1) by (simp_all add: manager_inv_def)
  have pre: "\<forall>(c, s) \<in> set (active_by_conn_id m). server_session cfg s \<and> s_conn_id s = c \<and>
      \<not> is_terminal_state (s_connection_state s)"
    using inv(2,3) by (auto simp: sessions_ok_def states_ok_def)
  note keep = drain_active_keeps [where Q = "\<lambda>st. \<not> is_terminal_state st" and cfg = cfg
      and active = "active_by_conn_id m" and idx = "active_conn_id_by_endpoint m",
      OF pre table_ok_distinct(2) [OF inv(1)]]
  have m': "m' = m\<lparr>pending_by_endpoint := map (\<lambda>(e, s). (e, drained s)) (pending_by_endpoint m),
      active_by_conn_id := fst (drain_active_loop (active_conn_id_by_endpoint m) (active_by_conn_id m))\<rparr>"
    using assms(2) drain_pending_exact [of "pending_by_endpoint m"]
    by (auto simp: ssm_drain_events_def split: prod.splits)
  have act: "(\<forall>(c, s) \<in> set (active_by_conn_id m'). server_session cfg s \<and> s_conn_id s = c \<and>
      \<not> is_terminal_state (s_connection_state s)) \<and> active_ids m' = active_ids m"
    using keep by (simp add: m' active_ids_def)
  have "pending_ids m' = pending_ids m"
    using inv(2) simple_ops_server(5) by (auto simp: m' pending_ids_def sessions_ok_def drained_def)
  then have "table_ok m'" using inv(1) act by (simp add: m')
  moreover have "sessions_ok cfg m'" "states_ok m'"
    using act inv(2,3) simple_ops_server(4,6) unfolding sessions_ok_def states_ok_def
    by (fastforce simp: m' drained_def)+
  ultimately show ?thesis by (simp add: manager_inv_def)
qed
end
