(* ===== verification/Manager_Spec.thy ===== *)
theory Manager_Spec
  imports Manager_Invariant Session_Handshake
begin

text \<open>
  What the server's connection table promises: the abstract table (who is connecting, who is connected,
  which ids are spent) with its four transitions, that every operation of
  \<open>src/ServerSessionManager.cpp\<close> is a sequence of such transitions, and the properties of routing,
  polling and id allocation.
\<close>

section \<open>A manager in use\<close>

definition manager_init :: "ServerSessionManager \<Rightarrow> bool" where
  "manager_init m \<longleftrightarrow> m = empty_manager"

inductive manager_step :: "TransportSettings \<Rightarrow> ServerSessionManager \<Rightarrow> ServerSessionManager \<Rightarrow> bool"
  for cfg :: TransportSettings
where
  ms_datagram: "ssm_on_datagram_received cfg rd e bs now m = Some m' \<Longrightarrow> manager_step cfg m m'"
| ms_poll: "ssm_poll_tx cfg now m = (out, m') \<Longrightarrow> manager_step cfg m m'"
| ms_queue: "named_channel t \<Longrightarrow> ssm_queue_send c ch t payload m = (ok, m') \<Longrightarrow> manager_step cfg m m'"
| ms_drain: "ssm_drain_events m = (events, m') \<Longrightarrow> manager_step cfg m m'"
| ms_drain_active: "drain_active_events c m = (evs, m') \<Longrightarrow> manager_step cfg m m'"

inductive_cases manager_stepE: "manager_step cfg m m'"

lemma manager_inv_empty: "manager_inv cfg empty_manager"
  by (simp add: manager_inv_def empty_manager_def ids_ok_def pending_ids_def active_ids_def
      sessions_ok_def states_ok_def)

lemma manager_step_inv:
  assumes "manager_inv cfg m" and "manager_step cfg m m'"
  shows "manager_inv cfg m'"
  using assms(2)
  by cases (use assms(1) in \<open>auto intro: ssm_on_datagram_received_inv ssm_poll_tx_inv ssm_queue_send_inv
    ssm_drain_events_inv drain_active_events_inv\<close>)

interpretation manager_sys: inductive_invariant manager_init "manager_step cfg" "manager_inv cfg"
  for cfg
  by unfold_locales (auto simp: manager_init_def manager_inv_empty intro: manager_step_inv)

section \<open>The abstract table\<close>

record ConnTable =
  ct_pending :: "EndpointKey \<rightharpoonup> u32"
  ct_active :: "EndpointKey \<rightharpoonup> u32"
  ct_retired :: "u32 set"

definition ids_in_use :: "ConnTable \<Rightarrow> u32 set" where
  "ids_in_use t = ran (ct_pending t) \<union> ran (ct_active t) \<union> ct_retired t"

text \<open>
  A peer appears under an id never used before; it becomes connected under the same id; or it goes, and
  its id is spent.
\<close>

inductive table_action :: "ConnTable \<Rightarrow> ConnTable \<Rightarrow> bool" where
  ta_open: "ct_pending t e = None \<Longrightarrow> ct_active t e = None \<Longrightarrow> c \<noteq> 0 \<Longrightarrow> c \<notin> ids_in_use t \<Longrightarrow>
    table_action t (t\<lparr>ct_pending := (ct_pending t)(e \<mapsto> c)\<rparr>)"
| ta_promote: "ct_pending t e = Some c \<Longrightarrow>
    table_action t (t\<lparr>ct_pending := (ct_pending t)(e := None),
      ct_active := (ct_active t)(e \<mapsto> c)\<rparr>)"
| ta_abort: "ct_pending t e = Some c \<Longrightarrow>
    table_action t (t\<lparr>ct_pending := (ct_pending t)(e := None),
      ct_retired := insert c (ct_retired t)\<rparr>)"
| ta_drop: "ct_active t e = Some c \<Longrightarrow>
    table_action t (t\<lparr>ct_active := (ct_active t)(e := None),
      ct_retired := insert c (ct_retired t)\<rparr>)"

definition abs_table :: "ServerSessionManager \<Rightarrow> ConnTable" where
  "abs_table m = \<lparr>ct_pending = map_of (pending_ids m), ct_active = map_of (active_conn_id_by_endpoint m),
     ct_retired = retired_conn_ids m\<rparr>"

abbreviation table_run :: "ConnTable \<Rightarrow> ConnTable \<Rightarrow> bool" where
  "table_run \<equiv> table_action\<^sup>*\<^sup>*"

lemma map_of_filter_key: "map_of (filter (\<lambda>p. fst p \<noteq> k) m) = (map_of m)(k := None)"
  by (induction m) auto

lemma map_of_append_new:
  assumes "k \<notin> fst ` set m"
  shows "[k \<mapsto> v] ++ map_of m = (map_of m)(k \<mapsto> v)"
proof -
  have "map_of m k = None" using assms by (simp add: map_of_eq_None_iff)
  then show ?thesis by (auto simp: map_add_def split: option.splits)
qed

lemma abs_pending: "table_ok m \<Longrightarrow> find_pending_session e m = Some s \<Longrightarrow>
  ct_pending (abs_table m) e = Some (s_conn_id s)"
  using find_pending_ids [of e m s] by (auto simp: abs_table_def ids_ok_def)

lemma abs_active: "table_ok m \<Longrightarrow> (e, c) \<in> set (active_conn_id_by_endpoint m) \<Longrightarrow>
  ct_active (abs_table m) e = Some c"
  by (auto simp: abs_table_def ids_ok_def)

lemma abs_cleanup_pending:
  assumes "table_ok m" and "find_pending_session e m = Some s"
  shows "table_action (abs_table m) (abs_table (cleanup_pending_session e m))"
  using ta_abort [OF abs_pending [OF assms]]
  by (simp add: cleanup_pending_fields [OF assms] abs_table_def pending_ids_def pending_ids_erase
      map_of_filter_key)

lemma abs_cleanup_active:
  assumes "table_ok m" and "(e, c) \<in> set (active_conn_id_by_endpoint m)"
  shows "table_action (abs_table m) (abs_table (cleanup_active_session e c m))"
  using ta_drop [OF abs_active [OF assms]]
  by (simp add: cleanup_active_fields [OF assms] abs_table_def pending_ids_def map_erase_def
      map_of_filter_key)

lemma abs_promote:
  assumes "table_ok m" and "find_pending_session e m = Some s"
  shows "table_action (abs_table m) (abs_table (promote_pending_session e m))"
  using ta_promote [OF abs_pending [OF assms]] ids_ok_pendingD(4) [OF assms(1) find_pending_ids [OF assms(2)]]
  by (simp add: promote_fields [OF assms] abs_table_def pending_ids_def pending_ids_erase
      map_of_filter_key map_of_append_new)

lemma abs_same:
  "pending_ids m' = pending_ids m \<Longrightarrow> active_conn_id_by_endpoint m' = active_conn_id_by_endpoint m \<Longrightarrow>
   retired_conn_ids m' = retired_conn_ids m \<Longrightarrow> abs_table m' = abs_table m"
  by (simp add: abs_table_def)

section \<open>Refinement\<close>

lemma dispatch_active_refines:
  assumes "table_ok m" and "sessions_ok cfg m" and "(e, c) \<in> set (active_conn_id_by_endpoint m)"
    and "try_dispatch_active cfg e bs c now m = (ok, m')"
  shows "table_run (abs_table m) (abs_table m')"
proof (cases "find_active_session c m")
  case None
  then show ?thesis using assms by (simp add: try_dispatch_active_def)
next
  case (Some s)
  let ?m = "m\<lparr>active_by_conn_id := map_modify c (on_datagram_received cfg bs now) (active_by_conn_id m)\<rparr>"
  have "server_session cfg s \<Longrightarrow> server_session cfg (on_datagram_received cfg bs now s) \<and>
      s_conn_id (on_datagram_received cfg bs now s) = s_conn_id s" for s
    using on_datagram_received_server by blast
  note m = modify_active_ok [where c = c, OF assms(1,2) this refl]
  have same: "abs_table ?m = abs_table m" by (rule abs_same) (simp_all add: pending_ids_def)
  have "m' = ?m \<or> m' = cleanup_active_session e c ?m"
    using assms(4) Some by (auto simp: try_dispatch_active_def Let_def cleanup_active_if_terminal_def
        split: option.splits if_splits)
  then show ?thesis using abs_cleanup_active [OF m(1), of e c] assms(3) same by auto
qed

lemma dispatch_pending_refines:
  assumes "table_ok m" and "sessions_ok cfg m" and "try_dispatch_pending cfg e bs now m = (ok, m')"
  shows "table_run (abs_table m) (abs_table m')"
proof (cases "find_pending_session e m")
  case None
  then show ?thesis using assms by (simp add: try_dispatch_pending_def)
next
  case (Some s)
  let ?f = "on_datagram_received cfg bs now"
  let ?m = "m\<lparr>pending_by_endpoint := map_modify e ?f (pending_by_endpoint m)\<rparr>"
  have f: "server_session cfg s \<Longrightarrow> server_session cfg (?f s) \<and> s_conn_id (?f s) = s_conn_id s" for s
    using on_datagram_received_server by blast
  note m = modify_pending_ok [where e = e, OF assms(1,2) f refl]
  have found: "find_pending_session e ?m = Some (?f s)"
    using Some by (simp add: find_pending_session_def map_find_map_modify)
  have same: "abs_table ?m = abs_table m"
    using modify_pending_ids [of "pending_by_endpoint m" cfg ?f e] assms(2) f
    by (intro abs_same) (simp_all add: pending_ids_def sessions_ok_def)
  have "m' = ?m \<or> m' = promote_pending_session e ?m \<or> m' = cleanup_pending_session e ?m"
    using assms(3) Some by (auto simp: try_dispatch_pending_def Let_def cleanup_pending_if_terminal_def
        split: option.splits if_splits)
  then show ?thesis
    using abs_promote [OF m(1) found] abs_cleanup_pending [OF m(1) found] same by auto
qed

lemma keys_pending_ids: "fst ` set (pending_ids m) = fst ` set (pending_by_endpoint m)"
  by (force simp: pending_ids_def)

lemma open_refines:
  assumes "table_ok m" and "e \<notin> fst ` set (pending_by_endpoint m)"
    and "e \<notin> fst ` set (active_conn_id_by_endpoint m)" and "\<not> conn_id_is_in_use c m"
    and "m' = m\<lparr>pending_by_endpoint := pending_by_endpoint m @ [(e, s)]\<rparr>" and "s_conn_id s = c"
  shows "table_action (abs_table m) (abs_table m')"
proof -
  note keys = keys_pending_ids [of m]
  note fresh = not_in_use_fresh [OF assms(4)]
  have "ran (map_of (pending_ids m)) \<subseteq> snd ` set (pending_ids m)"
    "ran (map_of (active_conn_id_by_endpoint m)) \<subseteq> snd ` set (active_conn_id_by_endpoint m)"
    by (auto simp: ran_def intro: rev_image_eqI dest: map_of_SomeD)
  moreover have "snd ` set (active_conn_id_by_endpoint m) = set (active_ids m)"
    using assms(1) by (auto simp: ids_ok_def)
  ultimately have "c \<notin> ids_in_use (abs_table m)"
    using fresh by (auto simp: ids_in_use_def abs_table_def)
  moreover have "ct_pending (abs_table m) e = None" "ct_active (abs_table m) e = None"
    using assms(2,3) keys by (auto simp: abs_table_def map_of_eq_None_iff)
  ultimately have "table_action (abs_table m)
      ((abs_table m)\<lparr>ct_pending := (ct_pending (abs_table m))(e \<mapsto> c)\<rparr>)"
    using fresh(1) by (intro ta_open)
  moreover have "map_of (pending_ids m') = (map_of (pending_ids m))(e \<mapsto> c)"
    using map_of_append_new [of e "pending_ids m" c] assms(2,5,6) keys by (simp add: pending_ids_def)
  ultimately show ?thesis using assms(5) by (simp add: abs_table_def)
qed

lemma new_session_table:
  assumes "table_ok m" and "sessions_ok cfg m" and "e \<notin> fst ` set (pending_by_endpoint m)"
    and "e \<notin> fst ` set (active_conn_id_by_endpoint m)" and "\<not> conn_id_is_in_use c m"
    and "m' = m\<lparr>pending_by_endpoint := pending_by_endpoint m @
        [(e, assign_conn_id c (Session_random Server rd1 rd2))]\<rparr>"
  shows "table_ok m'" and "sessions_ok cfg m'"
proof -
  have "pending_ids m' = pending_ids m @ [(e, c)]"
    by (simp add: assms(6) pending_ids_def assign_conn_id_def)
  moreover note keys_pending_ids [of m]
  ultimately show "table_ok m'"
    using ids_ok_open [OF assms(1), of e c] assms(3,4) not_in_use_fresh [OF assms(5)]
    by (simp add: assms(6) active_ids_def)
  show "sessions_ok cfg m'"
    using assms(2) new_session_server by (auto simp: assms(6) sessions_ok_def)
qed

lemma new_peer_refines:
  assumes "manager_inv cfg m" and "route_new_peer cfg rd e bs h now m = Some (ok, m')"
  shows "table_run (abs_table m) (abs_table m')"
proof (cases "h_conn_id h = 0")
  case False
  then show ?thesis using assms by (simp add: route_new_peer_def)
next
  case True
  then obtain found m1 where ens: "ensure_session_for_new_peer rd e m = Some (found, m1)"
    and m': "m' = (if found then snd (try_dispatch_pending cfg e bs now m1) else m1)"
    using assms(2) by (auto simp: route_new_peer_def split: option.splits prod.splits if_splits)
  have inv: "table_ok m" "sessions_ok cfg m" using assms(1) by (simp_all add: manager_inv_def)
  show ?thesis using ens
  proof (cases rule: ensure_session_cases)
    case old
    then show ?thesis using m' dispatch_pending_refines [OF inv]
      by (metis prod.collapse rtranclp.rtrancl_refl)
  next
    case (fresh rd1 rd2 c)
    let ?s = "assign_conn_id c (Session_random Server rd1 rd2)"
    have c: "s_conn_id ?s = c" by (simp add: assign_conn_id_def)
    note step = open_refines [OF inv(1) fresh(3-6) c]
    note ok = new_session_table [OF inv fresh(3-6)]
    have "table_run (abs_table m1) (abs_table m')"
      using m' \<open>found\<close> dispatch_pending_refines [OF ok, of e bs now] by (metis prod.collapse)
    then show ?thesis using step by (simp add: converse_rtranclp_into_rtranclp)
  qed
qed

lemma datagram_refines:
  assumes "manager_inv cfg m" and "ssm_on_datagram_received cfg rd e bs now m = Some m'"
  shows "table_run (abs_table m) (abs_table m')"
proof (cases "decode bs")
  case None
  then show ?thesis using assms by (simp add: ssm_on_datagram_received_def)
next
  case (Some pv)
  let ?h = "pv_header pv"
  obtain ok1 m1 where a: "route_existing_active cfg e bs ?h now m = (ok1, m1)" by fastforce
  obtain ok2 m2 where p: "try_dispatch_pending cfg e bs now m1 = (ok2, m2)" by fastforce
  have i1: "manager_inv cfg m1" by (rule route_existing_active_inv [OF assms(1) a])
  have i2: "manager_inv cfg m2" by (rule dispatch_pending_inv [OF i1 p])
  have "table_run (abs_table m) (abs_table m1)"
  proof (cases "m1 = m")
    case False
    then have "is_active_endpoint_match e (h_conn_id ?h) m"
      "try_dispatch_active cfg e bs (h_conn_id ?h) now m = (ok1, m1)"
      using a by (auto simp: route_existing_active_def split: if_splits)
    then show ?thesis using assms(1)
      by (intro dispatch_active_refines [of m cfg e "h_conn_id ?h" bs now ok1 m1])
        (auto simp: manager_inv_def is_active_endpoint_match_def split: option.splits dest: map_find_SomeD)
  qed simp
  moreover have "table_run (abs_table m1) (abs_table m2)"
    using dispatch_pending_refines [OF _ _ p] i1 by (simp add: manager_inv_def)
  moreover consider "m' = m1" | "m' = m2" | ok3 where "route_new_peer cfg rd e bs ?h now m2 = Some (ok3, m')"
    using assms(2) Some a p
    by (auto simp: ssm_on_datagram_received_def route_existing_pending_def split: bool.splits)
  then have "m' = m1 \<or> table_run (abs_table m2) (abs_table m')"
    using new_peer_refines [OF i2] by cases auto
  ultimately show ?thesis by (metis rtranclp_trans)
qed

lemma cleanup_pending_run:
  assumes "table_ok m"
  shows "table_run (abs_table m) (abs_table (fold cleanup_pending_session es m))"
  using assms
proof (induction es arbitrary: m)
  case (Cons e es)
  have "table_run (abs_table m) (abs_table (cleanup_pending_session e m))"
    using abs_cleanup_pending [OF Cons.prems, of e]
    by (cases "find_pending_session e m") (auto simp: cleanup_pending_session_def)
  with Cons.IH [OF cleanup_pending_table [OF Cons.prems]] show ?case
    by (metis fold_Cons comp_apply rtranclp_trans)
qed simp

lemma cleanup_active_run:
  assumes "table_ok m" and "set xs \<subseteq> set (active_conn_id_by_endpoint m)" and "distinct (map fst xs)"
  shows "table_run (abs_table m) (abs_table (fold (\<lambda>(e, c). cleanup_active_session e c) xs m))"
  using assms
proof (induction xs arbitrary: m)
  case (Cons x xs)
  obtain e c where x: "x = (e, c)" by fastforce
  then have ec: "(e, c) \<in> set (active_conn_id_by_endpoint m)" using Cons.prems(2) by simp
  have "set xs \<subseteq> set (active_conn_id_by_endpoint (cleanup_active_session e c m))"
    using Cons.prems x by (force simp: cleanup_active_fields [OF Cons.prems(1) ec] map_erase_def)
  from Cons.IH [OF cleanup_active_table [OF Cons.prems(1) ec] this] Cons.prems(3)
    abs_cleanup_active [OF Cons.prems(1) ec]
  show ?case by (simp add: x converse_rtranclp_into_rtranclp)
qed simp

lemma poll_refines:
  assumes "manager_inv cfg m" and "ssm_poll_tx cfg now m = (out, m')"
  shows "table_run (abs_table m) (abs_table m')"
proof -
  have inv: "table_ok m" "sessions_ok cfg m" using assms(1) by (simp_all add: manager_inv_def)
  let ?m1 = "polled_table cfg now m"
  let ?m2 = "fold cleanup_pending_session (expired_pending cfg now m) ?m1"
  note ok = polled_table_ok [OF inv, of now]
  note f1 = fold_cleanup_pending [OF ok(5,6), of "expired_pending cfg now m"]
  have "abs_table ?m1 = abs_table m" using ok by (intro abs_same)
  then have "table_run (abs_table m) (abs_table ?m2)" using cleanup_pending_run [OF ok(5)] by simp
  moreover have "table_run (abs_table ?m2) (abs_table m')"
  proof -
    have "m' = fold (\<lambda>(e, c). cleanup_active_session e c) (expired_active cfg now m) ?m2"
      using assms(2) ssm_poll_tx_shape [OF assms(1)] by simp
    moreover have "table_ok ?m2" "set (expired_active cfg now m) \<subseteq> set (active_conn_id_by_endpoint ?m2)"
      using f1 expired_active_listed(1) [OF inv(1)] ok(3) by auto
    ultimately show ?thesis using cleanup_active_run expired_active_listed(2) [OF inv(1)] by simp
  qed
  ultimately show ?thesis by (rule rtranclp_trans)
qed

lemma ids_after_drain:
  assumes "sessions_ok cfg m" and "ssm_drain_events m = (events, m')"
  shows "abs_table m' = abs_table m"
proof (rule abs_same)
  have "pending_by_endpoint m' = map (\<lambda>(e, s). (e, drained s)) (pending_by_endpoint m)"
    using assms(2) drain_pending_exact [of "pending_by_endpoint m"]
    by (auto simp: ssm_drain_events_def split: prod.splits)
  then show "pending_ids m' = pending_ids m"
    using assms(1) simple_ops_server(5) by (auto simp: pending_ids_def sessions_ok_def drained_def)
qed (use assms(2) in \<open>auto simp: ssm_drain_events_def split: prod.splits\<close>)

section \<open>Properties\<close>

lemma manager_step_refines:
  assumes inv: "manager_inv cfg m" and step: "manager_step cfg m m'"
  shows "table_run (abs_table m) (abs_table m')"
proof -
  have s: "sessions_ok cfg m" using inv by (simp add: manager_inv_def)
  from step show ?thesis
  proof cases
    case (ms_datagram rd e bs now)
    then show ?thesis using datagram_refines [OF inv] by blast
  next
    case (ms_poll now out)
    then show ?thesis using poll_refines [OF inv] by blast
  next
    case (ms_queue t c ch payload ok)
    then have "abs_table m' = abs_table m"
      by (auto simp: ssm_queue_send_def abs_table_def pending_ids_def split: option.splits)
    then show ?thesis by simp
  next
    case (ms_drain events)
    then show ?thesis using ids_after_drain [OF s] by simp
  next
    case (ms_drain_active c evs)
    then have "abs_table m' = abs_table m"
      by (auto simp: drain_active_events_def abs_table_def pending_ids_def
          split: option.splits prod.splits)
    then show ?thesis by simp
  qed
qed

definition sample_endpoint :: EndpointKey where
  "sample_endpoint = \<lparr>ek_address = ''10.0.0.1'', ek_port = 4000\<rparr>"

definition sample_syn :: bytes where
  "sample_syn = encode (default_header\<lparr>h_seq := 9, h_flags := 1\<rparr>) []"

lemma decode_sample_syn:
  "decode sample_syn = Some \<lparr>pv_header = default_header\<lparr>h_seq := 9, h_flags := 1\<rparr>, pv_payload = []\<rparr>"
  unfolding sample_syn_def by (rule decode_encode_valid) (simp add: isValidHeader_def default_header_def)

lemma sample_step:
  obtains m' where "ssm_on_datagram_received default_transport [1, 2, 3, 4] sample_endpoint sample_syn 5
    empty_manager = Some m'"
  by (simp add: ssm_on_datagram_received_def decode_sample_syn route_existing_active_def
      route_existing_pending_def try_dispatch_pending_def route_new_peer_def
      ensure_session_for_new_peer_def find_pending_session_def empty_manager_def map_find_def
      conn_id_is_in_use_def Session_random_def Session_def umap_assign_def default_header_def)

lemma reachable_empty: "reachable manager_init (manager_step cfg) empty_manager"
  by (rule reach_init) (simp add: manager_init_def)

text \<open>Retired ids stay retired.\<close>

lemma table_run_retired: "table_run t t' \<Longrightarrow> ct_retired t \<subseteq> ct_retired t'"
  by (induction rule: rtranclp_induct) (auto elim!: table_action.cases)

lemma retired_mono:
  "manager_inv cfg m \<Longrightarrow> manager_step cfg m m' \<Longrightarrow> retired_conn_ids m \<subseteq> retired_conn_ids m'"
  using table_run_retired [OF manager_step_refines] by (simp add: abs_table_def)

text \<open>
  C5. The manager implements the abstract table: whatever it does (a datagram from any endpoint, a
  poll, a send, a drain), its connection identities change only by opening a peer under an id never
  used before, by promoting a pending peer to connected under the same id, and by removing a peer and
  retiring its id.
\<close>

theorem manager_refines_table:
  assumes "reachable manager_init (manager_step cfg) m" and "manager_step cfg m m'"
  shows "table_action\<^sup>*\<^sup>* (abs_table m) (abs_table m')"
  using manager_step_refines [OF manager_sys.reachable_inv [OF assms(1)] assms(2)] .

theorem manager_refines_table_witness:
  "\<exists>m'. ssm_on_datagram_received default_transport [1, 2, 3, 4] sample_endpoint sample_syn 5 empty_manager =
     Some m' \<and> table_action\<^sup>*\<^sup>* (abs_table empty_manager) (abs_table m')"
proof -
  obtain m' where m': "ssm_on_datagram_received default_transport [1, 2, 3, 4] sample_endpoint sample_syn 5
      empty_manager = Some m'" by (rule sample_step)
  show ?thesis using manager_refines_table [OF reachable_empty ms_datagram [OF m']] m' by blast
qed

text \<open>
  C10. In every state the manager reaches, connection ids identify sessions: no two sessions, pending or
  active, share an id; no session has id 0 or a retired one; every active session is filed under its
  own id, and the endpoint index is a bijection between its endpoints and the active ids; no endpoint
  is both pending and active. And no session in a terminal state lingers: those are removed by the
  operation that ends them, and a session that is established is active.
\<close>

theorem connection_table_consistent:
  assumes "reachable manager_init (manager_step cfg) m"
  shows "distinct (map (\<lambda>(e, s). s_conn_id s) (pending_by_endpoint m) @ map fst (active_by_conn_id m)) \<and>
    0 \<notin> set (map (\<lambda>(e, s). s_conn_id s) (pending_by_endpoint m) @ map fst (active_by_conn_id m)) \<and>
    retired_conn_ids m \<inter>
      set (map (\<lambda>(e, s). s_conn_id s) (pending_by_endpoint m) @ map fst (active_by_conn_id m)) = {} \<and>
    (\<forall>(c, s) \<in> set (active_by_conn_id m). s_conn_id s = c \<and> \<not> is_terminal_state (s_connection_state s)) \<and>
    (\<forall>(e, s) \<in> set (pending_by_endpoint m).
       \<not> is_terminal_state (s_connection_state s) \<and> s_connection_state s \<noteq> Established) \<and>
    distinct (map fst (pending_by_endpoint m) @ map fst (active_conn_id_by_endpoint m)) \<and>
    distinct (map snd (active_conn_id_by_endpoint m)) \<and>
    set (map snd (active_conn_id_by_endpoint m)) = set (map fst (active_by_conn_id m))"
proof -
  have inv: "table_ok m" "sessions_ok cfg m" "states_ok m"
    using manager_sys.reachable_inv [OF assms] by (simp_all add: manager_inv_def)
  have ids: "map snd (pending_ids m) = map (\<lambda>(e, s). s_conn_id s) (pending_by_endpoint m)"
    "map fst (pending_ids m) = map fst (pending_by_endpoint m)"
    by (simp_all add: pending_ids_def o_def split_beta)
  show ?thesis using inv unfolding ids_ok_def sessions_ok_def states_ok_def active_ids_def map_append ids
    by auto
qed

theorem connection_table_consistent_witness:
  "\<exists>m'. ssm_on_datagram_received default_transport [1, 2, 3, 4] sample_endpoint sample_syn 5 empty_manager =
     Some m' \<and> distinct (map snd (active_conn_id_by_endpoint m'))"
proof -
  obtain m' where m': "ssm_on_datagram_received default_transport [1, 2, 3, 4] sample_endpoint sample_syn 5
      empty_manager = Some m'" by (rule sample_step)
  have "reachable manager_init (manager_step default_transport) m'"
    by (rule reach_step [OF reachable_empty ms_datagram [OF m']])
  from connection_table_consistent [OF this] m' show ?thesis by blast
qed

text \<open>The candidates the loop makes of the random draws, two per candidate.\<close>

fun drawn_ids :: "u32 list \<Rightarrow> u32 list" where
  "drawn_ids (rd1 # rd2 # rd) = (push_bit 16 rd1 XOR (rd2 AND 0xffff)) # drawn_ids rd"
| "drawn_ids _ = []"

text \<open>
  C30. A fresh connection id: the loop returns the first of the drawn candidates that is neither zero,
  retired, active nor pending, and it returns as soon as one of the draws yields such a candidate.
\<close>

theorem allocate_conn_id_exact:
  "allocate_conn_id rd m =
     find (\<lambda>c. c \<noteq> 0 \<and> c \<notin> retired_conn_ids m \<and> c \<notin> fst ` set (active_by_conn_id m) \<and>
        c \<notin> (\<lambda>p. s_conn_id (snd p)) ` set (pending_by_endpoint m)) (drawn_ids rd)"
proof (induction rd m rule: allocate_conn_id.induct)
  case (1 rd1 rd2 rd m)
  have "conn_id_is_in_use c m \<longleftrightarrow> \<not> (c \<noteq> 0 \<and> c \<notin> retired_conn_ids m \<and>
      c \<notin> fst ` set (active_by_conn_id m) \<and>
      c \<notin> (\<lambda>p. s_conn_id (snd p)) ` set (pending_by_endpoint m))" for c
    by (force simp: conn_id_is_in_use_def map_find_None_iff list_ex_iff)
  then show ?case using 1 by (simp add: Let_def)
qed simp_all

section \<open>Routing\<close>

text \<open>What a datagram from \<open>e\<close> may change: sessions of \<open>e\<close>.\<close>

definition touches_only :: "EndpointKey \<Rightarrow> ServerSessionManager \<Rightarrow> ServerSessionManager \<Rightarrow> bool" where
  "touches_only e m m' \<longleftrightarrow>
     (\<forall>e'. e' \<noteq> e \<longrightarrow> map_find (pending_by_endpoint m') e' = map_find (pending_by_endpoint m) e') \<and>
     (\<forall>(e', c) \<in> set (active_conn_id_by_endpoint m). e' \<noteq> e \<longrightarrow>
        map_find (active_by_conn_id m') c = map_find (active_by_conn_id m) c \<and>
        (e', c) \<in> set (active_conn_id_by_endpoint m'))"

lemma touches_only_refl: "touches_only e m m"
  by (auto simp: touches_only_def)

lemma touches_only_trans: "touches_only e m m1 \<Longrightarrow> touches_only e m1 m2 \<Longrightarrow> touches_only e m m2"
  by (fastforce simp: touches_only_def)

lemma touches_modify_pending:
  "touches_only e m (m\<lparr>pending_by_endpoint := map_modify e f (pending_by_endpoint m)\<rparr>)"
  by (auto simp: touches_only_def map_find_map_modify)

lemma index_ids_differ:
  assumes "table_ok m" and "(e, c) \<in> set (active_conn_id_by_endpoint m)"
    and "(e', c') \<in> set (active_conn_id_by_endpoint m)" and "e' \<noteq> e"
  shows "c' \<noteq> c"
  using assms by (metis distinct_map fst_conv ids_ok_def inj_onD snd_conv)

lemma touches_modify_active:
  assumes "table_ok m" and "(e, c) \<in> set (active_conn_id_by_endpoint m)"
  shows "touches_only e m (m\<lparr>active_by_conn_id := map_modify c f (active_by_conn_id m)\<rparr>)"
  using index_ids_differ [OF assms] by (auto simp: touches_only_def map_find_map_modify)

lemma touches_cleanup:
  "table_ok m \<Longrightarrow> touches_only e m (cleanup_pending_session e m)"
  "table_ok m \<Longrightarrow> (e, c) \<in> set (active_conn_id_by_endpoint m) \<Longrightarrow>
   touches_only e m (cleanup_active_session e c m)"
proof -
  show "table_ok m \<Longrightarrow> touches_only e m (cleanup_pending_session e m)"
    by (auto simp: touches_only_def cleanup_pending_session_def map_find_map_erase Let_def
        split: option.splits)
  show "table_ok m \<Longrightarrow> (e, c) \<in> set (active_conn_id_by_endpoint m) \<Longrightarrow>
      touches_only e m (cleanup_active_session e c m)"
    using index_ids_differ [of m e c]
    by (auto simp: cleanup_active_fields touches_only_def map_find_map_erase) (auto simp: map_erase_def)
qed

lemma touches_promote:
  assumes "table_ok m" and "find_pending_session e m = Some s"
  shows "touches_only e m (promote_pending_session e m)"
proof -
  have "c \<in> fst ` set (active_by_conn_id m)" if "(e', c) \<in> set (active_conn_id_by_endpoint m)" for e' c
    using ids_ok_indexD(2) [OF assms(1) that] by (simp add: active_ids_def)
  then show ?thesis unfolding promote_fields [OF assms] touches_only_def
    by (auto simp: map_find_map_erase) (auto simp: map_find_def map_add_def map_of_eq_None_iff
      split: option.splits)
qed

lemma touches_dispatch_active:
  assumes "table_ok m" and "sessions_ok cfg m" and "(e, c) \<in> set (active_conn_id_by_endpoint m)"
    and "try_dispatch_active cfg e bs c now m = (ok, m')"
  shows "touches_only e m m'"
proof (cases "find_active_session c m")
  case None
  then show ?thesis using assms by (simp add: try_dispatch_active_def touches_only_refl)
next
  case (Some s)
  let ?m = "m\<lparr>active_by_conn_id := map_modify c (on_datagram_received cfg bs now) (active_by_conn_id m)\<rparr>"
  have "server_session cfg s \<Longrightarrow> server_session cfg (on_datagram_received cfg bs now s) \<and>
      s_conn_id (on_datagram_received cfg bs now s) = s_conn_id s" for s
    using on_datagram_received_server by blast
  note m = modify_active_ok [where c = c, OF assms(1,2) this refl]
  have t: "touches_only e m ?m" by (rule touches_modify_active [OF assms(1,3)])
  have "touches_only e ?m (cleanup_active_session e c ?m)"
    using touches_cleanup(2) [OF m(1), of e c] assms(3) by simp
  from touches_only_trans [OF t this] have "touches_only e m (cleanup_active_session e c ?m)" .
  moreover have "m' = ?m \<or> m' = cleanup_active_session e c ?m"
    using assms(4) Some by (auto simp: try_dispatch_active_def Let_def cleanup_active_if_terminal_def
        split: option.splits if_splits)
  ultimately show ?thesis using t by blast
qed

lemma touches_dispatch_pending:
  assumes "table_ok m" and "sessions_ok cfg m" and "try_dispatch_pending cfg e bs now m = (ok, m')"
  shows "touches_only e m m'"
proof (cases "find_pending_session e m")
  case None
  then show ?thesis using assms by (simp add: try_dispatch_pending_def touches_only_refl)
next
  case (Some s)
  let ?f = "on_datagram_received cfg bs now"
  let ?m = "m\<lparr>pending_by_endpoint := map_modify e ?f (pending_by_endpoint m)\<rparr>"
  have f: "server_session cfg s \<Longrightarrow> server_session cfg (?f s) \<and> s_conn_id (?f s) = s_conn_id s" for s
    using on_datagram_received_server by blast
  note m = modify_pending_ok [where e = e, OF assms(1,2) f refl]
  have found: "find_pending_session e ?m = Some (?f s)"
    using Some by (simp add: find_pending_session_def map_find_map_modify)
  have t: "touches_only e m ?m" by (rule touches_modify_pending)
  have "touches_only e ?m (promote_pending_session e ?m)" by (rule touches_promote [OF m(1) found])
  from touches_only_trans [OF t this] have p: "touches_only e m (promote_pending_session e ?m)" .
  have "touches_only e ?m (cleanup_pending_session e ?m)" by (rule touches_cleanup(1) [OF m(1)])
  from touches_only_trans [OF t this] have c: "touches_only e m (cleanup_pending_session e ?m)" .
  have "m' = ?m \<or> m' = promote_pending_session e ?m \<or> m' = cleanup_pending_session e ?m"
    using assms(3) Some by (auto simp: try_dispatch_pending_def Let_def cleanup_pending_if_terminal_def
        split: option.splits if_splits)
  then show ?thesis using t p c by blast
qed

lemma touches_new_peer:
  assumes "manager_inv cfg m" and "route_new_peer cfg rd e bs h now m = Some (ok, m')"
  shows "touches_only e m m'"
proof (cases "h_conn_id h = 0")
  case False
  then show ?thesis using assms by (simp add: route_new_peer_def touches_only_refl)
next
  case True
  then obtain found m1 where ens: "ensure_session_for_new_peer rd e m = Some (found, m1)"
    and m': "m' = (if found then snd (try_dispatch_pending cfg e bs now m1) else m1)"
    using assms(2) by (auto simp: route_new_peer_def split: option.splits prod.splits if_splits)
  have inv: "table_ok m" "sessions_ok cfg m" using assms(1) by (simp_all add: manager_inv_def)
  show ?thesis using ens
  proof (cases rule: ensure_session_cases)
    case old
    then show ?thesis using m' touches_dispatch_pending [OF inv, of e bs now] touches_only_refl
      by (metis prod.collapse)
  next
    case (fresh rd1 rd2 c)
    have t: "touches_only e m m1"
      by (auto simp: fresh(6) touches_only_def map_find_def map_add_def split: option.splits)
    note ok = new_session_table [OF inv fresh(3-6)]
    have "touches_only e m1 m'"
      using m' \<open>found\<close> touches_dispatch_pending [OF ok, of e bs now] by (metis prod.collapse)
    with t show ?thesis by (rule touches_only_trans)
  qed
qed

lemma touches_datagram:
  assumes "manager_inv cfg m" and "ssm_on_datagram_received cfg rd e bs now m = Some m'"
  shows "touches_only e m m'"
proof (cases "decode bs")
  case None
  then show ?thesis using assms by (simp add: ssm_on_datagram_received_def touches_only_refl)
next
  case (Some pv)
  let ?h = "pv_header pv"
  obtain ok1 m1 where a: "route_existing_active cfg e bs ?h now m = (ok1, m1)" by fastforce
  obtain ok2 m2 where p: "try_dispatch_pending cfg e bs now m1 = (ok2, m2)" by fastforce
  have inv: "table_ok m" "sessions_ok cfg m" using assms(1) by (simp_all add: manager_inv_def)
  have i1: "manager_inv cfg m1" by (rule route_existing_active_inv [OF assms(1) a])
  have i2: "manager_inv cfg m2" by (rule dispatch_pending_inv [OF i1 p])
  have t1: "touches_only e m m1"
  proof (cases "m1 = m")
    case False
    then have "is_active_endpoint_match e (h_conn_id ?h) m"
      and d: "try_dispatch_active cfg e bs (h_conn_id ?h) now m = (ok1, m1)"
      using a by (auto simp: route_existing_active_def split: if_splits)
    then have "(e, h_conn_id ?h) \<in> set (active_conn_id_by_endpoint m)"
      by (auto simp: is_active_endpoint_match_def split: option.splits dest: map_find_SomeD)
    from touches_dispatch_active [OF inv this d] show ?thesis .
  qed (simp add: touches_only_refl)
  have "table_ok m1" "sessions_ok cfg m1" using i1 by (simp_all add: manager_inv_def)
  from touches_dispatch_pending [OF this p] have t2: "touches_only e m1 m2" .
  consider "m' = m1" | "m' = m2" | ok3 where "route_new_peer cfg rd e bs ?h now m2 = Some (ok3, m')"
    using assms(2) Some a p
    by (auto simp: ssm_on_datagram_received_def route_existing_pending_def split: bool.splits)
  then show ?thesis
  proof cases
    case 1
    then show ?thesis using t1 by simp
  next
    case 2
    then show ?thesis using touches_only_trans [OF t1 t2] by simp
  next
    case 3
    from touches_new_peer [OF i2 this] show ?thesis
      by (rule touches_only_trans [OF touches_only_trans [OF t1 t2]])
  qed
qed

text \<open>
  C12. Endpoints are isolated: a datagram from one endpoint, whatever connection id it claims and
  whatever it contains, leaves the sessions of every other endpoint untouched, pending and active ones,
  and keeps their entries in the index.
\<close>

theorem endpoint_isolation:
  assumes "reachable manager_init (manager_step cfg) m"
    and "ssm_on_datagram_received cfg rd e bs now m = Some m'" and "e' \<noteq> e"
  shows "find_pending_session e' m' = find_pending_session e' m \<and>
    (\<forall>c. active_conn_id e' m = Some c \<longrightarrow>
       active_conn_id e' m' = Some c \<and> find_active_session c m' = find_active_session c m)"
proof -
  have inv: "manager_inv cfg m" using manager_sys.reachable_inv [OF assms(1)] .
  have t: "touches_only e m m'" by (rule touches_datagram [OF inv assms(2)])
  have "table_ok m'" using ssm_on_datagram_received_inv [OF inv assms(2)] by (simp add: manager_inv_def)
  from table_ok_distinct(3) [OF this]
  have "(e', c) \<in> set (active_conn_id_by_endpoint m') \<Longrightarrow> active_conn_id e' m' = Some c" for c
    by (simp add: active_conn_id_def map_find_in)
  then show ?thesis using t assms(3)
    by (fastforce simp: touches_only_def find_pending_session_def find_active_session_def
        active_conn_id_def dest: map_find_SomeD)
qed

text \<open>
  Datagrams that claim a connection they do not belong to are dropped without any effect: an id
  that is active for another endpoint, and a non-zero id that is not active from an endpoint without a
  pending session. The same holds for a datagram without id from an endpoint that is connected.
\<close>

lemma foreign_datagrams_dropped:
  assumes "decode bs = Some pv" and "c = h_conn_id (pv_header pv)"
    and "c \<noteq> 0 \<and> has_active_session c m \<and> active_conn_id e m \<noteq> Some c \<or>
      c \<noteq> 0 \<and> \<not> has_active_session c m \<and> \<not> has_pending_session e m \<or>
      c = 0 \<and> active_conn_id e m \<noteq> None \<and> \<not> has_pending_session e m"
  shows "ssm_on_datagram_received cfg rd e bs now m = Some m"
  using assms
  by (auto simp: ssm_on_datagram_received_def route_existing_active_def route_existing_pending_def
      try_dispatch_pending_def route_new_peer_def ensure_session_for_new_peer_def
      is_active_endpoint_match_def active_conn_id_def has_pending_session_def split: option.splits)

text \<open>
  C26. A poll of the manager polls every session exactly once and hands out its datagram, if any, under
  its endpoint: the pending sessions in the order of their table, then the active ones in the order of
  the endpoint index. A session whose poll ended it without a datagram is removed, every other one
  stays in its polled state; none is added.
\<close>

theorem manager_poll_exact:
  assumes "reachable manager_init (manager_step cfg) m" and "ssm_poll_tx cfg now m = (out, m')"
  shows "out = concat (map (\<lambda>(e, s). outbound_of cfg now e s) (pending_by_endpoint m)) @
      concat (map (\<lambda>(e, c). outbound_of cfg now e (the (find_active_session c m)))
        (active_conn_id_by_endpoint m)) \<and>
    pending_by_endpoint m' = map (\<lambda>(e, s). (e, snd (poll_tx cfg now s)))
      (filter (\<lambda>(e, s). \<not> expires cfg now s) (pending_by_endpoint m)) \<and>
    active_by_conn_id m' = map (\<lambda>(c, s). (c, snd (poll_tx cfg now s)))
      (filter (\<lambda>(c, s). \<not> expires cfg now s) (active_by_conn_id m))"
proof -
  have inv: "manager_inv cfg m" using manager_sys.reachable_inv [OF assms(1)] .
  show ?thesis
    using ssm_poll_tx_exact(1,2) [OF inv assms(2)] ssm_poll_tx_shape [OF inv, of now] assms(2)
    by (simp add: find_active_session_def polled_def)
qed

lemma drain_active_endpoints:
  "ev \<in> set (snd (drain_active_loop idx active)) \<Longrightarrow> se_endpoint ev \<in> fst ` set idx"
proof (induction idx arbitrary: active)
  case (Cons p idx)
  obtain e c where p: "p = (e, c)" by fastforce
  show ?case
  proof (cases "map_find active c")
    case None
    then show ?thesis using Cons by (simp add: p)
  next
    case (Some s)
    then show ?thesis
      using Cons.prems Cons.IH [of "map_modify c (\<lambda>_. snd (drain_events s)) active"]
      by (auto simp: p split_beta)
  qed
qed simp

lemma drain_pending_endpoints:
  "ev \<in> set (snd (drain_pending_loop ps)) \<Longrightarrow> se_endpoint ev \<in> fst ` set ps"
  by (induction ps rule: drain_pending_loop.induct) (auto simp: Let_def split: prod.splits)

text \<open>
  An RST ends the session, which queues the event ConnectionReset, and the manager removes the
  session, queue included, before the application can drain it: no event of that endpoint is left.
\<close>

lemma rst_ends_session:
  assumes "reachable manager_init (manager_step cfg) m" and "active_conn_id e m = Some c"
    and "decode bs = Some pv" and "h_conn_id (pv_header pv) = c"
    and "classify_control_kind (pv_header pv) = KindRst"
    and "ssm_on_datagram_received cfg rd e bs now m = Some m'"
  shows "\<not> has_active_session c m' \<and> c \<in> retired_conn_ids m' \<and>
    e \<notin> se_endpoint ` set (fst (ssm_drain_events m'))"
proof -
  have inv: "manager_inv cfg m" using manager_sys.reachable_inv [OF assms(1)] .
  then have ok: "table_ok m" "sessions_ok cfg m" by (simp_all add: manager_inv_def)
  have ec: "(e, c) \<in> set (active_conn_id_by_endpoint m)"
    using assms(2) by (auto simp: active_conn_id_def dest: map_find_SomeD)
  note id = ids_ok_indexD [OF ok(1) ec]
  obtain s where s: "find_active_session c m = Some s"
    using id(2) map_find_None_iff [of "active_by_conn_id m" c]
    by (auto simp: active_ids_def find_active_session_def)
  then have srv: "server_session cfg s" "s_conn_id s = c"
    using ok(2) map_find_SomeD [of "active_by_conn_id m" c s]
    by (auto simp: sessions_ok_def find_active_session_def)
  let ?f = "on_datagram_received cfg bs now"
  let ?m = "m\<lparr>active_by_conn_id := map_modify c ?f (active_by_conn_id m)\<rparr>"
  have "s_connection_state (?f s) = Reset"
    using srv assms(3-5) by (simp add: on_datagram_received_def Let_def frame_simps server_session_def
        should_adopt_server_conn_id_def has_conn_id_mismatch_def is_duplicate_client_syn_ack_def
        process_packet_identity state_after_def)
  then have "route_existing_active cfg e bs (pv_header pv) now m = (True, cleanup_active_session e c ?m)"
    using s id(1) assms(2,4)
    by (simp add: route_existing_active_def has_active_session_def is_active_endpoint_match_def
        active_conn_id_def try_dispatch_active_def cleanup_active_if_terminal_def Let_def
        find_active_session_def map_find_map_modify is_terminal_state_def)
  then have m': "m' = cleanup_active_session e c ?m"
    using assms(3,6) by (simp add: ssm_on_datagram_received_def)
  have f: "server_session cfg s \<Longrightarrow> server_session cfg (?f s) \<and> s_conn_id (?f s) = s_conn_id s" for s
    using on_datagram_received_server by blast
  note m = modify_active_ok [where c = c, OF ok f refl]
  have ec': "(e, c) \<in> set (active_conn_id_by_endpoint ?m)" using ec by simp
  have eq: "m' = ?m\<lparr>active_by_conn_id := map_erase c (active_by_conn_id ?m),
      active_conn_id_by_endpoint := map_erase e (active_conn_id_by_endpoint ?m),
      retired_conn_ids := insert c (retired_conn_ids ?m)\<rparr>"
    unfolding m' by (rule cleanup_active_fields [OF m(1) ec'])
  have "\<not> has_active_session c m'" "c \<in> retired_conn_ids m'"
    by (simp_all add: eq has_active_session_def find_active_session_def map_find_map_erase)
  moreover have "e \<notin> fst ` set (pending_by_endpoint m')" "e \<notin> fst ` set (active_conn_id_by_endpoint m')"
    using id(4) by (auto simp: eq map_erase_def keys_pending_ids)
  then have "e \<notin> se_endpoint ` set (fst (ssm_drain_events m'))"
    using drain_pending_endpoints [of _ "pending_by_endpoint m'"]
      drain_active_endpoints [of _ "active_conn_id_by_endpoint m'" "active_by_conn_id m'"]
    by (auto simp: ssm_drain_events_def split: prod.splits)
  ultimately show ?thesis by blast
qed

text \<open>A manager with one active session, for a concrete instance: the handshake of one peer.\<close>

definition sample_ack :: "u32 \<Rightarrow> bytes" where
  "sample_ack c = encode (default_header\<lparr>h_conn_id := c, h_flags := 0x20\<rparr>) []"

definition sample_rst :: "u32 \<Rightarrow> bytes" where
  "sample_rst c = encode (default_header\<lparr>h_conn_id := c, h_flags := 4\<rparr>) []"

definition pending_sample :: SessionState where
  "pending_sample = on_datagram_received default_transport sample_syn 5
     (assign_conn_id 0x30004 (Session Server 0x10002))"

lemma pending_sample_state:
  "s_role pending_sample = Server" "s_conn_id pending_sample = 0x30004"
  "s_connection_state pending_sample = HandshakeReceived"
  unfolding pending_sample_def on_datagram_received_def decode_sample_syn
  by (simp_all add: Let_def classify_control_kind_def hasFlag_def default_header_def frame_simps
      should_adopt_server_conn_id_def has_conn_id_mismatch_def is_duplicate_client_syn_ack_def
      process_packet_identity assign_conn_id_def Session_def state_after_def fin_acked_def
      record_received_stats_def default_decision_def)

definition active_sample :: SessionState where
  "active_sample = on_datagram_received default_transport (sample_ack 0x30004) 6 pending_sample"

lemma decode_sample_control:
  "decode (sample_ack c) = Some \<lparr>pv_header = default_header\<lparr>h_conn_id := c, h_flags := 0x20\<rparr>, pv_payload = []\<rparr>"
  "decode (sample_rst c) = Some \<lparr>pv_header = default_header\<lparr>h_conn_id := c, h_flags := 4\<rparr>, pv_payload = []\<rparr>"
  unfolding sample_ack_def sample_rst_def
  by (simp_all add: decode_encode_valid isValidHeader_def default_header_def)

lemma active_sample_state:
  "s_conn_id active_sample = 0x30004" "s_connection_state active_sample = Established"
  using pending_sample_state
  unfolding active_sample_def on_datagram_received_def decode_sample_control
  by (simp_all add: Let_def classify_control_kind_def hasFlag_def default_header_def frame_simps
      should_adopt_server_conn_id_def has_conn_id_mismatch_def is_duplicate_client_syn_ack_def
      process_packet_identity state_after_def fin_acked_def default_decision_def)

definition sample_manager1 :: ServerSessionManager where
  "sample_manager1 = empty_manager\<lparr>pending_by_endpoint := [(sample_endpoint, pending_sample)]\<rparr>"

definition sample_manager2 :: ServerSessionManager where
  "sample_manager2 = empty_manager\<lparr>active_by_conn_id := [(0x30004, active_sample)],
     active_conn_id_by_endpoint := [(sample_endpoint, 0x30004)]\<rparr>"

lemma sample_manager1_step:
  "ssm_on_datagram_received default_transport [1, 2, 3, 4] sample_endpoint sample_syn 5 empty_manager =
     Some sample_manager1"
proof -
  have s: "on_datagram_received default_transport sample_syn 5
      (assign_conn_id 0x30004 (Session Server 0x10002)) = pending_sample"
    by (simp add: pending_sample_def)
  have c: "s_conn_id (Session r i) = 0" for r i by (simp add: Session_def)
  show ?thesis using pending_sample_state
    by (simp add: ssm_on_datagram_received_def decode_sample_syn route_existing_active_def
        route_existing_pending_def try_dispatch_pending_def route_new_peer_def
        ensure_session_for_new_peer_def find_pending_session_def empty_manager_def map_find_def
        conn_id_is_in_use_def Session_random_def generate_initial_seq_def umap_assign_def
        default_header_def map_modify_def s cleanup_pending_if_terminal_def is_terminal_state_def
        sample_manager1_def c)
qed

lemma sample_manager2_step:
  "ssm_on_datagram_received default_transport [] sample_endpoint (sample_ack 0x30004) 6 sample_manager1 =
     Some sample_manager2"
proof -
  have s: "on_datagram_received default_transport (sample_ack 0x30004) 6 pending_sample = active_sample"
    by (simp add: active_sample_def)
  show ?thesis using active_sample_state
    by (simp add: ssm_on_datagram_received_def decode_sample_control route_existing_active_def
        has_active_session_def find_active_session_def route_existing_pending_def
        try_dispatch_pending_def find_pending_session_def empty_manager_def map_find_def
        default_header_def map_modify_def s promote_pending_session_def umap_assign_def map_erase_def
        sample_manager1_def sample_manager2_def)
qed

lemma sample_manager2_reachable:
  "reachable manager_init (manager_step default_transport) sample_manager2"
proof -
  have "reachable manager_init (manager_step default_transport) sample_manager1"
    by (rule reach_step [OF reachable_empty ms_datagram [OF sample_manager1_step]])
  then show ?thesis by (rule reach_step) (rule ms_datagram [OF sample_manager2_step])
qed

text \<open>What a SYN from an endpoint without a session does to the table.\<close>

lemma map_find_append_new: "k \<notin> fst ` set m \<Longrightarrow> map_find (m @ [(k, v)]) k = Some v"
  by (simp add: map_find_def map_add_def map_of_eq_None_iff [THEN iffD2])

lemma allocate_with_new_session:
  "allocate_conn_id rd (m\<lparr>pending_by_endpoint := pending_by_endpoint m @ [(e, Session_random r x y)]\<rparr>) =
     allocate_conn_id rd m"
proof -
  have "conn_id_is_in_use c (m\<lparr>pending_by_endpoint := pending_by_endpoint m @ [(e, Session_random r x y)]\<rparr>) =
      conn_id_is_in_use c m" for c
    by (simp add: conn_id_is_in_use_def Session_random_def Session_def)
  then show ?thesis by (induction rd m rule: allocate_conn_id.induct) (simp_all add: Let_def)
qed

lemma manager_opens:
  assumes "\<not> has_pending_session e m" and "active_conn_id e m = None" and "allocate_conn_id rd m = Some cid"
    and "bs = encode h p" and "isValidHeader h" and "h_conn_id h = 0"
    and "s = on_datagram_received cfg bs now (assign_conn_id cid (Session_random Server rd1 rd2))"
    and "s_connection_state s = HandshakeReceived"
  shows "ssm_on_datagram_received cfg (rd1 # rd2 # rd) e bs now m =
    Some (m\<lparr>pending_by_endpoint := pending_by_endpoint m @ [(e, s)]\<rparr>)"
proof -
  have e: "find_pending_session e m = None" "map_find (active_conn_id_by_endpoint m) e = None"
    "e \<notin> fst ` set (pending_by_endpoint m)"
    using assms(1,2) by (simp_all add: has_pending_session_def active_conn_id_def find_pending_session_def
        map_find_None_iff)
  let ?s0 = "assign_conn_id cid (Session_random Server rd1 rd2)"
  let ?m0 = "m\<lparr>pending_by_endpoint := pending_by_endpoint m @ [(e, ?s0)]\<rparr>"
  have "ensure_session_for_new_peer (rd1 # rd2 # rd) e m = Some (True, ?m0)"
    using e by (simp add: ensure_session_for_new_peer_def umap_assign_new allocate_with_new_session assms(3)
        map_modify_append_new)
  moreover have f: "find_pending_session e (m\<lparr>pending_by_endpoint := pending_by_endpoint m @ [(e, x)]\<rparr>) = Some x" for x
    using e(3) by (simp add: find_pending_session_def map_find_append_new)
  have "try_dispatch_pending cfg e bs now ?m0 =
      (True, m\<lparr>pending_by_endpoint := pending_by_endpoint m @ [(e, s)]\<rparr>)"
    using assms(7,8) by (simp add: try_dispatch_pending_def f map_modify_append_new [OF e(3)] Let_def
        cleanup_pending_if_terminal_def is_terminal_state_def)
  ultimately have "route_new_peer cfg (rd1 # rd2 # rd) e bs h now m =
      Some (True, m\<lparr>pending_by_endpoint := pending_by_endpoint m @ [(e, s)]\<rparr>)"
    using assms(6) by (simp add: route_new_peer_def)
  moreover have "decode bs = Some \<lparr>pv_header = h, pv_payload = p\<rparr>"
    unfolding assms(4) by (rule decode_encode_valid [OF assms(5)])
  moreover have "try_dispatch_pending cfg e bs now m = (False, m)" using e(1) by (simp add: try_dispatch_pending_def)
  ultimately show ?thesis
    using assms(6) by (simp add: ssm_on_datagram_received_def route_existing_active_def route_existing_pending_def)
qed

text \<open>
  The same manager after a second peer's SYN: one active and one pending session. The handshake
  lemmas apply to the samples, which are control packets.
\<close>

definition sample_endpoint2 :: EndpointKey where
  "sample_endpoint2 = \<lparr>ek_address = ''10.0.0.2'', ek_port = 4000\<rparr>"

definition pending_sample2 :: SessionState where
  "pending_sample2 = on_datagram_received default_transport sample_syn 7
     (assign_conn_id 0x70008 (Session_random Server 5 6))"

definition sample_manager3 :: ServerSessionManager where
  "sample_manager3 = sample_manager2\<lparr>pending_by_endpoint := [(sample_endpoint2, pending_sample2)]\<rparr>"

lemma sample_control:
  "sample_syn = encode (control_header 0 9 (flag_value FlagSyn) default_rx) []"
  "sample_ack c = encode (control_header c 0 (flag_value FlagAck) default_rx) []"
  by (simp_all add: sample_syn_def sample_ack_def control_header_def default_header_def default_rx_def)

lemma opened_session:
  "s_role (assign_conn_id c (Session Server i)) = Server"
  "s_connection_state (assign_conn_id c (Session Server i)) = Closed"
  "rx_next_expected (s_rx (assign_conn_id c (Session Server i))) = 0"
  "rx_received_bits (s_rx (assign_conn_id c (Session Server i))) = 0"
  "s_tx (assign_conn_id c (Session Server i)) = s_tx (Session Server i)"
  by (simp_all add: assign_conn_id_def Session_def default_rx_def)

lemmas sample_syn_received = server_receives_syn [OF opened_session(1-4) refl]

lemma pending_sample2_state:
  "s_role pending_sample2 = Server" "s_connection_state pending_sample2 = HandshakeReceived"
  "s_tx pending_sample2 = (s_tx (Session Server (generate_initial_seq 5 6)))\<lparr>tx_syn_ack_pending := True\<rparr>"
  unfolding pending_sample2_def sample_control Session_random_def sample_syn_received
  by (simp_all add: opened_session)

lemma active_sample_tx:
  "s_tx active_sample = snd (on_remote_ack default_transport 0 0
     ((s_tx (Session Server 0x10002))\<lparr>tx_syn_ack_pending := True\<rparr>))"
  "s_last_rx_ms active_sample = 6" "s_role active_sample = Server"
proof -
  have p: "s_tx pending_sample = (s_tx (Session Server 0x10002))\<lparr>tx_syn_ack_pending := True\<rparr>"
    unfolding pending_sample_def sample_control sample_syn_received by (simp add: opened_session)
  have a: "active_sample = on_datagram_received default_transport
      (encode (control_header (s_conn_id pending_sample) 0 (flag_value FlagAck) default_rx) []) 6 pending_sample"
    by (simp only: active_sample_def sample_control pending_sample_state)
  note r = server_receives_ack [OF pending_sample_state(1,3) a]
  show "s_tx active_sample = snd (on_remote_ack default_transport 0 0
     ((s_tx (Session Server 0x10002))\<lparr>tx_syn_ack_pending := True\<rparr>))"
    unfolding r(4) p by (simp add: default_rx_def)
  show "s_role active_sample = Server" by (rule r(1))
  show "s_last_rx_ms active_sample = 6"
    using pending_sample_state unfolding active_sample_def on_datagram_received_def decode_sample_control
    by (simp add: Let_def frame_simps classify_control_kind_def hasFlag_def default_header_def
      should_adopt_server_conn_id_def has_conn_id_mismatch_def is_duplicate_client_syn_ack_def)
qed

lemma sample_manager3_step:
  "ssm_on_datagram_received default_transport [5, 6, 7, 8] sample_endpoint2 sample_syn 7 sample_manager2 =
     Some sample_manager3"
proof -
  have ne: "sample_endpoint \<noteq> sample_endpoint2" by (simp add: sample_endpoint_def sample_endpoint2_def)
  have m: "\<not> has_pending_session sample_endpoint2 sample_manager2"
    "active_conn_id sample_endpoint2 sample_manager2 = None"
    "allocate_conn_id [7, 8] sample_manager2 = Some 0x70008"
    using ne by (simp_all add: has_pending_session_def find_pending_session_def active_conn_id_def
        sample_manager2_def empty_manager_def map_find_def conn_id_is_in_use_def
        has_active_session_def find_active_session_def)
  have "isValidHeader (control_header 0 9 (flag_value FlagSyn) default_rx)"
    "h_conn_id (control_header 0 9 (flag_value FlagSyn) default_rx) = 0" by simp_all
  from manager_opens [OF m sample_control(1) this pending_sample2_def pending_sample2_state(2)]
  show ?thesis by (simp add: sample_manager3_def sample_manager2_def empty_manager_def)
qed

lemma sample_manager3_reachable:
  "reachable manager_init (manager_step default_transport) sample_manager3"
  by (rule reach_step [OF sample_manager2_reachable ms_datagram [OF sample_manager3_step]])

lemma pending_sample2_poll:
  obtains d s where "poll_tx default_transport now pending_sample2 = (Some d, s)"
    and "s_connection_state s = HandshakeReceived"
proof -
  obtain out s where p: "poll_tx default_transport now pending_sample2 = (out, s)" by fastforce
  have "tx_syn_ack_pending (s_tx pending_sample2)"
    "tx_next_seq (s_tx pending_sample2) = generate_initial_seq 5 6"
    "tx_remote_ack (s_tx pending_sample2) = generate_initial_seq 5 6" "tx_inflight (s_tx pending_sample2) = []"
    by (simp_all add: pending_sample2_state Session_def)
  note r = server_sends_syn_ack [OF pending_sample2_state(1,2) this p]
  show thesis by (rule that [OF p [unfolded r(1)] r(4)])
qed

text \<open>The server queues data for the active peer.\<close>

definition sending_sample :: SessionState where
  "sending_sample = queue_send 1 Unreliable [42] active_sample"

definition sample_manager4 :: ServerSessionManager where
  "sample_manager4 = sample_manager3\<lparr>active_by_conn_id := [(0x30004, sending_sample)]\<rparr>"

lemma sample_manager4_reachable:
  "reachable manager_init (manager_step default_transport) sample_manager4"
proof (rule reach_step [OF sample_manager3_reachable ms_queue])
  show "ssm_queue_send 0x30004 1 Unreliable [42] sample_manager3 = (True, sample_manager4)"
    by (simp add: ssm_queue_send_def find_active_session_def map_find_def map_modify_def
        sample_manager4_def sample_manager3_def sample_manager2_def sending_sample_def)
qed (simp add: named_channel_def)

lemma sending_sample_state:
  "s_connection_state sending_sample = Established" "s_role sending_sample = Server"
  "s_last_rx_ms sending_sample = 6"
  "s_tx sending_sample = (s_tx (Session Server 0x10002))\<lparr>tx_syn_ack_pending := True, tx_remote_ack := 0,
     tx_pending_send := [\<lparr>sr_channel_id = 1, sr_channel_type = Unreliable, sr_payload = [42]\<rparr>]\<rparr>"
  by (simp_all add: sending_sample_def queue_send_def active_sample_tx active_sample_state
      queue_app_data_def copy_payload_def on_remote_ack_eq acknowledged_inflight_def Session_def)

lemma sending_sample_poll:
  "\<exists>d s. poll_tx default_transport 700 sending_sample = (Some d, s)"
  "expires default_transport 100000 sending_sample"
proof -
  let ?s = "schedule_pending_tx_work default_transport 700 sending_sample"
  have t: "\<not> should_timeout_idle_session default_transport sending_sample 700"
    by (simp add: should_timeout_idle_session_def default_transport_def sending_sample_state)
  have s: "?s = sending_sample" using sending_sample_state
    by (simp add: schedule_pending_tx_work_def should_schedule_reliable_ack_def default_transport_def
        should_schedule_activity_ack_def should_schedule_probe_def Session_def)
  have r: "try_build_retransmit default_transport 700 rx (s_tx sending_sample) =
      (default_poll_result, s_tx sending_sample)" for rx
    by (rule retransmit_idle_lane) (simp add: sending_sample_state Session_def)
  show "\<exists>d s. poll_tx default_transport 700 sending_sample = (Some d, s)"
    using t r sending_sample_state
    by (simp add: poll_tx_def s poll_def try_build_handshake_def default_poll_result_def
        try_build_probe_lane_def try_build_ack_only_def try_build_fresh_def isReliableChannel_def
        make_poll_result_def Session_def default_probe_def split_beta Let_def)
  have "should_timeout_idle_session default_transport sending_sample 100000"
    by (simp add: should_timeout_idle_session_def default_transport_def sending_sample_state)
  then show "expires default_transport 100000 sending_sample"
    by (simp add: expires_def polled_def poll_tx_def mark_idle_timeout_def is_terminal_state_def)
qed

text \<open>
  A poll soon after hands out the SYN-ACK of the pending and the data of the active session and keeps
  both; a poll after the idle timeout hands out the SYN-ACK and removes the active session.
\<close>

theorem manager_poll_exact_witness:
  "\<exists>d1 d2 m1 d3 m2 s1 s2 s3.
    ssm_poll_tx default_transport 700 sample_manager4 =
      ([\<lparr>od_endpoint = sample_endpoint2, od_bytes = d1\<rparr>, \<lparr>od_endpoint = sample_endpoint, od_bytes = d2\<rparr>], m1) \<and>
    pending_by_endpoint m1 = [(sample_endpoint2, s1)] \<and> active_by_conn_id m1 = [(0x30004, s2)] \<and>
    ssm_poll_tx default_transport 100000 sample_manager4 =
      ([\<lparr>od_endpoint = sample_endpoint2, od_bytes = d3\<rparr>], m2) \<and>
    pending_by_endpoint m2 = [(sample_endpoint2, s3)] \<and> active_by_conn_id m2 = []"
proof -
  obtain out1 m1 where p1: "ssm_poll_tx default_transport 700 sample_manager4 = (out1, m1)" by fastforce
  obtain out2 m2 where p2: "ssm_poll_tx default_transport 100000 sample_manager4 = (out2, m2)" by fastforce
  obtain d1 s1 where pend1: "poll_tx default_transport 700 pending_sample2 = (Some d1, s1)"
    by (rule pending_sample2_poll)
  obtain d3 s3 where pend2: "poll_tx default_transport 100000 pending_sample2 = (Some d3, s3)"
    by (rule pending_sample2_poll)
  obtain d2 s2 where act: "poll_tx default_transport 700 sending_sample = (Some d2, s2)"
    using sending_sample_poll(1) by blast
  have m: "pending_by_endpoint sample_manager4 = [(sample_endpoint2, pending_sample2)]"
    "active_by_conn_id sample_manager4 = [(0x30004, sending_sample)]"
    "active_conn_id_by_endpoint sample_manager4 = [(sample_endpoint, 0x30004)]"
    "find_active_session 0x30004 sample_manager4 = Some sending_sample"
    by (simp_all add: sample_manager4_def sample_manager3_def sample_manager2_def find_active_session_def
        map_find_def)
  have e: "\<not> expires default_transport 700 pending_sample2" "\<not> expires default_transport 100000 pending_sample2"
    "\<not> expires default_transport 700 sending_sample"
    using pend1 pend2 act by (simp_all add: expires_def)
  have quiet: "outbound_of default_transport 100000 sample_endpoint sending_sample = []"
    using sending_sample_poll(2) by (simp add: expires_def outbound_of_def)
  note x1 = manager_poll_exact [OF sample_manager4_reachable p1, unfolded m]
  note x2 = manager_poll_exact [OF sample_manager4_reachable p2, unfolded m]
  have "out1 = [\<lparr>od_endpoint = sample_endpoint2, od_bytes = d1\<rparr>, \<lparr>od_endpoint = sample_endpoint, od_bytes = d2\<rparr>]"
    "pending_by_endpoint m1 = [(sample_endpoint2, s1)]" "active_by_conn_id m1 = [(0x30004, s2)]"
    using x1 e pend1 act m(4) by (simp_all add: outbound_of_def)
  moreover have "out2 = [\<lparr>od_endpoint = sample_endpoint2, od_bytes = d3\<rparr>]"
    "pending_by_endpoint m2 = [(sample_endpoint2, s3)]" "active_by_conn_id m2 = []"
    using x2 e pend2 sending_sample_poll(2) quiet m(4) by (simp_all add: outbound_of_def [of _ _ sample_endpoint2])
  ultimately show ?thesis using p1 p2 by blast
qed

text \<open>The second peer's SYN leaves the active session of the first one alone.\<close>

theorem endpoint_isolation_witness:
  "ssm_on_datagram_received default_transport [5, 6, 7, 8] sample_endpoint2 sample_syn 7 sample_manager2 =
     Some sample_manager3 \<and>
   active_conn_id sample_endpoint sample_manager3 = Some 0x30004 \<and>
   find_active_session 0x30004 sample_manager3 = Some active_sample"
proof -
  have ne: "sample_endpoint \<noteq> sample_endpoint2" by (simp add: sample_endpoint_def sample_endpoint2_def)
  have "active_conn_id sample_endpoint sample_manager2 = Some 0x30004"
    "find_active_session 0x30004 sample_manager2 = Some active_sample"
    by (simp_all add: sample_manager2_def active_conn_id_def find_active_session_def map_find_def)
  then show ?thesis
    using endpoint_isolation [OF sample_manager2_reachable sample_manager3_step ne] sample_manager3_step
    by simp
qed

end
