(* ===== verification/Server_Handshake.thy ===== *)
theory Server_Handshake
  imports Manager_Spec
begin

text \<open>
  A client that connects to the server: the handshake of \<open>src/Session.cpp\<close> as the two programs run it,
  with the server's session inside \<open>src/ServerSessionManager.cpp\<close>, which opens it, polls it among all
  others and promotes it.
\<close>

section \<open>The SYN-ACK\<close>

lemma manager_polls_pending:
  assumes "manager_inv cfg m" and "find_pending_session e m = Some s" and "poll_tx cfg now s = (Some d, s')"
    and "ssm_poll_tx cfg now m = (outs, m')"
  shows "{dg \<in> set outs. od_endpoint dg = e} = {\<lparr>od_endpoint = e, od_bytes = d\<rparr>}"
    and "find_pending_session e m' = Some s'"
proof -
  have inv: "table_ok m" using assms(1) by (simp add: manager_inv_def)
  note dist = table_ok_distinct [OF inv]
  have es: "(e, s) \<in> set (pending_by_endpoint m)"
    using assms(2) by (simp add: find_pending_session_def map_find_SomeD)
  have sole: "x = s" if "(e, x) \<in> set (pending_by_endpoint m)" for x
    using map_find_in [OF dist(1) that] assms(2) by (simp add: find_pending_session_def)
  have idx: "e \<notin> fst ` set (active_conn_id_by_endpoint m)"
    by (rule ids_ok_pendingD(4) [OF inv find_pending_ids [OF assms(2)]])
  have out: "outs = concat (map (\<lambda>(e, s). outbound_of cfg now e s) (pending_by_endpoint m)) @
     concat (map (\<lambda>(e, c). outbound_of cfg now e (the (map_find (active_by_conn_id m) c)))
        (active_conn_id_by_endpoint m))"
    using ssm_poll_tx_shape [OF assms(1), of now] assms(4) by simp
  have own: "outbound_of cfg now e s = [\<lparr>od_endpoint = e, od_bytes = d\<rparr>]"
    using assms(3) by (simp add: outbound_of_def)
  have ep: "dg \<in> set (outbound_of cfg now e' x) \<Longrightarrow> od_endpoint dg = e'" for dg e' x
    by (auto simp: outbound_of_def split: option.splits)
  show "{dg \<in> set outs. od_endpoint dg = e} = {\<lparr>od_endpoint = e, od_bytes = d\<rparr>}" (is "?L = ?R")
  proof
    show "?L \<subseteq> ?R"
    proof
      fix dg assume "dg \<in> ?L"
      then have d: "dg \<in> set outs" "od_endpoint dg = e" by simp_all
      then obtain e' where "(\<exists>x. (e', x) \<in> set (pending_by_endpoint m) \<and> dg \<in> set (outbound_of cfg now e' x)) \<or>
          (\<exists>c x. (e', c) \<in> set (active_conn_id_by_endpoint m) \<and> dg \<in> set (outbound_of cfg now e' x))"
        unfolding out by auto
      moreover from this have "e' = e" using d(2) ep by blast
      ultimately consider x where "(e, x) \<in> set (pending_by_endpoint m)" "dg \<in> set (outbound_of cfg now e x)"
        | c where "(e, c) \<in> set (active_conn_id_by_endpoint m)" by blast
      then show "dg \<in> ?R" using sole own idx by cases (auto intro: rev_image_eqI)
    qed
    show "?R \<subseteq> ?L" using es own unfolding out by force
  qed
  note ex = ssm_poll_tx_exact [OF assms(1,4)]
  have "\<not> expires cfg now s" "polled cfg now s = s'" using assms(3) by (simp_all add: expires_def polled_def)
  then have "(e, s') \<in> set (pending_by_endpoint m')" unfolding ex(1) using es by force
  then show "find_pending_session e m' = Some s'"
    using map_find_in [OF table_ok_distinct(1) [OF ex(3)]] by (simp add: find_pending_session_def)
qed

section \<open>The ACK\<close>

lemma manager_promotes:
  assumes "manager_inv cfg m" and "find_pending_session e m = Some s" and "s_conn_id s = cid"
    and "bs = encode h p" and "isValidHeader h" and "h_conn_id h = cid"
    and "s' = on_datagram_received cfg bs now s" and "s_connection_state s' = Established" and "s_conn_id s' = cid"
  obtains m' where "ssm_on_datagram_received cfg rd e bs now m = Some m'"
    and "find_active_session cid m' = Some s'" and "active_conn_id e m' = Some cid"
    and "\<not> has_pending_session e m'" and "active_session_count m' = active_session_count m + 1"
proof -
  have inv: "table_ok m" using assms(1) by (simp add: manager_inv_def)
  let ?m = "m\<lparr>pending_by_endpoint := map_modify e (on_datagram_received cfg bs now) (pending_by_endpoint m)\<rparr>"
  let ?m' = "?m\<lparr>active_conn_id_by_endpoint := active_conn_id_by_endpoint ?m @ [(e, s_conn_id s')],
      active_by_conn_id := active_by_conn_id ?m @ [(s_conn_id s', s')],
      pending_by_endpoint := map_erase e (pending_by_endpoint ?m)\<rparr>"
  have f: "server_session cfg x \<Longrightarrow> server_session cfg (on_datagram_received cfg bs now x) \<and>
      s_conn_id (on_datagram_received cfg bs now x) = s_conn_id x" for x
    using on_datagram_received_server by blast
  have ok: "table_ok ?m" using modify_pending_ok(1) [OF inv _ f refl] assms(1) by (simp add: manager_inv_def)
  have found: "find_pending_session e ?m = Some s'"
    using assms(2,7) by (simp add: find_pending_session_def map_find_map_modify)
  note id = ids_ok_pendingD [OF ok find_pending_ids [OF found], unfolded assms(9)]
  have new: "cid \<notin> fst ` set (active_by_conn_id m)" "e \<notin> fst ` set (active_conn_id_by_endpoint m)"
    using id(2,4) by (simp_all add: active_ids_def)
  then have "\<not> has_active_session cid m"
    by (simp add: has_active_session_def find_active_session_def map_find_None_iff)
  then have "ssm_on_datagram_received cfg rd e bs now m = Some ?m'"
    using assms(2,5-8) promote_fields [OF ok found]
    by (simp add: ssm_on_datagram_received_def assms(4) decode_encode_valid route_existing_active_def
        route_existing_pending_def try_dispatch_pending_def Let_def)
  then show thesis
    by (rule that) (use new assms(9) in \<open>simp_all add: find_active_session_def active_conn_id_def
      has_pending_session_def find_pending_session_def map_find_append_new map_find_map_erase
      active_session_count_def\<close>)
qed

section \<open>Properties\<close>

text \<open>
  C6. The server accepts a client. From every state the session manager reaches, with whatever other
  sessions, a fresh client at an endpoint without a session connects: its SYN opens a pending session under
  the id the draws allocate; the manager's next poll hands out exactly one datagram for the endpoint; the
  client's answer to it establishes the client's session; and its arrival moves the server's session to the
  active ones, established, under the same id and filed for the endpoint, so that the server application can
  send on it. For all initial sequence numbers of the two ends; the only timing assumption is that the client
  polls before its idle timeout.
\<close>

theorem manager_accepts_client:
  assumes "reachable manager_init (manager_step cfg) m" and "\<not> has_pending_session e m"
    and "active_conn_id e m = None" and "allocate_conn_id rd m = Some cid" and "te < td + idle_timeout_ms cfg"
  shows "\<exists>d1 c1 m1 outs m2 d2 d3 c3 m3.
    poll_tx cfg ta (Session Client ic) = (Some d1, c1) \<and>
    ssm_on_datagram_received cfg (rd1 # rd2 # rd) e d1 tb m = Some m1 \<and>
    pending_conn_id e m1 = Some cid \<and> pending_session_count m1 = pending_session_count m + 1 \<and>
    ssm_poll_tx cfg tc m1 = (outs, m2) \<and>
    {dg \<in> set outs. od_endpoint dg = e} = {\<lparr>od_endpoint = e, od_bytes = d2\<rparr>} \<and>
    poll_tx cfg te (on_datagram_received cfg d2 td c1) = (Some d3, c3) \<and>
    s_connection_state c3 = Established \<and> s_conn_id c3 = cid \<and>
    ssm_on_datagram_received cfg rd' e d3 tf m2 = Some m3 \<and>
    \<not> has_pending_session e m3 \<and> active_conn_id e m3 = Some cid \<and>
    map_option s_connection_state (find_active_session cid m3) = Some Established \<and>
    active_session_count m3 = active_session_count m2 + 1 \<and>
    fst (ssm_queue_send cid ch t payload m3)"
proof -
  have inv: "manager_inv cfg m" by (rule manager_sys.reachable_inv [OF assms(1)])
  have cid: "cid \<noteq> 0" by (rule not_in_use_fresh(1) [OF allocate_conn_id_fresh [OF assms(4)]])
  let ?h1 = "control_header 0 ic (flag_value FlagSyn) default_rx"
  obtain isn where isn: "Session_random Server rd1 rd2 = Session Server isn" by (simp add: Session_random_def)
  obtain c1 s1 d2 s2 rx d3 c3 s3 where
    c1: "poll_tx cfg ta (Session Client ic) = (Some (encode ?h1 []), c1)" and
    s1: "on_datagram_received cfg (encode ?h1 []) tb (assign_conn_id cid (Session Server isn)) = s1"
      "s_connection_state s1 = HandshakeReceived" "poll_tx cfg tc s1 = (Some d2, s2)" and
    c3: "poll_tx cfg te (on_datagram_received cfg d2 td c1) = (Some d3, c3)" "s_connection_state c3 = Established"
      "s_conn_id c3 = cid" "d3 = encode (control_header cid 0 (flag_value FlagAck) rx) []" and
    s3: "on_datagram_received cfg d3 tf s2 = s3" "s_connection_state s3 = Established"
      "s_conn_id s1 = cid" "s_conn_id s2 = cid" "s_conn_id s3 = cid"
    by (rule handshake_run [where ta = ta and ic = ic and tb = tb and isn = isn and tc = tc and tf = tf,
          OF cid assms(5) refl], rule that)
  define m1 where "m1 = m\<lparr>pending_by_endpoint := pending_by_endpoint m @ [(e, s1)]\<rparr>"
  have v: "isValidHeader ?h1" "h_conn_id ?h1 = 0" by simp_all
  have r1: "ssm_on_datagram_received cfg (rd1 # rd2 # rd) e (encode ?h1 []) tb m = Some m1"
    unfolding m1_def
    by (rule manager_opens [OF assms(2-4) refl v s1(1) [symmetric, folded isn] s1(2)])
  have f1: "find_pending_session e m1 = Some s1"
    using assms(2) by (simp add: m1_def has_pending_session_def find_pending_session_def map_find_None_iff
        map_find_append_new)
  obtain outs m2 where p2: "ssm_poll_tx cfg tc m1 = (outs, m2)" by fastforce
  have inv1: "manager_inv cfg m1" by (rule ssm_on_datagram_received_inv [OF inv r1])
  note f2 = manager_polls_pending [OF inv1 f1 s1(3) p2]
  have inv2: "manager_inv cfg m2" by (rule ssm_poll_tx_inv [OF inv1 p2])
  have v3: "isValidHeader (control_header cid 0 (flag_value FlagAck) rx)"
    "h_conn_id (control_header cid 0 (flag_value FlagAck) rx) = cid" by simp_all
  obtain m3 where r3: "ssm_on_datagram_received cfg rd' e d3 tf m2 = Some m3"
    and a3: "find_active_session cid m3 = Some s3" and i3: "active_conn_id e m3 = Some cid"
    "\<not> has_pending_session e m3" "active_session_count m3 = active_session_count m2 + 1"
    by (rule manager_promotes [OF inv2 f2(2) s3(4) c3(4) v3 s3(1) [symmetric] s3(2,5)])
  have o3: "map_option s_connection_state (find_active_session cid m3) = Some Established"
    "fst (ssm_queue_send cid ch t payload m3)" using a3 s3(2) by (simp_all add: ssm_queue_send_def)
  have n1: "pending_conn_id e m1 = Some cid" "pending_session_count m1 = pending_session_count m + 1"
    using f1 s3(3) by (simp_all add: pending_conn_id_def pending_session_count_def m1_def)
  show ?thesis by (intro exI conjI) (rule c1 r1 n1 p2 f2(1) c3(1-3) r3 i3 o3)+
qed

theorem manager_accepts_client_witness:
  "\<exists>d1 c1 m1 outs m2 d2 d3 c3 m3.
    poll_tx default_transport 1 (Session Client 10) = (Some d1, c1) \<and>
    ssm_on_datagram_received default_transport [1, 2, 3, 4] sample_endpoint d1 2 empty_manager = Some m1 \<and>
    ssm_poll_tx default_transport 3 m1 = (outs, m2) \<and>
    {dg \<in> set outs. od_endpoint dg = sample_endpoint} = {\<lparr>od_endpoint = sample_endpoint, od_bytes = d2\<rparr>} \<and>
    poll_tx default_transport 5 (on_datagram_received default_transport d2 4 c1) = (Some d3, c3) \<and>
    ssm_on_datagram_received default_transport [] sample_endpoint d3 6 m2 = Some m3 \<and>
    active_conn_id sample_endpoint m3 = Some 0x30004 \<and> s_conn_id c3 = 0x30004"
proof -
  have h: "\<not> has_pending_session sample_endpoint empty_manager" "active_conn_id sample_endpoint empty_manager = None"
    "allocate_conn_id [3, 4] empty_manager = Some 0x30004" "(5 :: u64) < 4 + idle_timeout_ms default_transport"
    by (simp_all add: has_pending_session_def find_pending_session_def active_conn_id_def empty_manager_def
        map_find_def conn_id_is_in_use_def default_transport_def)
  note a = manager_accepts_client [where ?rd1.0 = 1 and ?rd2.0 = 2 and rd' = "[]" and ic = 10 and ta = 1 and tb = 2 and
    tc = 3 and tf = 6 and ch = 1 and t = ReliableOrdered and payload = "[]", OF reachable_empty h]
  then show ?thesis by - (elim exE conjE, intro exI conjI, assumption+)
qed

end
