(* ===== verification/Std_String.thy ===== *)
theory Std_String
  imports Rudp_Utils
begin

text \<open>
  The operations of the C++ standard library on text that the configuration loader and the two
  applications use: searching for a character, reading a stream line by line, decimal printing
  (\<open>std::to_string\<close>) and the conversion \<open>std::stoull\<close> (and \<open>std::stoul\<close>, the same function where
  \<open>long\<close> has 64 bits). The lemmas give the round trip of printing and reading numbers and lines, and
  what \<open>trim\<close> and \<open>unquote\<close> do to printed text.
\<close>

section \<open>Searching\<close>

text \<open>\<open>s.find(c)\<close> and \<open>s.find(c, pos)\<close>: the first position, None for \<open>npos\<close>.\<close>

fun find_char :: "char \<Rightarrow> string \<Rightarrow> nat option" where
  "find_char c [] = None"
| "find_char c (x # xs) = (if x = c then Some 0 else map_option Suc (find_char c xs))"

definition find_char_from :: "char \<Rightarrow> string \<Rightarrow> nat \<Rightarrow> nat option" where
  "find_char_from c s pos = map_option (\<lambda>i. pos + i) (find_char c (drop pos s))"

text \<open>\<open>s.rfind(prefix, 0) == 0\<close> and \<open>s.substr(pos, count)\<close> for positions in range.\<close>

definition starts_with :: "string \<Rightarrow> string \<Rightarrow> bool" where
  "starts_with prefix s = (take (length prefix) s = prefix)"

definition substr :: "string \<Rightarrow> nat \<Rightarrow> nat \<Rightarrow> string" where
  "substr s pos count = take count (drop pos s)"

section \<open>Lines\<close>

abbreviation newline :: char where
  "newline \<equiv> CHR 0x0A"

text \<open>The lines \<open>std::getline\<close> yields one after the other from a stream with this content.\<close>

fun getlines_from :: "string \<Rightarrow> string \<Rightarrow> string list" where
  "getlines_from line [] = (if line = [] then [] else [line])"
| "getlines_from line (c # cs) =
     (if c = newline then line # getlines_from [] cs else getlines_from (line @ [c]) cs)"

definition getlines :: "string \<Rightarrow> string list" where
  "getlines content = getlines_from [] content"

section \<open>Numbers\<close>

definition digit_char :: "nat \<Rightarrow> char" where
  "digit_char d = char_of (48 + d)"

function decimal :: "nat \<Rightarrow> string" where
  "decimal n = (if 10 \<le> n then decimal (n div 10) else []) @ [digit_char (n mod 10)]"
  by pat_completeness auto
termination
  by (relation "measure id") auto

declare decimal.simps [simp del]

definition to_string :: "'a :: len word \<Rightarrow> string" where
  "to_string w = decimal (unat w)"

definition isdigit :: "char \<Rightarrow> bool" where
  "isdigit c = (48 \<le> (of_char c :: nat) \<and> (of_char c :: nat) \<le> 57)"

definition digit_value :: "char \<Rightarrow> nat" where
  "digit_value c = of_char c - 48"

definition decimal_value :: "string \<Rightarrow> nat" where
  "decimal_value ds = foldl (\<lambda>n c. 10 * n + digit_value c) 0 ds"

text \<open>
  Leading white space and one sign are skipped, the longest run of digits is converted, what follows
  is ignored. None is the exception: no digits (\<open>invalid_argument\<close>) or a value beyond 64 bits
  (\<open>out_of_range\<close>). A minus sign negates the result in the unsigned type.
\<close>

definition stoull :: "string \<Rightarrow> u64 option" where
  "stoull s =
     (let s = dropWhile isspace s;
          negative = (s \<noteq> [] \<and> hd s = CHR ''-'');
          s = (if s \<noteq> [] \<and> (hd s = CHR ''-'' \<or> hd s = CHR ''+'') then tl s else s);
          digits = takeWhile isdigit s;
          v = decimal_value digits
      in if digits = [] then None
         else if 2 ^ 64 \<le> v then None
         else Some (if negative then - of_nat v else of_nat v))"

abbreviation stoul :: "string \<Rightarrow> u64 option" where
  "stoul \<equiv> stoull"

section \<open>Facts on searching\<close>

lemma find_char_append: "c \<notin> set xs \<Longrightarrow> find_char c (xs @ c # ys) = Some (length xs)"
  by (induction xs) auto

lemma find_char_None_iff: "find_char c s = None \<longleftrightarrow> c \<notin> set s"
  by (induction s) auto

lemma find_char_SomeD:
  "find_char c s = Some i \<Longrightarrow> i < length s \<and> s ! i = c \<and> c \<notin> set (take i s)"
  by (induction s arbitrary: i) (auto split: if_splits)

section \<open>Facts on lines\<close>

lemma getlines_from_line:
  "newline \<notin> set l \<Longrightarrow> getlines_from acc (l @ newline # rest) = (acc @ l) # getlines_from [] rest"
  by (induction l arbitrary: acc) auto

text \<open>A file written line by line is read back line by line.\<close>

definition unlines :: "string list \<Rightarrow> string" where
  "unlines ls = concat (map (\<lambda>l. l @ [newline]) ls)"

lemma getlines_unlines:
  "list_all (\<lambda>l. newline \<notin> set l) ls \<Longrightarrow> getlines (unlines ls) = ls"
  unfolding getlines_def unlines_def
  by (induction ls) (auto simp: getlines_from_line)

lemma getlines_from_no_newline:
  "newline \<notin> set acc \<Longrightarrow> l \<in> set (getlines_from acc cs) \<Longrightarrow> newline \<notin> set l"
  by (induction acc cs rule: getlines_from.induct) (auto split: if_splits)

section \<open>Facts on numbers\<close>

lemma of_char_digit_char: "d < 10 \<Longrightarrow> of_char (digit_char d) = 48 + d"
  by (simp add: digit_char_def)

lemma isdigit_digit_char: "d < 10 \<Longrightarrow> isdigit (digit_char d)"
  by (simp add: isdigit_def of_char_digit_char)

lemma digit_value_digit_char: "d < 10 \<Longrightarrow> digit_value (digit_char d) = d"
  by (simp add: digit_value_def of_char_digit_char)

lemma decimal_not_Nil [simp]: "decimal n \<noteq> []"
  by (subst decimal.simps) simp

lemma decimal_digits: "list_all isdigit (decimal n)"
proof (induction n rule: decimal.induct)
  case (1 n)
  then show ?case by (subst decimal.simps) (auto simp: isdigit_digit_char)
qed

lemma decimal_value_snoc: "decimal_value (ds @ [c]) = 10 * decimal_value ds + digit_value c"
  by (simp add: decimal_value_def)

lemma decimal_value_decimal: "decimal_value (decimal n) = n"
proof (induction n rule: decimal.induct)
  case (1 n)
  show ?case
  proof (cases "10 \<le> n")
    case True
    then have "decimal n = decimal (n div 10) @ [digit_char (n mod 10)]"
      by (subst decimal.simps) simp
    with 1 True show ?thesis by (simp add: decimal_value_snoc digit_value_digit_char)
  next
    case False
    then have "decimal n = [digit_char n]" by (subst decimal.simps) simp
    with False show ?thesis
      using decimal_value_snoc [of "[]"] by (simp add: digit_value_digit_char decimal_value_def)
  qed
qed

lemma isdigit_not_space: "isdigit c \<Longrightarrow> \<not> isspace c"
  by (auto simp: isdigit_def isspace_def)

lemma isdigit_not_sign: "isdigit c \<Longrightarrow> c \<noteq> CHR ''-'' \<and> c \<noteq> CHR ''+''"
  by (auto simp: isdigit_def)

lemma stoull_digits:
  assumes "list_all isdigit ds" and "ds \<noteq> []" and "decimal_value ds < 2 ^ 64"
    and "rest \<noteq> [] \<longrightarrow> \<not> isdigit (hd rest)"
  shows "stoull (ds @ rest) = Some (of_nat (decimal_value ds))"
proof -
  obtain c cs where ds: "ds = c # cs" using assms(2) by (cases ds) auto
  then have c: "isdigit c" using assms(1) by simp
  have t: "takeWhile isdigit (ds @ rest) = ds"
    using assms(1,4) by (cases rest) (auto simp: list_all_iff takeWhile_append)
  have d: "dropWhile isspace (ds @ rest) = ds @ rest"
    using isdigit_not_space [OF c] by (simp add: ds)
  show ?thesis
    using assms(2,3) isdigit_not_sign [OF c] t unfolding stoull_def d Let_def by (simp add: ds)
qed

lemma stoull_minus:
  assumes "n < 2 ^ 64"
  shows "stoull (CHR ''-'' # decimal n) = Some (- of_nat n)"
proof -
  have "takeWhile isdigit (decimal n) = decimal n"
    using decimal_digits [of n] by (simp add: list_all_iff)
  with assms show ?thesis by (simp add: stoull_def Let_def isspace_def decimal_value_decimal
        del: takeWhile_eq_all_conv)
qed

lemma stoull_to_string:
  assumes "LENGTH('a) \<le> 64"
  shows "stoull (to_string (w :: 'a :: len word)) = Some (ucast w)"
proof -
  have "unat w < 2 ^ LENGTH('a)" by simp
  also have "\<dots> \<le> 2 ^ 64" using assms by (rule power_increasing) simp
  finally have "unat w < 2 ^ 64" .
  then show ?thesis
    using stoull_digits [OF decimal_digits decimal_not_Nil, of "unat w" "[]"]
    by (simp add: to_string_def decimal_value_decimal unsigned_of_nat)
qed

section \<open>Trimming printed text\<close>

lemma trim_id:
  assumes "s \<noteq> []" and "\<not> isspace (hd s)" and "\<not> isspace (last s)"
  shows "trim s = s"
proof -
  have "dropWhile isspace s = s" using assms by (cases s) auto
  moreover have "dropWhile isspace (rev s) = rev s"
    using assms by (cases "rev s") (auto simp: hd_rev [symmetric])
  ultimately show ?thesis by (simp add: trim_eq)
qed

lemma dropWhile_all_append: "list_all P ws \<Longrightarrow> dropWhile P (ws @ s) = dropWhile P s"
  by (induction ws) auto

lemma trim_pad:
  assumes "list_all isspace ws" and "list_all isspace ws'"
  shows "trim (ws @ s @ ws') = trim s"
proof (cases "list_all isspace s")
  case True
  then have "dropWhile isspace s = []" "dropWhile isspace (s @ ws') = []"
    using assms by (auto simp: list_all_iff dropWhile_eq_Nil_conv)
  with assms show ?thesis by (simp add: trim_eq dropWhile_all_append del: dropWhile_eq_Nil_conv)
next
  case False
  then have "dropWhile isspace (s @ ws') = dropWhile isspace s @ ws'"
    by (auto simp: list_all_iff dropWhile_append)
  then show ?thesis using assms by (simp add: trim_eq dropWhile_all_append)
qed

lemma trim_to_string [simp]: "trim (to_string w) = to_string w"
  using decimal_digits [of "unat w"] hd_in_set [OF decimal_not_Nil] last_in_set [OF decimal_not_Nil]
  by (intro trim_id) (simp_all add: to_string_def list_all_iff isdigit_not_space)

text \<open>Text in double quotes survives trimming and loses its quotes to \<open>unquote\<close>.\<close>

definition quoted :: "string \<Rightarrow> string" where
  "quoted s = CHR 0x22 # s @ [CHR 0x22]"

lemma not_isspace_quote [simp]: "\<not> isspace (CHR 0x22)"
  by (simp add: isspace_def)

lemma trim_quoted [simp]: "trim (quoted s) = quoted s"
  by (rule trim_id) (simp_all add: quoted_def)

lemma unquote_quoted [simp]: "unquote (quoted s) = s"
  by (simp add: unquote_def quoted_def)

lemma unquote_digits [simp]: "unquote (to_string w) = to_string w"
proof -
  have "isdigit (hd (to_string w))"
    using decimal_digits [of "unat w"] by (cases "decimal (unat w)") (auto simp: to_string_def list_all_iff)
  then have "hd (to_string w) \<noteq> CHR 0x22 \<and> hd (to_string w) \<noteq> CHR 0x27"
    by (auto simp: isdigit_def)
  then show ?thesis by (auto simp: unquote_def)
qed

lemma newline_not_digit: "newline \<notin> set (to_string w)"
  using decimal_digits [of "unat w"] by (auto simp: to_string_def list_all_iff isdigit_def)

end
