(* ===== verification/Channel_Directory.thy ===== *)
theory Channel_Directory
  imports Config_Types Std_String
begin

text \<open>
  What the command languages of both applications rely on when they resolve a channel of the profile.
  \<open>BsdClientApp.cpp\<close> and \<open>BsdServerApp.cpp\<close> each have their own \<open>find_channel\<close> and \<open>default_channel\<close>; both
  keep this contract.
\<close>

definition channels_usable :: "RuntimeProfile \<Rightarrow> bool" where
  "channels_usable profile \<longleftrightarrow> list_all (\<lambda>c. named_channel (chn_type c)) (rp_channels profile)"

lemma find_member: "find P xs = Some x \<Longrightarrow> x \<in> set xs \<and> P x"
  by (auto simp: find_Some_iff)

locale channel_directory =
  fixes lookup :: "RuntimeProfile \<Rightarrow> string \<Rightarrow> ChannelDefinition option"
    and dflt :: "RuntimeProfile \<Rightarrow> ChannelDefinition option"
  assumes by_name: "find (\<lambda>c. chn_name c = token) (rp_channels p) = Some c \<Longrightarrow> lookup p token = Some c"
    and by_number: "find (\<lambda>c. chn_name c = token) (rp_channels p) = None \<Longrightarrow>
      lookup p token = (case stoul token of None \<Rightarrow> None
        | Some v \<Rightarrow> find (\<lambda>c. chn_id c = ucast v) (rp_channels p))"
    and marked_default: "find chn_is_default (rp_channels p) = Some c \<Longrightarrow> dflt p = Some c"
    and first_default: "find chn_is_default (rp_channels p) = None \<Longrightarrow>
      dflt p = (if rp_channels p = [] then None else Some (hd (rp_channels p)))"
begin

lemma lookup_member: "lookup p token = Some c \<Longrightarrow> c \<in> set (rp_channels p)"
  by (cases "find (\<lambda>c. chn_name c = token) (rp_channels p)")
    (auto simp: by_number by_name dest: find_member split: option.splits)

lemma dflt_member: "dflt p = Some c \<Longrightarrow> c \<in> set (rp_channels p)"
  by (cases "find chn_is_default (rp_channels p)")
    (auto simp: first_default marked_default dest: find_member split: if_splits)

lemma dflt_exists: "rp_channels p \<noteq> [] \<Longrightarrow> \<exists>c. dflt p = Some c"
  by (cases "find chn_is_default (rp_channels p)") (auto simp: first_default marked_default)

lemma usable:
  assumes "channels_usable p"
  shows "lookup p token = Some c \<Longrightarrow> named_channel (chn_type c)"
    and "dflt p = Some c \<Longrightarrow> named_channel (chn_type c)"
  using assms by (auto simp: channels_usable_def list_all_iff dest: lookup_member dflt_member)

lemma lookup_id:
  assumes "find (\<lambda>c. chn_name c = to_string i) (rp_channels p) = None"
    and "find (\<lambda>c. chn_id c = i) (rp_channels p) = Some c"
  shows "lookup p (to_string i) = Some c"
proof -
  have "(ucast (ucast i :: u64) :: u32) = i" by (simp add: ucast_down_ucast_id is_down)
  then show ?thesis using assms by (simp add: by_number stoull_to_string)
qed

end

end
