(* ===== verification/Runtime_Logger.thy ===== *)
theory Runtime_Logger
  imports Session_Types Std_String
begin

text \<open>
  Model of \<open>src/RuntimeLogger.cpp\<close>: the text of every line, and the sinks the lines are handed to. The
  applications' models collect the lines they hand to \<open>log_line\<close> in the order they do so. The console, the
  file system and the logging library are parameters: functions on the state \<open>'w\<close> of the world.
\<close>

type_synonym Log = "string list"

definition event_type_name :: "SessionEventType \<Rightarrow> string" where
  "event_type_name type =
     (case type of
        DataReceived \<Rightarrow> ''DataReceived''
      | Connected \<Rightarrow> ''Connected''
      | ConnectionClosed \<Rightarrow> ''ConnectionClosed''
      | ConnectionReset \<Rightarrow> ''ConnectionReset''
      | ErrorEvent \<Rightarrow> ''Error'')"

text \<open>Bytes read as characters and characters written as bytes (\<open>reinterpret_cast\<close>).\<close>

definition text_of_bytes :: "bytes \<Rightarrow> string" where
  "text_of_bytes bs = map (\<lambda>b. char_of (unat b)) bs"

definition bytes_of_text :: "string \<Rightarrow> bytes" where
  "bytes_of_text s = map (\<lambda>c. of_nat (of_char c)) s"

definition format_session_event :: "string \<Rightarrow> SessionEvent \<Rightarrow> string" where
  "format_session_event prefix event =
     (let line = prefix @ '' event='' @ event_type_name (ev_type event);
          line = line @ '' seq='' @ to_string (ev_seq event);
          line = line @ '' channel_id='' @ to_string (ev_channel_id event);
          line = line @ '' payload_size='' @ decimal (length (ev_payload event));
          line = (if ev_error_message event \<noteq> []
                  then line @ '' error='' @ [CHR 0x22] @ ev_error_message event @ [CHR 0x22]
                  else line)
      in if ev_payload event \<noteq> []
         then line @ '' payload='' @ [CHR 0x22] @ text_of_bytes (ev_payload event) @ [CHR 0x22]
         else line)"

definition optional_ms :: "u64 option \<Rightarrow> string" where
  "optional_ms v = (case v of Some ms \<Rightarrow> to_string ms | None \<Rightarrow> ''n/a'')"

definition format_session_stats :: "SessionStats \<Rightarrow> string" where
  "format_session_stats stats =
     '' sent='' @ to_string (st_packets_sent stats) @
     '' recv='' @ to_string (st_packets_received stats) @
     '' tx_bytes='' @ to_string (st_bytes_sent stats) @
     '' rx_bytes='' @ to_string (st_bytes_received stats) @
     '' ctrl_tx='' @ to_string (st_control_packets_sent stats) @
     '' ctrl_rx='' @ to_string (st_control_packets_received stats) @
     '' data_tx='' @ to_string (st_data_packets_sent stats) @
     '' data_rx='' @ to_string (st_data_packets_received stats) @
     '' ping='' @ to_string (st_pings_sent stats) @ ''/'' @ to_string (st_pings_received stats) @
     '' pong='' @ to_string (st_pongs_sent stats) @ ''/'' @ to_string (st_pongs_received stats) @
     '' retx='' @ to_string (st_retransmissions_sent stats) @
     '' rtt_ms='' @ optional_ms (st_latest_rtt_ms stats) @
     '' rtt_avg_ms='' @
       (if st_rtt_sample_count stats \<noteq> 0
        then to_string (st_rtt_sum_ms stats div st_rtt_sample_count stats) else ''n/a'') @
     '' rtt_min_ms='' @ optional_ms (st_min_rtt_ms stats) @
     '' rtt_max_ms='' @ optional_ms (st_max_rtt_ms stats)"

definition format_session_summary :: "string \<Rightarrow> SessionStats \<Rightarrow> string" where
  "format_session_summary prefix stats = prefix @ '' summary'' @ format_session_stats stats"

section \<open>Sinks\<close>

text \<open>
  A \<open>std::function\<close> may be empty (\<open>None\<close>). \<open>create_directories\<close> and the construction of a logger may throw;
  the string is then what the exception says.
\<close>

type_synonym 'w LogSink = "(string \<Rightarrow> 'w \<Rightarrow> 'w) option"

datatype LogException = FilesystemError string | SpdlogException string

record ('w, 'h) log_library =
  out_cout :: "string \<Rightarrow> 'w \<Rightarrow> 'w"
  fs_create_directories :: "string \<Rightarrow> 'w \<Rightarrow> string option \<times> 'w"
  spd_basic_logger :: "string \<Rightarrow> string \<Rightarrow> bool \<Rightarrow> 'w \<Rightarrow> (string + 'h) \<times> 'w"
  spd_set_pattern :: "'h \<Rightarrow> string \<Rightarrow> 'w \<Rightarrow> 'w"
  spd_flush_on_info :: "'h \<Rightarrow> 'w \<Rightarrow> 'w"
  spd_info :: "'h \<Rightarrow> string \<Rightarrow> 'w \<Rightarrow> 'w"

text \<open>\<open>std::filesystem::path::parent_path\<close>: everything before the last component, the root itself kept.\<close>

definition parent_path :: "string \<Rightarrow> string" where
  "parent_path path =
     (let directory = rev (dropWhile (\<lambda>c. c \<noteq> CHR ''/'') (rev path));
          stripped = rev (dropWhile (\<lambda>c. c = CHR ''/'') (rev directory))
      in if stripped = [] then directory else stripped)"

definition log_line :: "'w LogSink \<Rightarrow> string \<Rightarrow> 'w \<Rightarrow> 'w" where
  "log_line logger message w = (case logger of Some f \<Rightarrow> f message w | None \<Rightarrow> w)"

fun log_lines :: "'w LogSink \<Rightarrow> Log \<Rightarrow> 'w \<Rightarrow> 'w" where
  "log_lines logger [] w = w"
| "log_lines logger (line # lines) w = log_lines logger lines (log_line logger line w)"

definition make_console_logger :: "('w, 'h) log_library \<Rightarrow> 'w LogSink" where
  "make_console_logger lib = Some (\<lambda>message. out_cout lib (message @ [newline]))"

definition make_text_logger ::
  "('w, 'h) log_library \<Rightarrow> string \<Rightarrow> string \<Rightarrow> 'w \<Rightarrow> (LogException + 'w LogSink) \<times> 'w"
where
  "make_text_logger lib logger_name log_path w =
     (case fs_create_directories lib (parent_path log_path) w of
        (Some what, w) \<Rightarrow> (Inl (FilesystemError what), w)
      | (None, w) \<Rightarrow>
          (case spd_basic_logger lib logger_name log_path True w of
             (Inl what, w) \<Rightarrow> (Inl (SpdlogException what), w)
           | (Inr logger, w) \<Rightarrow>
               let w = spd_set_pattern lib logger ''%Y-%m-%d %H:%M:%S.%e %v'' w;
                   w = spd_flush_on_info lib logger w
               in (Inr (Some (\<lambda>message. spd_info lib logger message)), w)))"

fun call_sinks :: "'w LogSink list \<Rightarrow> string \<Rightarrow> 'w \<Rightarrow> 'w" where
  "call_sinks [] message w = w"
| "call_sinks (sink # sinks) message w =
     call_sinks sinks message (case sink of Some f \<Rightarrow> f message w | None \<Rightarrow> w)"

definition compose_loggers :: "'w LogSink list \<Rightarrow> 'w LogSink" where
  "compose_loggers sinks = Some (call_sinks sinks)"

section \<open>Text as bytes\<close>

lemma text_of_bytes_of_text [simp]: "text_of_bytes (bytes_of_text s) = s"
proof -
  have "char_of (unat (of_nat (of_char c) :: u8)) = c" for c
  proof -
    have "(of_char c :: nat) < 256" by (rule nat_of_char_less_256)
    then show ?thesis by (simp add: unat_of_nat take_bit_eq_mod)
  qed
  then show ?thesis by (simp add: text_of_bytes_def bytes_of_text_def o_def)
qed

lemma length_bytes_of_text [simp]: "length (bytes_of_text s) = length s"
  by (simp add: bytes_of_text_def)

end
