(* ===== verification/Config_Loader.thy ===== *)
theory Config_Loader
  imports Config_Types Std_String
begin

text \<open>
  Model of \<open>src/Config.cpp\<close>: the loader of the \<open>.env\<close> settings and of the YAML runtime profile. The file
  system is the function from paths to contents (None: the file cannot be opened). A loader that
  returns false is \<open>Inl\<close> of the text it leaves in \<open>error_message\<close> (the callers pass an empty string);
  what it has written to its local copy by then is discarded with the copy. The process-wide
  settings are passed in and returned.
\<close>

type_synonym files = "string \<Rightarrow> string option"
type_synonym 'a result = "string + 'a"

section \<open>Settings from an env file\<close>

definition assign_integer :: "string \<Rightarrow> string \<Rightarrow> ('a :: len word) result" where
  "assign_integer raw_value key =
     (case stoull raw_value of
        Some parsed \<Rightarrow> Inr (ucast parsed)
      | None \<Rightarrow> Inl (''invalid integer for key '' @ key))"

text \<open>Assigning through the reference \<open>target\<close> on success.\<close>

definition store :: "('v \<Rightarrow> 's) \<Rightarrow> 'v result \<Rightarrow> 's result" where
  "store f r = (case r of Inl e \<Rightarrow> Inl e | Inr v \<Rightarrow> Inr (f v))"

definition apply_kv :: "Settings \<Rightarrow> string \<Rightarrow> string \<Rightarrow> Settings result" where
  "apply_kv settings key value =
    (let transport = st_transport settings;
         runtime = st_runtime settings;
         set_transport = (\<lambda>t. settings\<lparr>st_transport := t\<rparr>);
         set_runtime = (\<lambda>r. settings\<lparr>st_runtime := r\<rparr>)
     in
     if key = ''RUDP_TRANSPORT_INITIAL_RTO_MS'' then
       store (\<lambda>v. set_transport (transport\<lparr>initial_rto_ms := v\<rparr>)) (assign_integer value key)
     else if key = ''RUDP_TRANSPORT_MAX_RTO_MS'' then
       store (\<lambda>v. set_transport (transport\<lparr>max_rto_ms := v\<rparr>)) (assign_integer value key)
     else if key = ''RUDP_TRANSPORT_MAX_RETRANSMIT_COUNT'' then
       store (\<lambda>v. set_transport (transport\<lparr>max_retransmit_count := v\<rparr>)) (assign_integer value key)
     else if key = ''RUDP_TRANSPORT_HANDSHAKE_LINGER_MS'' then
       store (\<lambda>v. set_transport (transport\<lparr>handshake_linger_ms := v\<rparr>)) (assign_integer value key)
     else if key = ''RUDP_TRANSPORT_KEEPALIVE_IDLE_MS'' then
       store (\<lambda>v. set_transport (transport\<lparr>keepalive_idle_ms := v\<rparr>)) (assign_integer value key)
     else if key = ''RUDP_TRANSPORT_IDLE_TIMEOUT_MS'' then
       store (\<lambda>v. set_transport (transport\<lparr>idle_timeout_ms := v\<rparr>)) (assign_integer value key)
     else if key = ''RUDP_TRANSPORT_RELIABLE_ACK_DELAY_MS'' then
       store (\<lambda>v. set_transport (transport\<lparr>reliable_ack_delay_ms := v\<rparr>)) (assign_integer value key)
     else if key = ''RUDP_TRANSPORT_FAST_RETX_EVIDENCE_THRESHOLD'' then
       store (\<lambda>v. set_transport (transport\<lparr>fast_retx_evidence_threshold := v\<rparr>)) (assign_integer value key)
     else if key = ''RUDP_TRANSPORT_ENABLE_ACTIVITY_ACK_ONLY'' then
       (case parseBool value of
          None \<Rightarrow> Inl (''invalid boolean for key '' @ key)
        | Some parsed \<Rightarrow> Inr (set_transport (transport\<lparr>enable_activity_ack_only := parsed\<rparr>)))
     else if key = ''RUDP_RUNTIME_SERVER_BIND_ADDRESS'' then
       Inr (set_runtime (runtime\<lparr>rs_server_bind_address := unquote value\<rparr>))
     else if key = ''RUDP_RUNTIME_SERVER_PORT'' then
       store (\<lambda>v. set_runtime (runtime\<lparr>rs_server_port := v\<rparr>)) (assign_integer value key)
     else if key = ''RUDP_RUNTIME_CLIENT_SERVER_ADDRESS'' then
       Inr (set_runtime (runtime\<lparr>rs_client_server_address := unquote value\<rparr>))
     else if key = ''RUDP_RUNTIME_CLIENT_SERVER_PORT'' then
       store (\<lambda>v. set_runtime (runtime\<lparr>rs_client_server_port := v\<rparr>)) (assign_integer value key)
     else if key = ''RUDP_RUNTIME_CLIENT_BIND_ADDRESS'' then
       Inr (set_runtime (runtime\<lparr>rs_client_bind_address := unquote value\<rparr>))
     else if key = ''RUDP_RUNTIME_SOCKET_BUFFER_SIZE'' then
       store (\<lambda>v. set_runtime (runtime\<lparr>rs_socket_buffer_size := v\<rparr>)) (assign_integer value key)
     else if key = ''RUDP_RUNTIME_SERVER_LOOP_SLEEP_US'' then
       store (\<lambda>v. set_runtime (runtime\<lparr>rs_server_loop_sleep_us := v\<rparr>)) (assign_integer value key)
     else if key = ''RUDP_RUNTIME_CLIENT_SELECT_TIMEOUT_US'' then
       store (\<lambda>v. set_runtime (runtime\<lparr>rs_client_select_timeout_us := v\<rparr>)) (assign_integer value key)
     else if key = ''RUDP_RUNTIME_CLIENT_POLL_BUDGET'' then
       store (\<lambda>v. set_runtime (runtime\<lparr>rs_client_poll_budget := v\<rparr>)) (assign_integer value key)
     else if key = ''RUDP_RUNTIME_SERVER_LOG_PATH'' then
       Inr (set_runtime (runtime\<lparr>rs_server_log_path := unquote value\<rparr>))
     else if key = ''RUDP_RUNTIME_CLIENT_LOG_PATH'' then
       Inr (set_runtime (runtime\<lparr>rs_client_log_path := unquote value\<rparr>))
     else Inr settings)"

definition env_line :: "nat \<Rightarrow> string \<Rightarrow> Settings \<Rightarrow> Settings result" where
  "env_line line_number line loaded =
     (let trimmed = trim line in
      if trimmed = [] \<or> hd trimmed = CHR ''#'' then Inr loaded
      else
        case find_char (CHR ''='') trimmed of
          None \<Rightarrow> Inl (''invalid .env line '' @ decimal line_number)
        | Some separator \<Rightarrow>
            let key = trim (take separator trimmed);
                value = trim (drop (separator + 1) trimmed)
            in apply_kv loaded key value)"

fun env_lines :: "nat \<Rightarrow> string list \<Rightarrow> Settings \<Rightarrow> Settings result" where
  "env_lines line_number [] loaded = Inr loaded"
| "env_lines line_number (line # rest) loaded =
     (case env_line (line_number + 1) line loaded of
        Inl e \<Rightarrow> Inl e
      | Inr loaded \<Rightarrow> env_lines (line_number + 1) rest loaded)"

text \<open>The second component is \<open>g_settings\<close> after the call.\<close>

definition load_from_env_file :: "files \<Rightarrow> string \<Rightarrow> Settings \<Rightarrow> unit result \<times> Settings" where
  "load_from_env_file fs path g_settings =
     (case fs path of
        None \<Rightarrow> (Inl (''unable to open '' @ path), g_settings)
      | Some content \<Rightarrow>
          (case env_lines 0 (getlines content) g_settings of
             Inl e \<Rightarrow> (Inl e, g_settings)
           | Inr loaded \<Rightarrow> (Inr (), loaded)))"

section \<open>Runtime profile from YAML\<close>

definition parse_runtime_mode :: "string \<Rightarrow> RuntimeMode option" where
  "parse_runtime_mode value =
     (if value = ''server'' then Some ServerMode
      else if value = ''client'' then Some ClientMode
      else None)"

definition parse_channel_type :: "string \<Rightarrow> ChannelType option" where
  "parse_channel_type value =
     (if value = ''reliable_ordered'' then Some ReliableOrdered
      else if value = ''reliable_unordered'' then Some ReliableUnordered
      else if value = ''unreliable'' then Some Unreliable
      else if value = ''monotonic_state'' then Some MonotonicState
      else None)"

definition default_runtime_profile :: "Settings \<Rightarrow> RuntimeProfile" where
  "default_runtime_profile g_settings =
     (let runtime = st_runtime g_settings in
      \<lparr>rp_mode = ServerMode,
       rp_bind_address = rs_server_bind_address runtime,
       rp_bind_port = rs_server_port runtime,
       rp_remote_address = rs_client_server_address runtime,
       rp_remote_port = rs_client_server_port runtime,
       rp_log_path = rs_server_log_path runtime,
       rp_socket_buffer_size = rs_socket_buffer_size runtime,
       rp_loop_sleep_us = rs_server_loop_sleep_us runtime,
       rp_select_timeout_us = rs_client_select_timeout_us runtime,
       rp_poll_budget = rs_client_poll_budget runtime,
       rp_channels = []\<rparr>)"

fun indentation_of :: "string \<Rightarrow> nat" where
  "indentation_of [] = 0"
| "indentation_of (c # line) = (if c = CHR '' '' then indentation_of line + 1 else 0)"

definition parse_key_value :: "string \<Rightarrow> (string \<times> string) option" where
  "parse_key_value line =
     (case find_char (CHR '':'') line of
        None \<Rightarrow> None
      | Some separator \<Rightarrow>
          Some (trim (take separator line), unquote (trim (drop (separator + 1) line))))"

definition apply_profile_field ::
  "Settings \<Rightarrow> string \<Rightarrow> string \<Rightarrow> string \<Rightarrow> RuntimeProfile \<Rightarrow> RuntimeProfile result"
where
  "apply_profile_field g_settings scope key value profile =
     (if scope = [] then
        (if key = ''mode'' then
           (case parse_runtime_mode value of
              None \<Rightarrow> Inl ''mode must be server or client''
            | Some mode \<Rightarrow>
                Inr (profile\<lparr>rp_mode := mode,
                       rp_log_path := (if mode = ClientMode
                                       then rs_client_log_path (st_runtime g_settings)
                                       else rs_server_log_path (st_runtime g_settings))\<rparr>))
         else Inr profile)
      else if scope = ''runtime'' then
        (if key = ''log_path'' then Inr (profile\<lparr>rp_log_path := value\<rparr>)
         else if key = ''socket_buffer_size'' then
           store (\<lambda>v. profile\<lparr>rp_socket_buffer_size := v\<rparr>)
             (assign_integer value ''runtime.socket_buffer_size'')
         else if key = ''loop_sleep_us'' then
           store (\<lambda>v. profile\<lparr>rp_loop_sleep_us := v\<rparr>)
             (assign_integer value ''runtime.loop_sleep_us'')
         else if key = ''select_timeout_us'' then
           store (\<lambda>v. profile\<lparr>rp_select_timeout_us := v\<rparr>)
             (assign_integer value ''runtime.select_timeout_us'')
         else if key = ''poll_budget'' then
           store (\<lambda>v. profile\<lparr>rp_poll_budget := v\<rparr>)
             (assign_integer value ''runtime.poll_budget'')
         else Inr profile)
      else if scope = ''connection'' then
        (if key = ''bind_address'' then Inr (profile\<lparr>rp_bind_address := value\<rparr>)
         else if key = ''bind_port'' then
           store (\<lambda>v. profile\<lparr>rp_bind_port := v\<rparr>)
             (assign_integer value ''connection.bind_port'')
         else if key = ''remote_address'' then Inr (profile\<lparr>rp_remote_address := value\<rparr>)
         else if key = ''remote_port'' then
           store (\<lambda>v. profile\<lparr>rp_remote_port := v\<rparr>)
             (assign_integer value ''connection.remote_port'')
         else Inr profile)
      else Inr profile)"

definition apply_channel_field ::
  "string \<Rightarrow> string \<Rightarrow> ChannelDefinition \<Rightarrow> ChannelDefinition result"
where
  "apply_channel_field key value channel =
     (if key = ''id'' then
        store (\<lambda>v. channel\<lparr>chn_id := v\<rparr>) (assign_integer value ''channels[].id'')
      else if key = ''name'' then Inr (channel\<lparr>chn_name := value\<rparr>)
      else if key = ''type'' then
        (case parse_channel_type value of
           None \<Rightarrow> Inl (''channel type must be reliable_ordered, reliable_unordered, '' @
                       ''unreliable, or monotonic_state'')
         | Some t \<Rightarrow> Inr (channel\<lparr>chn_type := t\<rparr>))
      else if key = ''default'' then
        (case parseBool value of
           None \<Rightarrow> Inl ''channels[].default must be true or false''
         | Some b \<Rightarrow> Inr (channel\<lparr>chn_is_default := b\<rparr>))
      else Inr channel)"

text \<open>
  The local state of the YAML loop. \<open>current_channel\<close> is null or points to the last channel: it is set
  right after \<open>push_back\<close>, which is the only operation on the vector.
\<close>

record YamlState =
  ys_section :: string
  ys_has_channel :: bool
  ys_profile :: RuntimeProfile

definition current_channel :: "RuntimeProfile \<Rightarrow> ChannelDefinition" where
  "current_channel profile = last (rp_channels profile)"

definition set_current_channel :: "ChannelDefinition \<Rightarrow> RuntimeProfile \<Rightarrow> RuntimeProfile" where
  "set_current_channel channel profile =
     profile\<lparr>rp_channels := butlast (rp_channels profile) @ [channel]\<rparr>"

text \<open>A key-value line handed to \<open>f\<close>; \<open>what\<close> starts the message of a line without a colon.\<close>

definition key_value_line ::
  "string \<Rightarrow> string \<Rightarrow> nat \<Rightarrow> (string \<Rightarrow> string \<Rightarrow> 's result) \<Rightarrow> 's result"
where
  "key_value_line what line line_number f =
     (case parse_key_value line of
        None \<Rightarrow> Inl (''invalid '' @ what @ '' on line '' @ decimal line_number)
      | Some (key, value) \<Rightarrow> f key value)"

definition yaml_line :: "Settings \<Rightarrow> nat \<Rightarrow> string \<Rightarrow> YamlState \<Rightarrow> YamlState result" where
  "yaml_line g_settings line_number line ys =
     (let trimmed = trim line;
          indent = indentation_of line;
          profile = ys_profile ys
      in
      if trimmed = [] \<or> hd trimmed = CHR ''#'' then Inr ys
      else if indent = 0 then
        (let ys = ys\<lparr>ys_has_channel := False\<rparr> in
         if last trimmed = CHR '':'' then
           Inr (ys\<lparr>ys_section := take (length trimmed - 1) trimmed\<rparr>)
         else
           key_value_line ''root entry'' trimmed line_number (\<lambda>key value.
             store (\<lambda>p. ys\<lparr>ys_profile := p\<rparr>)
               (apply_profile_field g_settings [] key value profile)))
      else if ys_section ys = ''channels'' then
        (if indent = 2 \<and> starts_with ''- '' trimmed then
           key_value_line ''channel entry'' (drop 2 trimmed) line_number (\<lambda>key value.
             store (\<lambda>c. ys\<lparr>ys_has_channel := True,
                 ys_profile := profile\<lparr>rp_channels := rp_channels profile @ [c]\<rparr>\<rparr>)
               (apply_channel_field key value default_channel_definition))
         else if indent = 4 \<and> ys_has_channel ys then
           key_value_line ''channel field'' trimmed line_number (\<lambda>key value.
             store (\<lambda>c. ys\<lparr>ys_profile := set_current_channel c profile\<rparr>)
               (apply_channel_field key value (current_channel profile)))
         else Inl (''invalid channels indentation on line '' @ decimal line_number))
      else if indent = 2 \<and> (ys_section ys = ''runtime'' \<or> ys_section ys = ''connection'') then
        key_value_line (ys_section ys @ '' field'') trimmed line_number (\<lambda>key value.
          store (\<lambda>p. ys\<lparr>ys_profile := p\<rparr>)
            (apply_profile_field g_settings (ys_section ys) key value profile))
      else Inl (''unsupported YAML shape on line '' @ decimal line_number))"

fun yaml_lines :: "Settings \<Rightarrow> nat \<Rightarrow> string list \<Rightarrow> YamlState \<Rightarrow> YamlState result" where
  "yaml_lines g_settings line_number [] ys = Inr ys"
| "yaml_lines g_settings line_number (line # rest) ys =
     (case yaml_line g_settings (line_number + 1) line ys of
        Inl e \<Rightarrow> Inl e
      | Inr ys \<Rightarrow> yaml_lines g_settings (line_number + 1) rest ys)"

text \<open>What follows the loop: a default channel, and the remote end by mode.\<close>

definition ensure_default_channel :: "RuntimeProfile \<Rightarrow> RuntimeProfile" where
  "ensure_default_channel profile =
     (case rp_channels profile of
        [] \<Rightarrow> profile\<lparr>rp_channels := [\<lparr>chn_id = 1, chn_name = ''default'', chn_type = Unreliable,
                 chn_is_default = True\<rparr>]\<rparr>
      | first # others \<Rightarrow>
          if list_ex chn_is_default (rp_channels profile) then profile
          else profile\<lparr>rp_channels := first\<lparr>chn_is_default := True\<rparr> # others\<rparr>)"

definition check_remote :: "RuntimeProfile \<Rightarrow> RuntimeProfile result" where
  "check_remote profile =
     (if rp_mode profile = ServerMode then
        Inr (profile\<lparr>rp_remote_address := [], rp_remote_port := 0\<rparr>)
      else if rp_remote_address profile = [] \<or> rp_remote_port profile = 0 then
        Inl (''client profiles must define connection.remote_address and '' @
             ''connection.remote_port'')
      else Inr profile)"

definition apply_profile_yaml :: "Settings \<Rightarrow> string \<Rightarrow> RuntimeProfile \<Rightarrow> RuntimeProfile result" where
  "apply_profile_yaml g_settings input profile =
     (case yaml_lines g_settings 0 (getlines input)
             \<lparr>ys_section = [], ys_has_channel = False, ys_profile = profile\<lparr>rp_channels := []\<rparr>\<rparr> of
        Inl e \<Rightarrow> Inl e
      | Inr ys \<Rightarrow> check_remote (ensure_default_channel (ys_profile ys)))"

text \<open>\<open>Inr\<close> is the profile the caller's variable is replaced with.\<close>

definition load_runtime_profile_from_yaml ::
  "files \<Rightarrow> string \<Rightarrow> Settings \<Rightarrow> RuntimeProfile result"
where
  "load_runtime_profile_from_yaml fs path g_settings =
     (case fs path of
        None \<Rightarrow> Inl (''unable to open '' @ path)
      | Some input \<Rightarrow> apply_profile_yaml g_settings input (default_runtime_profile g_settings))"

end
