(* ===== verification/Config_Spec.thy ===== *)
theory Config_Spec
  imports Config_Loader
begin

text \<open>
  What the configuration loader promises: settings and profiles that are written out are read back as
  they were, whatever the settings before; a profile that loads is fit for the applications. And
  what it does not check: the width of integers.
\<close>

section \<open>Settings written as an env file\<close>

definition print_bool :: "bool \<Rightarrow> string" where
  "print_bool b = (if b then ''true'' else ''false'')"

definition transport_entries :: "TransportSettings \<Rightarrow> (string \<times> string) list" where
  "transport_entries t =
     [(''RUDP_TRANSPORT_INITIAL_RTO_MS'', to_string (initial_rto_ms t)),
      (''RUDP_TRANSPORT_MAX_RTO_MS'', to_string (max_rto_ms t)),
      (''RUDP_TRANSPORT_MAX_RETRANSMIT_COUNT'', to_string (max_retransmit_count t)),
      (''RUDP_TRANSPORT_HANDSHAKE_LINGER_MS'', to_string (handshake_linger_ms t)),
      (''RUDP_TRANSPORT_KEEPALIVE_IDLE_MS'', to_string (keepalive_idle_ms t)),
      (''RUDP_TRANSPORT_IDLE_TIMEOUT_MS'', to_string (idle_timeout_ms t)),
      (''RUDP_TRANSPORT_RELIABLE_ACK_DELAY_MS'', to_string (reliable_ack_delay_ms t)),
      (''RUDP_TRANSPORT_FAST_RETX_EVIDENCE_THRESHOLD'', to_string (fast_retx_evidence_threshold t)),
      (''RUDP_TRANSPORT_ENABLE_ACTIVITY_ACK_ONLY'', print_bool (enable_activity_ack_only t))]"

definition runtime_entries :: "RuntimeSettings \<Rightarrow> (string \<times> string) list" where
  "runtime_entries r =
     [(''RUDP_RUNTIME_SERVER_BIND_ADDRESS'', quoted (rs_server_bind_address r)),
      (''RUDP_RUNTIME_SERVER_PORT'', to_string (rs_server_port r)),
      (''RUDP_RUNTIME_CLIENT_SERVER_ADDRESS'', quoted (rs_client_server_address r)),
      (''RUDP_RUNTIME_CLIENT_SERVER_PORT'', to_string (rs_client_server_port r)),
      (''RUDP_RUNTIME_CLIENT_BIND_ADDRESS'', quoted (rs_client_bind_address r)),
      (''RUDP_RUNTIME_SOCKET_BUFFER_SIZE'', to_string (rs_socket_buffer_size r)),
      (''RUDP_RUNTIME_SERVER_LOOP_SLEEP_US'', to_string (rs_server_loop_sleep_us r)),
      (''RUDP_RUNTIME_CLIENT_SELECT_TIMEOUT_US'', to_string (rs_client_select_timeout_us r)),
      (''RUDP_RUNTIME_CLIENT_POLL_BUDGET'', to_string (rs_client_poll_budget r)),
      (''RUDP_RUNTIME_SERVER_LOG_PATH'', quoted (rs_server_log_path r)),
      (''RUDP_RUNTIME_CLIENT_LOG_PATH'', quoted (rs_client_log_path r))]"

definition env_entry :: "string \<times> string \<Rightarrow> string" where
  "env_entry kv = fst kv @ CHR ''='' # snd kv"

definition print_settings :: "Settings \<Rightarrow> string" where
  "print_settings s =
     unlines (map env_entry (transport_entries (st_transport s) @ runtime_entries (st_runtime s)))"

text \<open>Text values of one line each: the env format has no way to write a line break.\<close>

definition one_line :: "string \<Rightarrow> bool" where
  "one_line s = (newline \<notin> set s)"

definition settings_printable :: "Settings \<Rightarrow> bool" where
  "settings_printable s =
     list_all one_line [rs_server_bind_address (st_runtime s), rs_client_server_address (st_runtime s),
       rs_client_bind_address (st_runtime s), rs_server_log_path (st_runtime s),
       rs_client_log_path (st_runtime s)]"

section \<open>Reading entries\<close>

lemma apply_kv_keys:
  "apply_kv s ''RUDP_TRANSPORT_INITIAL_RTO_MS'' v =
    store (\<lambda>x. s\<lparr>st_transport := (st_transport s)\<lparr>initial_rto_ms := x\<rparr>\<rparr>)
      (assign_integer v ''RUDP_TRANSPORT_INITIAL_RTO_MS'')"
  "apply_kv s ''RUDP_TRANSPORT_MAX_RTO_MS'' v =
    store (\<lambda>x. s\<lparr>st_transport := (st_transport s)\<lparr>max_rto_ms := x\<rparr>\<rparr>)
      (assign_integer v ''RUDP_TRANSPORT_MAX_RTO_MS'')"
  "apply_kv s ''RUDP_TRANSPORT_MAX_RETRANSMIT_COUNT'' v =
    store (\<lambda>x. s\<lparr>st_transport := (st_transport s)\<lparr>max_retransmit_count := x\<rparr>\<rparr>)
      (assign_integer v ''RUDP_TRANSPORT_MAX_RETRANSMIT_COUNT'')"
  "apply_kv s ''RUDP_TRANSPORT_HANDSHAKE_LINGER_MS'' v =
    store (\<lambda>x. s\<lparr>st_transport := (st_transport s)\<lparr>handshake_linger_ms := x\<rparr>\<rparr>)
      (assign_integer v ''RUDP_TRANSPORT_HANDSHAKE_LINGER_MS'')"
  "apply_kv s ''RUDP_TRANSPORT_KEEPALIVE_IDLE_MS'' v =
    store (\<lambda>x. s\<lparr>st_transport := (st_transport s)\<lparr>keepalive_idle_ms := x\<rparr>\<rparr>)
      (assign_integer v ''RUDP_TRANSPORT_KEEPALIVE_IDLE_MS'')"
  "apply_kv s ''RUDP_TRANSPORT_IDLE_TIMEOUT_MS'' v =
    store (\<lambda>x. s\<lparr>st_transport := (st_transport s)\<lparr>idle_timeout_ms := x\<rparr>\<rparr>)
      (assign_integer v ''RUDP_TRANSPORT_IDLE_TIMEOUT_MS'')"
  "apply_kv s ''RUDP_TRANSPORT_RELIABLE_ACK_DELAY_MS'' v =
    store (\<lambda>x. s\<lparr>st_transport := (st_transport s)\<lparr>reliable_ack_delay_ms := x\<rparr>\<rparr>)
      (assign_integer v ''RUDP_TRANSPORT_RELIABLE_ACK_DELAY_MS'')"
  "apply_kv s ''RUDP_TRANSPORT_FAST_RETX_EVIDENCE_THRESHOLD'' v =
    store (\<lambda>x. s\<lparr>st_transport := (st_transport s)\<lparr>fast_retx_evidence_threshold := x\<rparr>\<rparr>)
      (assign_integer v ''RUDP_TRANSPORT_FAST_RETX_EVIDENCE_THRESHOLD'')"
  "apply_kv s ''RUDP_RUNTIME_SERVER_BIND_ADDRESS'' v =
    Inr (s\<lparr>st_runtime := (st_runtime s)\<lparr>rs_server_bind_address := unquote v\<rparr>\<rparr>)"
  "apply_kv s ''RUDP_RUNTIME_SERVER_PORT'' v =
    store (\<lambda>x. s\<lparr>st_runtime := (st_runtime s)\<lparr>rs_server_port := x\<rparr>\<rparr>)
      (assign_integer v ''RUDP_RUNTIME_SERVER_PORT'')"
  "apply_kv s ''RUDP_RUNTIME_CLIENT_SERVER_ADDRESS'' v =
    Inr (s\<lparr>st_runtime := (st_runtime s)\<lparr>rs_client_server_address := unquote v\<rparr>\<rparr>)"
  "apply_kv s ''RUDP_RUNTIME_CLIENT_SERVER_PORT'' v =
    store (\<lambda>x. s\<lparr>st_runtime := (st_runtime s)\<lparr>rs_client_server_port := x\<rparr>\<rparr>)
      (assign_integer v ''RUDP_RUNTIME_CLIENT_SERVER_PORT'')"
  "apply_kv s ''RUDP_RUNTIME_CLIENT_BIND_ADDRESS'' v =
    Inr (s\<lparr>st_runtime := (st_runtime s)\<lparr>rs_client_bind_address := unquote v\<rparr>\<rparr>)"
  "apply_kv s ''RUDP_RUNTIME_SOCKET_BUFFER_SIZE'' v =
    store (\<lambda>x. s\<lparr>st_runtime := (st_runtime s)\<lparr>rs_socket_buffer_size := x\<rparr>\<rparr>)
      (assign_integer v ''RUDP_RUNTIME_SOCKET_BUFFER_SIZE'')"
  "apply_kv s ''RUDP_RUNTIME_SERVER_LOOP_SLEEP_US'' v =
    store (\<lambda>x. s\<lparr>st_runtime := (st_runtime s)\<lparr>rs_server_loop_sleep_us := x\<rparr>\<rparr>)
      (assign_integer v ''RUDP_RUNTIME_SERVER_LOOP_SLEEP_US'')"
  "apply_kv s ''RUDP_RUNTIME_CLIENT_SELECT_TIMEOUT_US'' v =
    store (\<lambda>x. s\<lparr>st_runtime := (st_runtime s)\<lparr>rs_client_select_timeout_us := x\<rparr>\<rparr>)
      (assign_integer v ''RUDP_RUNTIME_CLIENT_SELECT_TIMEOUT_US'')"
  "apply_kv s ''RUDP_RUNTIME_CLIENT_POLL_BUDGET'' v =
    store (\<lambda>x. s\<lparr>st_runtime := (st_runtime s)\<lparr>rs_client_poll_budget := x\<rparr>\<rparr>)
      (assign_integer v ''RUDP_RUNTIME_CLIENT_POLL_BUDGET'')"
  "apply_kv s ''RUDP_RUNTIME_SERVER_LOG_PATH'' v =
    Inr (s\<lparr>st_runtime := (st_runtime s)\<lparr>rs_server_log_path := unquote v\<rparr>\<rparr>)"
  "apply_kv s ''RUDP_RUNTIME_CLIENT_LOG_PATH'' v =
    Inr (s\<lparr>st_runtime := (st_runtime s)\<lparr>rs_client_log_path := unquote v\<rparr>\<rparr>)"
  "apply_kv s ''RUDP_TRANSPORT_ENABLE_ACTIVITY_ACK_ONLY'' v =
    (case parseBool v of None \<Rightarrow> Inl (''invalid boolean for key '' @ ''RUDP_TRANSPORT_ENABLE_ACTIVITY_ACK_ONLY'')
     | Some b \<Rightarrow> Inr (s\<lparr>st_transport := (st_transport s)\<lparr>enable_activity_ack_only := b\<rparr>\<rparr>))"
  by (simp_all add: apply_kv_def cong: option.case_cong)

lemma assign_integer_to_string:
  "LENGTH('a) \<le> 64 \<Longrightarrow> assign_integer (to_string (w :: 'a :: len word)) key = Inr w"
  by (simp add: assign_integer_def stoull_to_string ucast_down_ucast_id is_down)

lemma store_Inr [simp]: "store f (Inr v) = Inr (f v)" "store f (Inl e) = Inl e"
  by (simp_all add: store_def)

lemma parseBool_print [simp]: "parseBool (print_bool b) = Some b"
  by (simp add: parseBool_def print_bool_def)

text \<open>An entry whose key and value are free of outer white space, the key without an equals sign.\<close>

definition plain :: "string \<Rightarrow> bool" where
  "plain s = (s \<noteq> [] \<and> \<not> isspace (hd s) \<and> \<not> isspace (last s))"

lemma env_line_entry:
  assumes "plain k" and "plain v" and "hd k \<noteq> CHR ''#''" and "CHR ''='' \<notin> set k"
  shows "env_line n (env_entry (k, v)) s = apply_kv s k v"
proof -
  have t: "trim k = k" "trim v = v" "trim (k @ CHR ''='' # v) = k @ CHR ''='' # v"
    using assms by (auto simp: plain_def intro: trim_id)
  show ?thesis
    using assms t by (auto simp: env_line_def env_entry_def plain_def find_char_append)
qed

fun apply_kvs :: "(string \<times> string) list \<Rightarrow> Settings \<Rightarrow> Settings result" where
  "apply_kvs [] s = Inr s"
| "apply_kvs ((k, v) # kvs) s = (case apply_kv s k v of Inl e \<Rightarrow> Inl e | Inr s \<Rightarrow> apply_kvs kvs s)"

lemma env_lines_entries:
  assumes "list_all (\<lambda>(k, v). plain k \<and> plain v \<and> hd k \<noteq> CHR ''#'' \<and> CHR ''='' \<notin> set k) kvs"
  shows "env_lines n (map env_entry kvs) s = apply_kvs kvs s"
  using assms
proof (induction kvs arbitrary: n s)
  case (Cons kv kvs)
  then show ?case by (cases kv) (auto simp: env_line_entry split: sum.splits)
qed simp

lemma plain_values [simp]:
  "plain (to_string w)" "plain (quoted s)" "plain (print_bool b)"
proof -
  have d: "list_all isdigit (decimal n)" for n by (rule decimal_digits)
  show "plain (to_string w)"
    using d [of "unat w"] hd_in_set [OF decimal_not_Nil] last_in_set [OF decimal_not_Nil]
    by (simp add: plain_def to_string_def list_all_iff isdigit_not_space)
  show "plain (quoted s)" by (simp add: plain_def quoted_def)
  show "plain (print_bool b)" by (simp add: plain_def print_bool_def isspace_def)
qed

lemma transport_entries_ok:
  "list_all (\<lambda>(k, v). plain k \<and> plain v \<and> hd k \<noteq> CHR ''#'' \<and> CHR ''='' \<notin> set k) (transport_entries t)"
  by (simp add: transport_entries_def) (simp add: plain_def isspace_def)

lemma runtime_entries_ok:
  "list_all (\<lambda>(k, v). plain k \<and> plain v \<and> hd k \<noteq> CHR ''#'' \<and> CHR ''='' \<notin> set k) (runtime_entries r)"
  by (simp add: runtime_entries_def) (simp add: plain_def isspace_def)

lemma apply_kvs_append:
  "apply_kvs (xs @ ys) s = (case apply_kvs xs s of Inl e \<Rightarrow> Inl e | Inr s \<Rightarrow> apply_kvs ys s)"
  by (induction xs s rule: apply_kvs.induct) (auto split: sum.splits)

lemma apply_transport_entries: "apply_kvs (transport_entries t) s = Inr (s\<lparr>st_transport := t\<rparr>)"
  by (simp add: transport_entries_def apply_kv_keys assign_integer_to_string)

lemma apply_runtime_entries: "apply_kvs (runtime_entries r) s = Inr (s\<lparr>st_runtime := r\<rparr>)"
  by (simp add: runtime_entries_def apply_kv_keys assign_integer_to_string)

lemma one_line_values [simp]:
  "newline \<notin> set (to_string w)" "newline \<notin> set (quoted s) \<longleftrightarrow> one_line s" "newline \<notin> set (print_bool b)"
  by (simp_all add: newline_not_digit quoted_def one_line_def print_bool_def)

lemma print_settings_lines:
  assumes "settings_printable s"
  shows "getlines (print_settings s) =
    map env_entry (transport_entries (st_transport s) @ runtime_entries (st_runtime s))"
proof -
  have "list_all (\<lambda>kv. newline \<notin> set (env_entry kv)) (transport_entries (st_transport s))"
    by (simp add: transport_entries_def env_entry_def)
  moreover have "list_all (\<lambda>kv. newline \<notin> set (env_entry kv)) (runtime_entries (st_runtime s))"
    using assms by (simp add: runtime_entries_def env_entry_def settings_printable_def)
  ultimately show ?thesis
    unfolding print_settings_def by (intro getlines_unlines) (auto simp: list_all_iff)
qed

text \<open>
  C19. Settings round trip: an env file that writes out every setting is loaded without error and gives
  exactly those settings, whatever the settings before the call.
\<close>

theorem settings_roundtrip:
  assumes "fs path = Some (print_settings s)" and "settings_printable s"
  shows "load_from_env_file fs path g_settings = (Inr (), s)"
proof -
  have "env_lines 0 (getlines (print_settings s)) g_settings = Inr s"
    unfolding print_settings_lines [OF assms(2)]
    using transport_entries_ok [of "st_transport s"] runtime_entries_ok [of "st_runtime s"]
    by (subst env_lines_entries)
      (simp_all add: apply_kvs_append apply_transport_entries apply_runtime_entries)
  then show ?thesis using assms(1) by (simp add: load_from_env_file_def)
qed

theorem settings_roundtrip_witness:
  "load_from_env_file (\<lambda>_. Some (print_settings default_settings)) ''.env''
     (default_settings\<lparr>st_transport := default_transport\<lparr>initial_rto_ms := 1\<rparr>\<rparr>) =
   (Inr (), default_settings)"
  by (rule settings_roundtrip)
    (simp_all add: settings_printable_def default_settings_def default_runtime_settings_def one_line_def)

text \<open>
  Integers are not checked against the width of their setting: any number below 2 to the 64 is
  accepted for a 16-bit port and silently reduced modulo 65536, and so is a negative one.
\<close>

lemma port_silently_truncated:
  assumes "n < 2 ^ 64"
  shows "apply_kv s ''RUDP_RUNTIME_SERVER_PORT'' (decimal n) =
      Inr (s\<lparr>st_runtime := (st_runtime s)\<lparr>rs_server_port := of_nat (n mod 65536)\<rparr>\<rparr>) \<and>
    apply_kv s ''RUDP_RUNTIME_SERVER_PORT'' (CHR ''-'' # decimal n) =
      Inr (s\<lparr>st_runtime := (st_runtime s)\<lparr>rs_server_port := - of_nat (n mod 65536)\<rparr>\<rparr>)"
proof -
  have c: "(ucast (of_nat n :: u64) :: u16) = of_nat (n mod 65536)"
    by (simp add: unsigned_of_nat word_of_nat_eq_iff take_bit_eq_mod mod_mod_cancel)
  have "take_bit 16 (- take_bit 64 x) = take_bit 16 (- x)" for x :: int
    using take_bit_minus [of 16 "take_bit 64 x"] take_bit_minus [of 16 x] by simp
  then have m: "(ucast (- x :: u64) :: u16) = - ucast x" for x
    by transfer simp
  show ?thesis
    using assms stoull_digits [OF decimal_digits decimal_not_Nil, of n "[]"] stoull_minus [OF assms]
    by (simp add: apply_kv_keys assign_integer_def decimal_value_decimal c m)
qed

section \<open>A profile that loads\<close>

text \<open>
  What the applications rely on: there is a channel, one of them is the default, every channel has a
  type the codec accepts; a server has no remote end and a client has one.
\<close>

definition profile_ok :: "RuntimeProfile \<Rightarrow> bool" where
  "profile_ok p \<longleftrightarrow>
     rp_channels p \<noteq> [] \<and> list_ex chn_is_default (rp_channels p) \<and>
     list_all (\<lambda>c. named_channel (chn_type c)) (rp_channels p) \<and>
     (if rp_mode p = ServerMode then rp_remote_address p = [] \<and> rp_remote_port p = 0
      else rp_remote_address p \<noteq> [] \<and> rp_remote_port p \<noteq> 0)"

definition channels_named :: "RuntimeProfile \<Rightarrow> bool" where
  "channels_named p \<longleftrightarrow> list_all (\<lambda>c. named_channel (chn_type c)) (rp_channels p)"

lemma store_InrD: "store f r = Inr y \<Longrightarrow> \<exists>v. r = Inr v \<and> y = f v"
  by (auto simp: store_def split: sum.splits)

lemma apply_profile_field_channels:
  "apply_profile_field g scope key value p = Inr p' \<Longrightarrow> rp_channels p' = rp_channels p"
  by (auto simp: apply_profile_field_def dest!: store_InrD split: if_splits option.splits)

lemma parse_channel_type_named: "parse_channel_type value = Some t \<Longrightarrow> named_channel t"
  by (auto simp: parse_channel_type_def named_channel_def split: if_splits)

lemma apply_channel_field_named:
  "apply_channel_field key value c = Inr c' \<Longrightarrow> named_channel (chn_type c) \<Longrightarrow> named_channel (chn_type c')"
  by (auto simp: apply_channel_field_def parse_channel_type_named
      dest!: store_InrD split: if_splits option.splits)

lemma key_value_line_InrD:
  "key_value_line what line n f = Inr y \<Longrightarrow> \<exists>key value. f key value = Inr y"
  by (auto simp: key_value_line_def split: option.splits)

lemma current_channel_named:
  "channels_named p \<Longrightarrow> rp_channels p \<noteq> [] \<Longrightarrow> named_channel (chn_type (current_channel p))"
  by (auto simp: channels_named_def current_channel_def list_all_iff)

definition yaml_inv :: "YamlState \<Rightarrow> bool" where
  "yaml_inv ys \<longleftrightarrow> channels_named (ys_profile ys) \<and> (ys_has_channel ys \<longrightarrow> rp_channels (ys_profile ys) \<noteq> [])"

lemma named_default: "named_channel (chn_type default_channel_definition)"
  by (simp add: default_channel_definition_def named_channel_def)

lemma named_pushed:
  "channels_named p \<Longrightarrow> apply_channel_field key value default_channel_definition = Inr c \<Longrightarrow>
   channels_named (p\<lparr>rp_channels := rp_channels p @ [c]\<rparr>)"
  using apply_channel_field_named named_default by (auto simp: channels_named_def)

lemma named_updated:
  "channels_named p \<Longrightarrow> rp_channels p \<noteq> [] \<Longrightarrow> apply_channel_field key value (current_channel p) = Inr c \<Longrightarrow>
   channels_named (set_current_channel c p)"
  using apply_channel_field_named current_channel_named
  by (fastforce simp: channels_named_def set_current_channel_def list_all_iff dest: in_set_butlastD)

lemma named_field:
  "channels_named p \<Longrightarrow> apply_profile_field g scope key value p = Inr p' \<Longrightarrow> channels_named p'"
  by (simp add: channels_named_def apply_profile_field_channels)

lemma set_current_channel_not_Nil [simp]: "rp_channels (set_current_channel c p) \<noteq> []"
  by (simp add: set_current_channel_def)

lemma yaml_line_inv:
  assumes "yaml_inv ys" and "yaml_line g n line ys = Inr ys'"
  shows "yaml_inv ys'"
  using assms unfolding yaml_line_def Let_def yaml_inv_def
  by (auto split: if_splits dest!: key_value_line_InrD store_InrD
      simp: apply_profile_field_channels
      intro: named_pushed named_updated named_field)

lemma yaml_lines_inv:
  "yaml_inv ys \<Longrightarrow> yaml_lines g n ls ys = Inr ys' \<Longrightarrow> yaml_inv ys'"
  by (induction g n ls ys rule: yaml_lines.induct) (auto split: sum.splits dest: yaml_line_inv)

lemma ensure_default_channel_ok:
  assumes "channels_named p"
  shows "rp_channels (ensure_default_channel p) \<noteq> []"
    "list_ex chn_is_default (rp_channels (ensure_default_channel p))"
    "channels_named (ensure_default_channel p)"
  using assms
  by (auto simp: ensure_default_channel_def channels_named_def named_channel_def split: list.splits)

lemma loaded_profile_fit:
  assumes "load_runtime_profile_from_yaml fs path g_settings = Inr p"
  shows "profile_ok p"
proof -
  obtain n ls ys ys' where ys: "yaml_lines g_settings n ls ys = Inr ys'"
    and init: "rp_channels (ys_profile ys) = []" "\<not> ys_has_channel ys"
    and p: "check_remote (ensure_default_channel (ys_profile ys')) = Inr p"
    using assms by (fastforce simp: load_runtime_profile_from_yaml_def apply_profile_yaml_def
        split: option.splits sum.splits)
  have "yaml_inv ys" using init by (simp add: yaml_inv_def channels_named_def)
  then have "channels_named (ys_profile ys')"
    using yaml_lines_inv [OF _ ys] by (simp add: yaml_inv_def)
  note d = ensure_default_channel_ok [OF this]
  show ?thesis
    using p d by (auto simp: check_remote_def channels_named_def profile_ok_def split: if_splits)
qed

text \<open>
  C21. A runtime profile that loads is fit for use: it has a channel and a default one, every channel
  has one of the four types the codec accepts, a server profile has no remote end and a client
  profile has a remote address and a non-zero port.
\<close>

theorem loaded_profile_ok:
  assumes "load_runtime_profile_from_yaml fs path g_settings = Inr p"
  shows "rp_channels p \<noteq> [] \<and> list_ex chn_is_default (rp_channels p) \<and>
    list_all (\<lambda>c. named_channel (chn_type c)) (rp_channels p) \<and>
    (if rp_mode p = ServerMode then rp_remote_address p = [] \<and> rp_remote_port p = 0
     else rp_remote_address p \<noteq> [] \<and> rp_remote_port p \<noteq> 0)"
  using loaded_profile_fit [OF assms] by (simp add: profile_ok_def)

theorem loaded_profile_ok_witness:
  "\<exists>p. load_runtime_profile_from_yaml (\<lambda>_. Some ''mode: server'') ''server.yaml'' default_settings = Inr p \<and>
     rp_remote_port p = 0"
proof -
  have "\<exists>p. load_runtime_profile_from_yaml (\<lambda>_. Some ''mode: server'') ''server.yaml'' default_settings = Inr p
      \<and> rp_mode p = ServerMode"
    by (simp add: load_runtime_profile_from_yaml_def apply_profile_yaml_def getlines_def yaml_line_def
        trim_eq isspace_def key_value_line_def parse_key_value_def apply_profile_field_def
        parse_runtime_mode_def unquote_def default_runtime_profile_def ensure_default_channel_def
        check_remote_def)
  then show ?thesis using loaded_profile_ok by (metis (no_types, lifting))
qed

section \<open>A profile written as YAML\<close>

definition yaml_entry :: "nat \<Rightarrow> string \<Rightarrow> string \<Rightarrow> string \<Rightarrow> string" where
  "yaml_entry indent mark key value = replicate indent (CHR '' '') @ mark @ key @ '': '' @ value"

definition mode_name :: "RuntimeMode \<Rightarrow> string" where
  "mode_name m = (case m of ServerMode \<Rightarrow> ''server'' | ClientMode \<Rightarrow> ''client'')"

definition channel_lines :: "ChannelDefinition \<Rightarrow> string list" where
  "channel_lines c =
     [yaml_entry 2 ''- '' ''id'' (to_string (chn_id c)),
      yaml_entry 4 [] ''name'' (quoted (chn_name c)),
      yaml_entry 4 [] ''type'' (channelTypeName (chn_type c)),
      yaml_entry 4 [] ''default'' (print_bool (chn_is_default c))]"

definition runtime_lines :: "RuntimeProfile \<Rightarrow> string list" where
  "runtime_lines p =
     [yaml_entry 2 [] ''log_path'' (quoted (rp_log_path p)),
      yaml_entry 2 [] ''socket_buffer_size'' (to_string (rp_socket_buffer_size p)),
      yaml_entry 2 [] ''loop_sleep_us'' (to_string (rp_loop_sleep_us p)),
      yaml_entry 2 [] ''select_timeout_us'' (to_string (rp_select_timeout_us p)),
      yaml_entry 2 [] ''poll_budget'' (to_string (rp_poll_budget p))]"

definition connection_lines :: "RuntimeProfile \<Rightarrow> string list" where
  "connection_lines p =
     [yaml_entry 2 [] ''bind_address'' (quoted (rp_bind_address p)),
      yaml_entry 2 [] ''bind_port'' (to_string (rp_bind_port p)),
      yaml_entry 2 [] ''remote_address'' (quoted (rp_remote_address p)),
      yaml_entry 2 [] ''remote_port'' (to_string (rp_remote_port p))]"

definition print_profile :: "RuntimeProfile \<Rightarrow> string" where
  "print_profile p =
     unlines ([yaml_entry 0 [] ''mode'' (mode_name (rp_mode p)), ''runtime:''] @ runtime_lines p @
       [''connection:''] @ connection_lines p @ [''channels:''] @
       concat (map channel_lines (rp_channels p)))"

definition profile_printable :: "RuntimeProfile \<Rightarrow> bool" where
  "profile_printable p \<longleftrightarrow>
     list_all one_line ([rp_log_path p, rp_bind_address p, rp_remote_address p] @
       map chn_name (rp_channels p))"

lemma yaml_lines_append:
  "yaml_lines g n (xs @ ys) s =
     (case yaml_lines g n xs s of Inl e \<Rightarrow> Inl e | Inr s \<Rightarrow> yaml_lines g (n + length xs) ys s)"
  by (induction g n xs s rule: yaml_lines.induct) (auto split: sum.splits)

lemma trim_indented:
  assumes "plain s"
  shows "trim (replicate i (CHR '' '') @ s) = s"
proof -
  have "list_all isspace (replicate i (CHR '' ''))" by (simp add: list_all_iff isspace_def)
  then show ?thesis
    using trim_pad [of "replicate i (CHR '' '')" "[]" s] trim_id [of s] assms by (simp add: plain_def)
qed

lemma indentation_indented:
  "s \<noteq> [] \<Longrightarrow> hd s \<noteq> CHR '' '' \<Longrightarrow> indentation_of (replicate i (CHR '' '') @ s) = i"
  by (induction i) (cases s, auto)

lemma parse_key_value_entry:
  assumes "plain k" and "plain v" and "CHR '':'' \<notin> set k"
  shows "parse_key_value (k @ '': '' @ v) = Some (k, unquote v)"
proof -
  have v: "trim (CHR '' '' # v) = v" using trim_indented [OF assms(2), of 1] by simp
  have k: "trim k = k" using assms(1) by (simp add: plain_def trim_id)
  show ?thesis using assms(3) by (simp add: parse_key_value_def find_char_append v k)
qed

text \<open>What a written line does: the entry's own text, its indentation, and its key and value.\<close>

definition yaml_key :: "string \<Rightarrow> bool" where
  "yaml_key k \<longleftrightarrow> plain k \<and> hd k \<notin> {CHR '' '', CHR ''#'', CHR ''-''} \<and> CHR '':'' \<notin> set k"

lemma yaml_entry_parts:
  assumes "yaml_key k" and "plain v" and "last v \<noteq> CHR '':''"
  shows "trim (yaml_entry i [] k v) = k @ '': '' @ v" "indentation_of (yaml_entry i [] k v) = i"
    "parse_key_value (k @ '': '' @ v) = Some (k, unquote v)"
    "last (k @ '': '' @ v) \<noteq> CHR '':''" "hd (k @ '': '' @ v) \<notin> {CHR ''#'', CHR ''-''}" "k @ '': '' @ v \<noteq> []"
    "trim (yaml_entry i ''- '' k v) = ''- '' @ k @ '': '' @ v"
    "indentation_of (yaml_entry i ''- '' k v) = i"
proof -
  have ne: "k \<noteq> []" "v \<noteq> []" using assms(1,2) by (auto simp: yaml_key_def plain_def)
  have p: "plain (k @ '': '' @ v)" "plain (''- '' @ k @ '': '' @ v)"
    using assms(1,2) ne by (auto simp: yaml_key_def plain_def isspace_def)
  show "trim (yaml_entry i [] k v) = k @ '': '' @ v" "trim (yaml_entry i ''- '' k v) = ''- '' @ k @ '': '' @ v"
    using trim_indented [OF p(1), of i] trim_indented [OF p(2), of i] by (simp_all add: yaml_entry_def)
  show "parse_key_value (k @ '': '' @ v) = Some (k, unquote v)"
    using assms by (intro parse_key_value_entry) (auto simp: yaml_key_def)
  show "indentation_of (yaml_entry i [] k v) = i" "indentation_of (yaml_entry i ''- '' k v) = i"
    "last (k @ '': '' @ v) \<noteq> CHR '':''" "hd (k @ '': '' @ v) \<notin> {CHR ''#'', CHR ''-''}" "k @ '': '' @ v \<noteq> []"
    using assms ne by (auto simp: yaml_key_def yaml_entry_def indentation_indented)
qed

lemma not_starts_with: "s \<noteq> [] \<Longrightarrow> hd s \<noteq> CHR ''-'' \<Longrightarrow> \<not> starts_with ''- '' s"
  by (cases s) (auto simp: starts_with_def)

lemma yaml_root_entry:
  assumes "yaml_key k" and "plain v" and "last v \<noteq> CHR '':''"
  shows "yaml_line g n (yaml_entry 0 [] k v) ys =
    store (\<lambda>p. ys\<lparr>ys_has_channel := False, ys_profile := p\<rparr>)
      (apply_profile_field g [] k (unquote v) (ys_profile ys))"
  using yaml_entry_parts [OF assms]
  by (simp add: yaml_line_def key_value_line_def Let_def del: append_Cons append_Nil)

lemma yaml_field_entry:
  assumes "yaml_key k" and "plain v" and "last v \<noteq> CHR '':''"
    and "ys_section ys = ''runtime'' \<or> ys_section ys = ''connection''"
  shows "yaml_line g n (yaml_entry 2 [] k v) ys =
    store (\<lambda>p. ys\<lparr>ys_profile := p\<rparr>)
      (apply_profile_field g (ys_section ys) k (unquote v) (ys_profile ys))"
  using yaml_entry_parts [OF assms(1-3)] assms(4)
  by (auto simp: yaml_line_def key_value_line_def Let_def simp del: append_Cons append_Nil)

lemma yaml_channel_entry:
  assumes "yaml_key k" and "plain v" and "last v \<noteq> CHR '':''" and "ys_section ys = ''channels''"
  shows "yaml_line g n (yaml_entry 2 ''- '' k v) ys =
    store (\<lambda>c. ys\<lparr>ys_has_channel := True,
        ys_profile := (ys_profile ys)\<lparr>rp_channels := rp_channels (ys_profile ys) @ [c]\<rparr>\<rparr>)
      (apply_channel_field k (unquote v) default_channel_definition)"
  using yaml_entry_parts [OF assms(1-3)] assms(4)
  by (simp add: yaml_line_def key_value_line_def Let_def starts_with_def)

lemma yaml_channel_field:
  assumes "yaml_key k" and "plain v" and "last v \<noteq> CHR '':''" and "ys_section ys = ''channels''"
    and "ys_has_channel ys"
  shows "yaml_line g n (yaml_entry 4 [] k v) ys =
    store (\<lambda>c. ys\<lparr>ys_profile := set_current_channel c (ys_profile ys)\<rparr>)
      (apply_channel_field k (unquote v) (current_channel (ys_profile ys)))"
  using yaml_entry_parts [OF assms(1-3)] assms(4,5)
  by (simp add: yaml_line_def key_value_line_def Let_def del: append_Cons append_Nil)

lemma yaml_section_line:
  assumes "yaml_key k"
  shows "yaml_line g n (k @ '':'') ys = Inr (ys\<lparr>ys_has_channel := False, ys_section := k\<rparr>)"
proof -
  have k: "k \<noteq> []" "hd k \<noteq> CHR '' ''" "hd k \<noteq> CHR ''#''" "plain (k @ '':'')"
    using assms by (auto simp: yaml_key_def plain_def isspace_def)
  then have "trim (k @ '':'') = k @ '':''" "indentation_of (k @ '':'') = 0"
    using trim_indented [of "k @ '':''" 0] indentation_indented [of "k @ '':''" 0] by simp_all
  then show ?thesis using k by (simp add: yaml_line_def)
qed

lemma yaml_values:
  "last (to_string w) \<noteq> CHR '':''" "last (quoted s) \<noteq> CHR '':''" "last (print_bool b) \<noteq> CHR '':''"
  "plain (channelTypeName ty)" "last (channelTypeName ty) \<noteq> CHR '':''"
  "plain (mode_name m)" "last (mode_name m) \<noteq> CHR '':''"
  "unquote (print_bool b) = print_bool b" "unquote (channelTypeName ty) = channelTypeName ty"
  "unquote (mode_name m) = mode_name m"
proof -
  have "isdigit (last (to_string w))"
    using decimal_digits [of "unat w"] last_in_set [OF decimal_not_Nil]
    by (simp add: to_string_def list_all_iff)
  then show "last (to_string w) \<noteq> CHR '':''" by (auto simp: isdigit_def)
qed (simp_all add: quoted_def print_bool_def channelTypeName_def plain_def isspace_def unquote_def
  mode_name_def split: RuntimeMode.splits)

lemma yaml_runtime_lines:
  assumes "ys_section ys = ''runtime''"
  shows "yaml_lines g n (runtime_lines p) ys =
    Inr (ys\<lparr>ys_profile := (ys_profile ys)\<lparr>rp_log_path := rp_log_path p,
      rp_socket_buffer_size := rp_socket_buffer_size p, rp_loop_sleep_us := rp_loop_sleep_us p,
      rp_select_timeout_us := rp_select_timeout_us p, rp_poll_budget := rp_poll_budget p\<rparr>\<rparr>)"
  using assms
  by (simp add: runtime_lines_def yaml_field_entry yaml_key_def plain_def [of "_ # _"] isspace_def yaml_values
      apply_profile_field_def assign_integer_to_string)

lemma yaml_connection_lines:
  assumes "ys_section ys = ''connection''"
  shows "yaml_lines g n (connection_lines p) ys =
    Inr (ys\<lparr>ys_profile := (ys_profile ys)\<lparr>rp_bind_address := rp_bind_address p,
      rp_bind_port := rp_bind_port p, rp_remote_address := rp_remote_address p,
      rp_remote_port := rp_remote_port p\<rparr>\<rparr>)"
  using assms
  by (simp add: connection_lines_def yaml_field_entry yaml_key_def plain_def [of "_ # _"] isspace_def yaml_values
      apply_profile_field_def assign_integer_to_string)

lemma parse_channel_type_name: "named_channel ty \<Longrightarrow> parse_channel_type (channelTypeName ty) = Some ty"
proof (cases ty)
  case (ChannelType b)
  assume "named_channel ty"
  then have "unat b \<le> 3" using ChannelType by (simp add: named_channel_def word_le_nat_alt)
  then have "unat b = 0 \<or> unat b = 1 \<or> unat b = 2 \<or> unat b = 3" by linarith
  then have "b = 0 \<or> b = 1 \<or> b = 2 \<or> b = 3" by (simp add: word_unat_eq_iff)
  then show ?thesis by (auto simp: ChannelType parse_channel_type_def channelTypeName_def)
qed

lemma yaml_channel_lines:
  assumes "ys_section ys = ''channels''" and "named_channel (chn_type c)"
  shows "yaml_lines g n (channel_lines c) ys =
    Inr (ys\<lparr>ys_has_channel := True,
      ys_profile := (ys_profile ys)\<lparr>rp_channels := rp_channels (ys_profile ys) @ [c]\<rparr>\<rparr>)"
  using assms
  by (simp add: channel_lines_def yaml_channel_entry yaml_channel_field yaml_key_def plain_def [of "_ # _"]
      isspace_def yaml_values apply_channel_field_def assign_integer_to_string current_channel_def
      set_current_channel_def default_channel_definition_def parse_channel_type_name)

lemma yaml_all_channels:
  assumes "ys_section ys = ''channels''" and "list_all (\<lambda>c. named_channel (chn_type c)) cs"
  shows "\<exists>b. yaml_lines g n (concat (map channel_lines cs)) ys =
    Inr (ys\<lparr>ys_has_channel := b,
      ys_profile := (ys_profile ys)\<lparr>rp_channels := rp_channels (ys_profile ys) @ cs\<rparr>\<rparr>)"
  using assms
proof (induction cs arbitrary: ys n)
  case Nil
  show ?case by (rule exI [of _ "ys_has_channel ys"]) simp
next
  case (Cons c cs)
  let ?ys = "ys\<lparr>ys_has_channel := True,
      ys_profile := (ys_profile ys)\<lparr>rp_channels := rp_channels (ys_profile ys) @ [c]\<rparr>\<rparr>"
  have "yaml_lines g n (channel_lines c) ys = Inr ?ys"
    using Cons.prems by (intro yaml_channel_lines) simp_all
  then show ?case
    using Cons.IH [of ?ys "n + length (channel_lines c)"] Cons.prems by (simp add: yaml_lines_append)
qed

lemma yaml_keys:
  "yaml_key ''runtime''" "yaml_key ''connection''" "yaml_key ''channels''" "yaml_key ''mode''"
  by (simp_all add: yaml_key_def plain_def isspace_def)

lemma newline_entry:
  "newline \<notin> set (yaml_entry i m k v) \<longleftrightarrow> newline \<notin> set m \<and> newline \<notin> set k \<and> newline \<notin> set v"
  by (auto simp: yaml_entry_def)

lemma print_profile_lines:
  assumes "profile_printable p"
  shows "getlines (print_profile p) =
    [yaml_entry 0 [] ''mode'' (mode_name (rp_mode p)), ''runtime:''] @ runtime_lines p @
       [''connection:''] @ connection_lines p @ [''channels:''] @ concat (map channel_lines (rp_channels p))"
proof -
  have c: "list_all (\<lambda>l. newline \<notin> set l) (channel_lines c)" if "c \<in> set (rp_channels p)" for c
    using assms that
    by (auto simp: channel_lines_def newline_entry profile_printable_def list_all_iff channelTypeName_def)
  have m: "newline \<notin> set (mode_name m)" for m
    by (simp add: mode_name_def split: RuntimeMode.splits)
  have r: "list_all (\<lambda>l. newline \<notin> set l) (runtime_lines p @ connection_lines p)"
    using assms by (simp add: runtime_lines_def connection_lines_def newline_entry profile_printable_def)
  show ?thesis
    unfolding print_profile_def using c r m
    by (intro getlines_unlines) (auto simp: list_all_iff newline_entry)
qed

lemma print_profile_loads:
  assumes "fs path = Some (print_profile p)" and "profile_ok p" and "profile_printable p"
  shows "load_runtime_profile_from_yaml fs path g_settings = Inr p"
proof -
  let ?init = "\<lparr>ys_section = [], ys_has_channel = False,
    ys_profile = (default_runtime_profile g_settings)\<lparr>rp_channels := []\<rparr>\<rparr>"
  have mode: "apply_profile_field g_settings [] ''mode'' (mode_name (rp_mode p)) q =
      Inr (q\<lparr>rp_mode := rp_mode p, rp_log_path := (if rp_mode p = ClientMode
        then rs_client_log_path (st_runtime g_settings) else rs_server_log_path (st_runtime g_settings))\<rparr>)" for q
    by (cases "rp_mode p") (simp_all add: apply_profile_field_def parse_runtime_mode_def mode_name_def)
  note sec = yaml_section_line [OF yaml_keys(1), simplified] yaml_section_line [OF yaml_keys(2), simplified]
    yaml_section_line [OF yaml_keys(3), simplified]
  note ch = yaml_all_channels [where cs = "rp_channels p" and g = g_settings]
  have named: "list_all (\<lambda>c. named_channel (chn_type c)) (rp_channels p)"
    using assms(2) by (simp add: profile_ok_def)
  let ?front = "[yaml_entry 0 [] ''mode'' (mode_name (rp_mode p)), ''runtime:''] @ runtime_lines p @
    [''connection:''] @ connection_lines p @ [''channels:'']"
  let ?mid = "\<lparr>ys_section = ''channels'', ys_has_channel = False, ys_profile = p\<lparr>rp_channels := []\<rparr>\<rparr>"
  have front: "yaml_lines g_settings 0 ?front ?init = Inr ?mid"
    by (simp add: yaml_lines_append yaml_root_entry yaml_keys yaml_values mode sec
        yaml_runtime_lines yaml_connection_lines default_runtime_profile_def Let_def)
  obtain ys where ys: "yaml_lines g_settings 0 (getlines (print_profile p)) ?init = Inr ys" "ys_profile ys = p"
    using ch [of ?mid "length ?front", OF _ named] front
      yaml_lines_append [of g_settings 0 ?front "concat (map channel_lines (rp_channels p))" ?init]
    unfolding print_profile_lines [OF assms(3)] by auto
  have "ensure_default_channel p = p"
    using assms(2) by (auto simp: ensure_default_channel_def profile_ok_def split: list.splits)
  moreover have "check_remote p = Inr p"
    using assms(2) by (auto simp: check_remote_def profile_ok_def split: if_splits)
  ultimately show ?thesis
    using ys assms(1) by (simp add: load_runtime_profile_from_yaml_def apply_profile_yaml_def)
qed

text \<open>
  C20. Profile round trip: a YAML file that writes out a profile that is fit for use is loaded without
  error and gives exactly that profile, whatever the current settings.
\<close>

theorem profile_roundtrip:
  assumes "fs path = Some (print_profile p)" and "profile_ok p" and "profile_printable p"
  shows "load_runtime_profile_from_yaml fs path g_settings = Inr p"
  using assms by (rule print_profile_loads)

definition sample_profile :: RuntimeProfile where
  "sample_profile = \<lparr>rp_mode = ClientMode, rp_bind_address = ''0.0.0.0'', rp_bind_port = 0,
     rp_remote_address = ''127.0.0.1'', rp_remote_port = 9010, rp_log_path = ''logs/test_client.log'',
     rp_socket_buffer_size = 1500, rp_loop_sleep_us = 10000, rp_select_timeout_us = 10000,
     rp_poll_budget = 8,
     rp_channels = [\<lparr>chn_id = 7, chn_name = ''chat'', chn_type = ReliableOrdered, chn_is_default = True\<rparr>,
       \<lparr>chn_id = 8, chn_name = ''state'', chn_type = Unreliable, chn_is_default = False\<rparr>]\<rparr>"

lemma sample_profile_ok: "profile_ok sample_profile" "profile_printable sample_profile"
  by (simp_all add: profile_ok_def profile_printable_def sample_profile_def named_channel_def one_line_def)

theorem profile_roundtrip_witness:
  "load_runtime_profile_from_yaml (\<lambda>_. Some (print_profile sample_profile)) ''client.yaml'' default_settings =
     Inr sample_profile"
  by (rule profile_roundtrip) (simp_all add: sample_profile_ok)

end
