(* ===== verification/Bsd_Runtime.thy ===== *)
theory Bsd_Runtime
  imports Config_Spec
begin

text \<open>
  Model of \<open>src/BsdRuntime.cpp\<close>, first part: from the command line to the profile the program runs with. The
  environment is the function \<open>getenv\<close>, the file system a function from paths to contents with the test
  \<open>file_exists\<close>; the outcome is what the program prints before it exits with code 1, or the settings and
  the profile. The loggers and the run itself are in the theory of the whole program.
\<close>

type_synonym environment = "string \<Rightarrow> string option"

definition apply_string_override :: "environment \<Rightarrow> string \<Rightarrow> string \<Rightarrow> string" where
  "apply_string_override getenv env_name target =
     (case getenv env_name of
        None \<Rightarrow> target
      | Some value \<Rightarrow> if value \<noteq> [] then value else target)"

definition apply_u16_override :: "environment \<Rightarrow> string \<Rightarrow> u16 \<Rightarrow> u16" where
  "apply_u16_override getenv env_name target =
     (case getenv env_name of
        None \<Rightarrow> target
      | Some value \<Rightarrow>
          if value = [] then target
          else case stoul value of Some v \<Rightarrow> ucast v | None \<Rightarrow> target)"

definition apply_log_path_override :: "environment \<Rightarrow> RuntimeProfile \<Rightarrow> RuntimeProfile" where
  "apply_log_path_override getenv profile =
     (let override_path = (if rp_mode profile = ServerMode
            then getenv ''RUDP_RUNTIME_SERVER_LOG_PATH''
            else getenv ''RUDP_RUNTIME_CLIENT_LOG_PATH'')
      in case override_path of
           None \<Rightarrow> profile
         | Some path \<Rightarrow> if path \<noteq> [] then profile\<lparr>rp_log_path := path\<rparr> else profile)"

definition apply_connection_overrides :: "environment \<Rightarrow> RuntimeProfile \<Rightarrow> RuntimeProfile" where
  "apply_connection_overrides getenv profile =
     (if rp_mode profile = ServerMode then
        profile\<lparr>rp_bind_address := apply_string_override getenv ''RUDP_RUNTIME_SERVER_BIND_ADDRESS''
                  (rp_bind_address profile),
                rp_bind_port := apply_u16_override getenv ''RUDP_RUNTIME_SERVER_BIND_PORT''
                  (rp_bind_port profile)\<rparr>
      else
        profile\<lparr>rp_bind_address := apply_string_override getenv ''RUDP_RUNTIME_CLIENT_BIND_ADDRESS''
                  (rp_bind_address profile),
                rp_bind_port := apply_u16_override getenv ''RUDP_RUNTIME_CLIENT_BIND_PORT''
                  (rp_bind_port profile),
                rp_remote_address := apply_string_override getenv ''RUDP_RUNTIME_CLIENT_REMOTE_ADDRESS''
                  (rp_remote_address profile),
                rp_remote_port := apply_u16_override getenv ''RUDP_RUNTIME_CLIENT_REMOTE_PORT''
                  (rp_remote_port profile)\<rparr>)"

definition print_usage :: "string \<Rightarrow> string" where
  "print_usage argv0 =
     unlines [''Usage:'', ''  '' @ argv0 @ '' <runtime-config.yaml>'',
       ''Transport defaults are loaded from .env when present.'']"

text \<open>\<open>argv\<close> holds the program's name and its arguments; \<open>Inl\<close> is the text printed.\<close>

definition parse_args :: "string list \<Rightarrow> string + string" where
  "parse_args argv = (if length argv \<noteq> 2 then Inl (print_usage (hd argv)) else Inr (argv ! 1))"

datatype CliOutcome = CliFailed string | CliRun Settings RuntimeProfile

definition cli_profile ::
  "files \<Rightarrow> (string \<Rightarrow> bool) \<Rightarrow> environment \<Rightarrow> string list \<Rightarrow> Settings \<Rightarrow> CliOutcome"
where
  "cli_profile fs file_exists getenv argv g_settings =
     (let (loaded, g_settings) =
            (if file_exists ''.env'' then load_from_env_file fs ''.env'' g_settings
             else (Inr (), g_settings))
      in case loaded of
           Inl env_error \<Rightarrow> CliFailed (''failed to load .env: '' @ env_error @ [newline])
         | Inr _ \<Rightarrow>
             (case parse_args argv of
                Inl usage \<Rightarrow> CliFailed usage
              | Inr config_path \<Rightarrow>
                  (case load_runtime_profile_from_yaml fs config_path g_settings of
                     Inl profile_error \<Rightarrow>
                       CliFailed (''failed to load runtime config: '' @ profile_error @ [newline])
                   | Inr profile \<Rightarrow>
                       CliRun g_settings
                         (apply_log_path_override getenv (apply_connection_overrides getenv profile)))))"

end
