(* ===== verification/Load_Generator.thy ===== *)
theory Load_Generator
  imports Config_Types Std_String "HOL-Library.Multiset"
begin

text \<open>
  Model of the class \<open>LoadGenerator\<close> of \<open>src/BsdClientApp.cpp\<close>: worker threads that put messages into a
  shared queue, which the main loop empties. A worker's loop is cut where it meets shared state: it
  tests the stop flag and its count (\<open>WCheck\<close>), puts one message under the lock (\<open>WPush\<close>), leaves the
  loop and decrements the counter of active workers (\<open>WExit\<close>), and is done (\<open>WDone\<close>). Sleeping and
  yielding between messages are the scheduler's choice of when a worker steps. \<open>stop_all\<close> sets the flag
  and joins: every worker runs to its end, in an order the scheduler chooses.
\<close>

section \<open>State\<close>

record QueuedSend =
  qs_channel_id :: u32
  qs_channel_type :: ChannelType
  qs_payload :: string

datatype WorkerPhase = WCheck | WPush | WExit | WDone

record Worker =
  w_channel_id :: u32
  w_channel_type :: ChannelType
  w_message_count :: u32
  w_payload :: string
  w_index :: u32
  w_produced :: u32
  w_phase :: WorkerPhase

record LoadGenerator =
  lg_stop_requested :: bool
  lg_active_worker_count :: u64
  lg_queue :: "QueuedSend list"
  lg_workers :: "Worker list"

definition empty_generator :: LoadGenerator where
  "empty_generator =
     \<lparr>lg_stop_requested = False, lg_active_worker_count = 0, lg_queue = [], lg_workers = []\<rparr>"

section \<open>Workers\<close>

definition worker_message :: "Worker \<Rightarrow> u32 \<Rightarrow> QueuedSend" where
  "worker_message w produced =
     \<lparr>qs_channel_id = w_channel_id w, qs_channel_type = w_channel_type w,
      qs_payload = w_payload w @ '' [t'' @ to_string (w_index w) @ '' #'' @ to_string produced @ '']''\<rparr>"

definition worker_step :: "nat \<Rightarrow> LoadGenerator \<Rightarrow> LoadGenerator" where
  "worker_step i lg =
     (if i < length (lg_workers lg) then
        let w = lg_workers lg ! i;
            set_worker = (\<lambda>w lg. lg\<lparr>lg_workers := (lg_workers lg)[i := w]\<rparr>)
        in case w_phase w of
             WCheck \<Rightarrow>
               if lg_stop_requested lg \<or>
                  w_message_count w \<noteq> 0 \<and> w_message_count w \<le> w_produced w
               then set_worker (w\<lparr>w_phase := WExit\<rparr>) lg
               else set_worker (w\<lparr>w_phase := WPush\<rparr>) lg
           | WPush \<Rightarrow>
               set_worker (w\<lparr>w_produced := w_produced w + 1, w_phase := WCheck\<rparr>)
                 (lg\<lparr>lg_queue := lg_queue lg @ [worker_message w (w_produced w)]\<rparr>)
           | WExit \<Rightarrow>
               set_worker (w\<lparr>w_phase := WDone\<rparr>)
                 (lg\<lparr>lg_active_worker_count := lg_active_worker_count lg - 1\<rparr>)
           | WDone \<Rightarrow> lg
      else lg)"

fun run_workers :: "nat list \<Rightarrow> LoadGenerator \<Rightarrow> LoadGenerator" where
  "run_workers [] lg = lg"
| "run_workers (i # schedule) lg = run_workers schedule (worker_step i lg)"

section \<open>Operations of the main thread\<close>

fun spawn_loop :: "ChannelDefinition \<Rightarrow> u32 \<Rightarrow> string \<Rightarrow> nat \<Rightarrow> nat \<Rightarrow> LoadGenerator \<Rightarrow> LoadGenerator" where
  "spawn_loop channel message_count payload i 0 lg = lg"
| "spawn_loop channel message_count payload i (Suc left) lg =
     spawn_loop channel message_count payload (i + 1) left
       (lg\<lparr>lg_active_worker_count := lg_active_worker_count lg + 1,
           lg_workers := lg_workers lg @
             [\<lparr>w_channel_id = chn_id channel, w_channel_type = chn_type channel,
               w_message_count = message_count, w_payload = payload, w_index = of_nat i,
               w_produced = 0, w_phase = WCheck\<rparr>]\<rparr>)"

definition spawn :: "ChannelDefinition \<Rightarrow> u32 \<Rightarrow> u32 \<Rightarrow> string \<Rightarrow> LoadGenerator \<Rightarrow> LoadGenerator" where
  "spawn channel thread_count message_count payload lg =
     spawn_loop channel message_count payload 0 (unat thread_count) (lg\<lparr>lg_stop_requested := False\<rparr>)"

text \<open>
  \<open>join\<close>: with the stop flag set a worker needs at most three more steps. The scheduler's order is
  \<open>schedule\<close>; the loop of joins waits for every worker that is not in it.
\<close>

definition finish_worker :: "nat \<Rightarrow> LoadGenerator \<Rightarrow> LoadGenerator" where
  "finish_worker i lg = worker_step i (worker_step i (worker_step i lg))"

fun finish_workers :: "nat list \<Rightarrow> LoadGenerator \<Rightarrow> LoadGenerator" where
  "finish_workers [] lg = lg"
| "finish_workers (i # schedule) lg = finish_workers schedule (finish_worker i lg)"

definition stop_all :: "nat list \<Rightarrow> LoadGenerator \<Rightarrow> LoadGenerator" where
  "stop_all schedule lg =
     (let lg = lg\<lparr>lg_stop_requested := True\<rparr>;
          lg = finish_workers (schedule @ [0..<length (lg_workers lg)]) lg
      in lg\<lparr>lg_workers := [], lg_active_worker_count := 0\<rparr>)"

definition lg_drain :: "LoadGenerator \<Rightarrow> QueuedSend list \<times> LoadGenerator" where
  "lg_drain lg = (lg_queue lg, lg\<lparr>lg_queue := []\<rparr>)"

definition worker_count :: "LoadGenerator \<Rightarrow> u64" where
  "worker_count lg = lg_active_worker_count lg"

definition has_pending_messages :: "LoadGenerator \<Rightarrow> bool" where
  "has_pending_messages lg = (lg_queue lg \<noteq> [])"

section \<open>Bursts of messages\<close>

text \<open>The messages a worker has put so far, and the steps it still needs to its end.\<close>

definition put_messages :: "Worker \<Rightarrow> QueuedSend multiset" where
  "put_messages w = mset (map (\<lambda>k. worker_message w (of_nat k)) [0..<unat (w_produced w)])"

definition work_left :: "u32 \<Rightarrow> Worker \<Rightarrow> nat" where
  "work_left n w =
     (case w_phase w of
        WCheck \<Rightarrow> 2 * (unat n - unat (w_produced w)) + 2
      | WPush \<Rightarrow> 2 * (unat n - unat (w_produced w)) + 1
      | WExit \<Rightarrow> 1
      | WDone \<Rightarrow> 0)"

definition worker_ok :: "u32 \<Rightarrow> Worker \<Rightarrow> bool" where
  "worker_ok n w \<longleftrightarrow> n \<noteq> 0 \<and> w_message_count w = n \<and> w_produced w \<le> n \<and>
     (w_phase w = WPush \<longrightarrow> w_produced w < n) \<and>
     (w_phase w = WExit \<or> w_phase w = WDone \<longrightarrow> w_produced w = n)"

text \<open>The identity of a worker: what it sends does not change.\<close>

definition same_worker :: "Worker \<Rightarrow> Worker \<Rightarrow> bool" where
  "same_worker w w' \<longleftrightarrow> w_channel_id w' = w_channel_id w \<and> w_channel_type w' = w_channel_type w \<and>
     w_payload w' = w_payload w \<and> w_index w' = w_index w \<and> w_message_count w' = w_message_count w"

lemma same_worker_refl [simp]: "same_worker w w"
  by (simp add: same_worker_def)

lemma same_worker_trans: "same_worker u v \<Longrightarrow> same_worker v w \<Longrightarrow> same_worker u w"
  by (simp add: same_worker_def)

lemma same_worker_message: "same_worker w w' \<Longrightarrow> worker_message w' = worker_message w"
  by (simp add: same_worker_def worker_message_def fun_eq_iff)

definition worker_next :: "Worker \<Rightarrow> Worker" where
  "worker_next w =
     (case w_phase w of
        WCheck \<Rightarrow> if w_message_count w \<noteq> 0 \<and> w_message_count w \<le> w_produced w
                  then w\<lparr>w_phase := WExit\<rparr> else w\<lparr>w_phase := WPush\<rparr>
      | WPush \<Rightarrow> w\<lparr>w_produced := w_produced w + 1, w_phase := WCheck\<rparr>
      | WExit \<Rightarrow> w\<lparr>w_phase := WDone\<rparr>
      | WDone \<Rightarrow> w)"

lemma worker_step_workers:
  assumes "\<not> lg_stop_requested lg" and "i < length (lg_workers lg)"
  shows "lg_workers (worker_step i lg) = (lg_workers lg)[i := worker_next (lg_workers lg ! i)]"
    "lg_stop_requested (worker_step i lg) = lg_stop_requested lg"
    "lg_queue (worker_step i lg) = lg_queue lg @
      (if w_phase (lg_workers lg ! i) = WPush
       then [worker_message (lg_workers lg ! i) (w_produced (lg_workers lg ! i))] else [])"
    "lg_active_worker_count (worker_step i lg) = lg_active_worker_count lg -
      (if w_phase (lg_workers lg ! i) = WExit then 1 else 0)"
  using assms by (simp_all add: worker_step_def worker_next_def Let_def split: WorkerPhase.splits)

lemma unat_succ_less: "(p :: u32) < n \<Longrightarrow> unat (p + 1) = unat p + 1"
  using unat_u32_lt [of n] by (simp add: unat_u32_plus word_less_nat_alt)

lemma same_worker_next: "same_worker w (worker_next w)"
  by (simp add: same_worker_def worker_next_def split: WorkerPhase.splits)

lemma worker_next_ok:
  assumes "worker_ok n w"
  shows "worker_ok n (worker_next w)" "work_left n (worker_next w) = work_left n w - 1"
proof -
  have p: "w_produced w < n \<Longrightarrow> w_produced w + 1 \<le> n \<and> unat (w_produced w + 1) = unat (w_produced w) + 1"
    using unat_succ_less [of "w_produced w" n] by (simp add: word_le_nat_alt word_less_nat_alt)
  show "worker_ok n (worker_next w)"
    using assms p by (auto simp: worker_ok_def worker_next_def split: WorkerPhase.splits)
  show "work_left n (worker_next w) = work_left n w - 1"
    using assms p by (auto simp: worker_ok_def worker_next_def work_left_def word_less_nat_alt
        split: WorkerPhase.splits)
qed

lemma put_messages_next:
  assumes "worker_ok n w"
  shows "put_messages (worker_next w) = put_messages w +
    mset (if w_phase w = WPush then [worker_message w (w_produced w)] else [])"
proof (cases "w_phase w = WPush")
  case True
  then have "unat (w_produced w + 1) = unat (w_produced w) + 1"
    using assms unat_succ_less [of "w_produced w" n] by (simp add: worker_ok_def)
  moreover have "worker_message (worker_next w) = worker_message w"
    by (rule same_worker_message [OF same_worker_next])
  ultimately show ?thesis using True by (simp add: put_messages_def worker_next_def)
next
  case False
  have "worker_message (worker_next w) = worker_message w"
    by (rule same_worker_message [OF same_worker_next])
  moreover have "w_produced (worker_next w) = w_produced w"
    using False by (simp add: worker_next_def split: WorkerPhase.splits)
  ultimately show ?thesis using False by (simp add: put_messages_def)
qed

lemma sum_list_update_add:
  fixes f :: "'a \<Rightarrow> 'b :: cancel_comm_monoid_add"
  shows "i < length xs \<Longrightarrow> sum_list (map f (xs[i := y])) + f (xs ! i) = sum_list (map f xs) + f y"
  by (induction xs arbitrary: i) (auto simp: ac_simps split: nat.splits)

text \<open>
  The invariant of a burst of workers \<open>ws\<close> with \<open>n\<close> messages each: the same workers, each within its
  count, and the queue holds exactly what they have put.
\<close>

definition burst_inv :: "u32 \<Rightarrow> Worker list \<Rightarrow> LoadGenerator \<Rightarrow> bool" where
  "burst_inv n ws lg \<longleftrightarrow> \<not> lg_stop_requested lg \<and> list_all2 same_worker ws (lg_workers lg) \<and>
     list_all (worker_ok n) (lg_workers lg) \<and>
     mset (lg_queue lg) = sum_list (map put_messages (lg_workers lg)) \<and>
     lg_active_worker_count lg = of_nat (length (filter (\<lambda>w. w_phase w \<noteq> WDone) (lg_workers lg)))"

lemma worker_next_done: "w_phase (worker_next w) = WDone \<longleftrightarrow> w_phase w = WExit \<or> w_phase w = WDone"
  by (simp add: worker_next_def split: WorkerPhase.splits)

lemma count_active_update:
  assumes "i < length ws"
  shows "(of_nat (length (filter (\<lambda>w. w_phase w \<noteq> WDone) (ws[i := worker_next (ws ! i)]))) :: u64) =
    of_nat (length (filter (\<lambda>w. w_phase w \<noteq> WDone) ws)) - (if w_phase (ws ! i) = WExit then 1 else 0)"
proof -
  have len: "length (filter P xs) = sum_list (map (\<lambda>x. if P x then 1 else 0) xs)" for P and xs :: "Worker list"
    by (induction xs) auto
  let ?f = "\<lambda>w. if w_phase w \<noteq> WDone then 1 else 0 :: nat"
  have "sum_list (map ?f (ws[i := worker_next (ws ! i)])) + ?f (ws ! i) =
      sum_list (map ?f ws) + ?f (worker_next (ws ! i))"
    by (rule sum_list_update_add [OF assms])
  then have "sum_list (map ?f (ws[i := worker_next (ws ! i)])) + (if w_phase (ws ! i) = WExit then 1 else 0) =
      sum_list (map ?f ws)"
    using worker_next_done [of "ws ! i"] by (auto split: if_splits)
  from arg_cong [OF this, of "of_nat :: nat \<Rightarrow> u64"]
  show ?thesis unfolding len by (auto simp: eq_diff_eq)
qed

lemma burst_step:
  assumes "burst_inv n ws lg"
  shows "burst_inv n ws (worker_step i lg)"
proof (cases "i < length (lg_workers lg)")
  case True
  let ?w = "lg_workers lg ! i"
  have ok: "worker_ok n ?w" using assms True by (simp add: burst_inv_def list_all_length)
  note s = worker_step_workers [OF _ True]
  have stop: "\<not> lg_stop_requested lg" using assms by (simp add: burst_inv_def)
  have same: "list_all2 same_worker ws ((lg_workers lg)[i := worker_next ?w])"
    using assms True same_worker_trans [OF _ same_worker_next]
    by (auto simp: burst_inv_def list_all2_conv_all_nth nth_list_update)
  have oks: "list_all (worker_ok n) ((lg_workers lg)[i := worker_next ?w])"
    using assms worker_next_ok(1) [OF ok] set_update_subset_insert [of "lg_workers lg" i "worker_next ?w"]
    by (auto simp: burst_inv_def list_all_iff)
  have "mset (lg_queue (worker_step i lg)) + put_messages ?w =
      sum_list (map put_messages (lg_workers lg)) + put_messages (worker_next ?w)"
    using assms put_messages_next [OF ok] by (simp add: burst_inv_def s(3) [OF stop])
  then have "mset (lg_queue (worker_step i lg)) = sum_list (map put_messages ((lg_workers lg)[i := worker_next ?w]))"
    using sum_list_update_add [OF True, of put_messages "worker_next ?w"] by (metis add_right_cancel)
  then show ?thesis
    using assms same oks s [OF stop] count_active_update [OF True] by (simp add: burst_inv_def)
next
  case False
  then show ?thesis using assms by (simp add: worker_step_def)
qed

lemma burst_run:
  "burst_inv n ws lg \<Longrightarrow> burst_inv n ws (run_workers schedule lg)"
  by (induction schedule lg rule: run_workers.induct) (auto intro: burst_step)

lemma work_left_step:
  assumes "burst_inv n ws lg" and "j < length (lg_workers lg)"
  shows "work_left n (lg_workers (worker_step i lg) ! j) =
    work_left n (lg_workers lg ! j) - (if i = j then 1 else 0)"
proof (cases "i < length (lg_workers lg)")
  case True
  then show ?thesis
    using assms worker_next_ok(2) [of n "lg_workers lg ! i"]
    by (auto simp: worker_step_workers burst_inv_def nth_list_update list_all_length)
next
  case False
  then show ?thesis using assms(2) by (auto simp: worker_step_def)
qed

lemma burst_length: "burst_inv n ws lg \<Longrightarrow> length (lg_workers lg) = length ws"
  by (auto simp: burst_inv_def dest: list_all2_lengthD)

lemma work_left_run:
  assumes "burst_inv n ws lg" and "j < length ws"
  shows "work_left n (lg_workers (run_workers schedule lg) ! j) =
    work_left n (lg_workers lg ! j) - count_list schedule j"
  using assms
proof (induction schedule lg rule: run_workers.induct)
  case (2 i schedule lg)
  show ?case
    using 2(1) [OF burst_step [OF 2(2)] 2(3)] work_left_step [OF 2(2), of j i] burst_length [OF 2(2)] 2(3)
    by simp
qed simp

definition new_worker :: "ChannelDefinition \<Rightarrow> u32 \<Rightarrow> string \<Rightarrow> nat \<Rightarrow> Worker" where
  "new_worker channel n payload i =
     \<lparr>w_channel_id = chn_id channel, w_channel_type = chn_type channel, w_message_count = n,
      w_payload = payload, w_index = of_nat i, w_produced = 0, w_phase = WCheck\<rparr>"

lemma spawn_loop_workers:
  "spawn_loop channel n payload i k lg =
     lg\<lparr>lg_active_worker_count := lg_active_worker_count lg + of_nat k,
        lg_workers := lg_workers lg @ map (new_worker channel n payload) [i..<i + k]\<rparr>"
  by (induction channel n payload i k lg rule: spawn_loop.induct)
    (simp_all add: new_worker_def upt_conv_Cons del: upt_Suc)

lemma spawn_burst:
  assumes "n \<noteq> 0" and "lg_workers lg = []" and "lg_queue lg = []" and "lg_active_worker_count lg = 0"
  shows "burst_inv n (map (new_worker channel n payload) [0..<unat threads]) (spawn channel threads n payload lg)"
    "lg_workers (spawn channel threads n payload lg) = map (new_worker channel n payload) [0..<unat threads]"
proof -
  have w: "worker_ok n (new_worker channel n payload i)" "put_messages (new_worker channel n payload i) = {#}"
    "w_phase (new_worker channel n payload i) \<noteq> WDone" for i
    using assms(1) by (simp_all add: worker_ok_def new_worker_def put_messages_def)
  then have "sum_list (map (\<lambda>i. put_messages (new_worker channel n payload i)) [0..<unat threads]) = {#}"
    by (induction "unat threads") simp_all
  then show "burst_inv n (map (new_worker channel n payload) [0..<unat threads]) (spawn channel threads n payload lg)"
    "lg_workers (spawn channel threads n payload lg) = map (new_worker channel n payload) [0..<unat threads]"
    using assms w
    by (simp_all add: spawn_def spawn_loop_workers burst_inv_def list_all_iff list_all2_conv_all_nth o_def)
qed

lemma mset_concat_sum: "mset (concat (map f xs)) = sum_list (map (\<lambda>x. mset (f x)) xs)"
  by (induction xs) auto

lemma burst_finished:
  assumes "burst_inv n (map (new_worker channel n payload) [0..<t]) lg"
    and "\<And>j. j < t \<Longrightarrow> work_left n (lg_workers lg ! j) = 0"
  shows "mset (lg_queue lg) = mset (concat (map (\<lambda>i. map (\<lambda>k.
      worker_message (new_worker channel n payload i) (of_nat k)) [0..<unat n]) [0..<t]))"
    and "lg_active_worker_count lg = 0"
proof -
  note inv = assms(1) [unfolded burst_inv_def]
  have len: "length (lg_workers lg) = t" using burst_length [OF assms(1)] by simp
  have phase: "w_phase (lg_workers lg ! j) = WDone" if "j < t" for j
    using assms(2) [OF that] by (simp add: work_left_def split: WorkerPhase.splits)
  have ok: "worker_ok n (lg_workers lg ! j)" if "j < t" for j
    using inv that len by (simp add: list_all_length)
  have msg: "worker_message (lg_workers lg ! j) = worker_message (new_worker channel n payload j)" if "j < t" for j
    using inv that by (intro same_worker_message) (auto simp: list_all2_conv_all_nth)
  have "put_messages (lg_workers lg ! j) =
      mset (map (\<lambda>k. worker_message (new_worker channel n payload j) (of_nat k)) [0..<unat n])" if "j < t" for j
    using phase [OF that] ok [OF that] msg [OF that] by (simp add: put_messages_def worker_ok_def)
  then have "map put_messages (lg_workers lg) =
      map (\<lambda>j. mset (map (\<lambda>k. worker_message (new_worker channel n payload j) (of_nat k)) [0..<unat n])) [0..<t]"
    using len by (intro nth_equalityI) simp_all
  then show "mset (lg_queue lg) = mset (concat (map (\<lambda>i. map (\<lambda>k.
      worker_message (new_worker channel n payload i) (of_nat k)) [0..<unat n]) [0..<t]))"
    using inv by (simp only: mset_concat_sum)
  have "filter (\<lambda>w. w_phase w \<noteq> WDone) (lg_workers lg) = []"
    using phase len by (auto simp: filter_empty_conv in_set_conv_nth)
  then show "lg_active_worker_count lg = 0" using inv by simp
qed

text \<open>
  C29. A burst of load is complete and exact under every interleaving: when \<open>threads\<close> workers with
  \<open>messages\<close> messages each are spawned on an idle generator and the scheduler gives every worker at least
  \<open>2 messages + 2\<close> turns, in whatever order, the queue holds each of the \<open>threads * messages\<close> numbered messages
  exactly once and no worker is left active.
\<close>

theorem burst_exact:
  assumes "messages \<noteq> 0" and "lg_workers lg = []" and "lg_queue lg = []" and "lg_active_worker_count lg = 0"
    and "\<And>i. i < unat threads \<Longrightarrow> 2 * unat messages + 2 \<le> count_list schedule i"
    and "lg' = run_workers schedule (spawn channel threads messages payload lg)"
  shows "mset (lg_queue lg') = mset (concat (map (\<lambda>i. map (\<lambda>k.
      \<lparr>qs_channel_id = chn_id channel, qs_channel_type = chn_type channel,
       qs_payload = payload @ '' [t'' @ decimal i @ '' #'' @ decimal k @ '']''\<rparr>)
        [0..<unat messages]) [0..<unat threads])) \<and>
    worker_count lg' = 0"
proof -
  let ?ws = "map (new_worker channel messages payload) [0..<unat threads]"
  note s = spawn_burst [OF assms(1-4), where channel = channel and payload = payload and threads = threads]
  have inv: "burst_inv messages ?ws lg'" unfolding assms(6) by (rule burst_run [OF s(1)])
  have left: "work_left messages (lg_workers lg' ! j) = 0" if "j < unat threads" for j
    using work_left_run [OF s(1), of j schedule] assms(5) [OF that] that
    by (simp add: assms(6) s(2) new_worker_def work_left_def)
  have dec: "to_string (of_nat i :: u32) = decimal i" if "i < unat x" for i and x :: u32
    using that unat_u32_lt [of x] by (simp add: to_string_def unat_of_nat take_bit_eq_mod)
  have "concat (map (\<lambda>i. map (\<lambda>k. worker_message (new_worker channel messages payload i) (of_nat k))
        [0..<unat messages]) [0..<unat threads]) =
      concat (map (\<lambda>i. map (\<lambda>k.
      \<lparr>qs_channel_id = chn_id channel, qs_channel_type = chn_type channel,
       qs_payload = payload @ '' [t'' @ decimal i @ '' #'' @ decimal k @ '']''\<rparr>)
        [0..<unat messages]) [0..<unat threads])"
    by (intro arg_cong [of _ _ concat] map_cong refl)
      (simp add: worker_message_def new_worker_def dec)
  then show ?thesis using burst_finished [OF inv left] by (simp add: worker_count_def)
qed

theorem burst_exact_witness:
  "worker_count (run_workers [0, 1, 0, 1, 1, 0, 1, 0]
     (spawn default_channel_definition 2 1 ''x'' empty_generator)) = 0"
proof -
  have "4 \<le> count_list [0, 1, 0, 1, 1, 0, 1, 0 :: nat] i" if "i < 2" for i
    using that by (auto simp: less_2_cases_iff)
  then show ?thesis
    by (intro burst_exact [of 1 empty_generator 2, OF _ _ _ _ _ refl, THEN conjunct2])
      (simp_all add: empty_generator_def)
qed

end
