(* ===== verification/Client_App.thy ===== *)
theory Client_App
  imports Session_Core Channel_Directory Runtime_Logger Bsd_Runtime Load_Generator
begin

text \<open>
  Model of \<open>src/BsdClientApp.cpp\<close>: the command language of the client and its main loop. One pass of the
  loop is a function of the state and of what the outside world supplies in that pass: whether a
  signal asked to stop, the outcome of \<open>select\<close>, the datagrams the socket yields, the line typed, the
  readings of the clock, and the steps the load workers take meanwhile. Datagrams handed to the socket
  and lines handed to the logger are collected in order.
\<close>

section \<open>Channels\<close>

text \<open>A pointer to a channel of the profile is the channel, null is \<open>None\<close>.\<close>

definition default_channel :: "RuntimeProfile \<Rightarrow> ChannelDefinition option" where
  "default_channel profile =
     (case find chn_is_default (rp_channels profile) of
        Some channel \<Rightarrow> Some channel
      | None \<Rightarrow> (case rp_channels profile of [] \<Rightarrow> None | first # _ \<Rightarrow> Some first))"

definition find_channel :: "RuntimeProfile \<Rightarrow> string \<Rightarrow> ChannelDefinition option" where
  "find_channel profile token =
     (case find (\<lambda>channel. chn_name channel = token) (rp_channels profile) of
        Some channel \<Rightarrow> Some channel
      | None \<Rightarrow>
          (case stoul token of
             None \<Rightarrow> None
           | Some v \<Rightarrow> find (\<lambda>channel. chn_id channel = ucast v) (rp_channels profile)))"

definition channel_line :: "string \<Rightarrow> ChannelDefinition \<Rightarrow> string" where
  "channel_line prefix channel =
     prefix @ '' channel id='' @ to_string (chn_id channel) @ '' name='' @ chn_name channel @
     '' type='' @ channelTypeName (chn_type channel) @
     (if chn_is_default channel then '' default=true'' else [])"

definition log_channels :: "RuntimeProfile \<Rightarrow> Log" where
  "log_channels profile = map (channel_line ''[client]'') (rp_channels profile)"

section \<open>Commands\<close>

definition parse_client_send_command ::
  "RuntimeProfile \<Rightarrow> string \<Rightarrow> (ChannelDefinition \<times> string) option"
where
  "parse_client_send_command profile line =
     (let prefix = ''send '' in
      if starts_with prefix line then
        let rest = drop (length prefix) line in
        (case find_char (CHR '' '') rest of
           None \<Rightarrow> None
         | Some space \<Rightarrow>
             (case find_channel profile (take space rest) of
                None \<Rightarrow> None
              | Some channel \<Rightarrow> Some (channel, drop (space + 1) rest)))
      else
        (case default_channel profile of
           None \<Rightarrow> None
         | Some channel \<Rightarrow> Some (channel, line)))"

record SpawnCommand =
  sc_channel :: ChannelDefinition
  sc_thread_count :: u32
  sc_message_count :: u32
  sc_interval_ms :: u32
  sc_payload :: string

text \<open>The four spaces of \<open>/spawn <channel> <threads> <count> <interval-ms> <payload>\<close>.\<close>

definition spawn_spaces :: "string \<Rightarrow> (nat \<times> nat \<times> nat \<times> nat) option" where
  "spawn_spaces rest =
     (case find_char (CHR '' '') rest of None \<Rightarrow> None | Some first_space \<Rightarrow>
     (case find_char_from (CHR '' '') rest (first_space + 1) of None \<Rightarrow> None | Some second_space \<Rightarrow>
     (case find_char_from (CHR '' '') rest (second_space + 1) of None \<Rightarrow> None | Some third_space \<Rightarrow>
     (case find_char_from (CHR '' '') rest (third_space + 1) of None \<Rightarrow> None | Some fourth_space \<Rightarrow>
        Some (first_space, second_space, third_space, fourth_space)))))"

definition parse_spawn_command :: "RuntimeProfile \<Rightarrow> string \<Rightarrow> SpawnCommand option" where
  "parse_spawn_command profile line =
     (let prefix = ''/spawn '' in
      if \<not> starts_with prefix line then None
      else
        let rest = drop (length prefix) line in
        (case spawn_spaces rest of
           None \<Rightarrow> None
         | Some (first_space, second_space, third_space, fourth_space) \<Rightarrow>
             (case find_channel profile (take first_space rest) of
                None \<Rightarrow> None
              | Some channel \<Rightarrow>
                  (case (stoul (substr rest (first_space + 1) (second_space - first_space - 1)),
                         stoul (substr rest (second_space + 1) (third_space - second_space - 1)),
                         stoul (substr rest (third_space + 1) (fourth_space - third_space - 1))) of
                     (Some thread_count, Some message_count, Some interval_ms) \<Rightarrow>
                       Some \<lparr>sc_channel = channel, sc_thread_count = ucast thread_count,
                             sc_message_count = ucast message_count, sc_interval_ms = ucast interval_ms,
                             sc_payload = drop (fourth_space + 1) rest\<rparr>
                   | _ \<Rightarrow> None))))"

section \<open>State of the client\<close>

record ClientApp =
  ca_session :: SessionState
  ca_load :: LoadGenerator
  ca_bootstrap_commands :: "string list"
  ca_bootstrap_applied :: bool
  ca_stdin_enabled :: bool
  ca_should_exit :: bool
  ca_log :: Log
  ca_sent :: "bytes list"

definition client_log :: "Log \<Rightarrow> ClientApp \<Rightarrow> ClientApp" where
  "client_log lines app = app\<lparr>ca_log := ca_log app @ lines\<rparr>"

text \<open>\<open>schedule\<close> is the order in which the workers end when the command stops them.\<close>

definition process_client_command ::
  "RuntimeProfile \<Rightarrow> nat list \<Rightarrow> string \<Rightarrow> ClientApp \<Rightarrow> bool \<times> ClientApp"
where
  "process_client_command profile schedule line app =
     (if line = ''/quit'' then (True, app\<lparr>ca_should_exit := True\<rparr>)
      else if line = ''/channels'' then (True, client_log (log_channels profile) app)
      else if line = ''/workers'' then
        (True, client_log [''[client] load workers='' @ to_string (worker_count (ca_load app))] app)
      else if line = ''/stop-load'' then
        (True, client_log [''[client] load workers stopped'']
           (app\<lparr>ca_load := stop_all schedule (ca_load app)\<rparr>))
      else
        case parse_spawn_command profile line of
          Some spawn_command \<Rightarrow>
            (True, client_log
               [''[client] spawned '' @ to_string (sc_thread_count spawn_command) @ '' workers on '' @
                chn_name (sc_channel spawn_command) @ '' count='' @
                to_string (sc_message_count spawn_command) @ '' interval_ms='' @
                to_string (sc_interval_ms spawn_command)]
               (app\<lparr>ca_load := spawn (sc_channel spawn_command) (sc_thread_count spawn_command)
                   (sc_message_count spawn_command) (sc_payload spawn_command) (ca_load app)\<rparr>))
        | None \<Rightarrow>
            (case parse_client_send_command profile line of
               None \<Rightarrow>
                 (False, client_log
                    [''[client] unknown command; use: send <channel> <message> or /spawn <channel> '' @
                     ''<threads> <count> <interval-ms> <payload>''] app)
             | Some (channel, payload) \<Rightarrow>
                 (True, app\<lparr>ca_session :=
                    queue_send (chn_id channel) (chn_type channel) (bytes_of_text payload)
                      (ca_session app)\<rparr>)))"

definition load_bootstrap_commands :: "environment \<Rightarrow> files \<Rightarrow> string list \<times> Log" where
  "load_bootstrap_commands getenv fs =
     (case getenv ''RUDP_CLIENT_BOOTSTRAP_FILE'' of
        None \<Rightarrow> ([], [])
      | Some path \<Rightarrow>
          if path = [] then ([], [])
          else
            (case fs path of
               None \<Rightarrow> ([], [''[client] failed to open bootstrap file: '' @ path])
             | Some content \<Rightarrow>
                 (filter (\<lambda>line. \<not> (line = [] \<or> hd line = CHR ''#'')) (getlines content), [])))"

section \<open>The main loop\<close>

fun drain_client_events_loop :: "SessionState \<Rightarrow> SessionEvent list \<Rightarrow> Log" where
  "drain_client_events_loop session [] = []"
| "drain_client_events_loop session (event # rest) =
     (format_session_event ''[client]'' event @ format_session_stats (s_stats session))
     # drain_client_events_loop session rest"

definition drain_client_events :: "ClientApp \<Rightarrow> ClientApp" where
  "drain_client_events app =
     (let (events, session) = drain_events (ca_session app)
      in client_log (drain_client_events_loop session events) (app\<lparr>ca_session := session\<rparr>))"

record ClientInput =
  ci_stop_requested :: bool
  ci_workers_before :: "nat list"
  ci_select_failed :: bool
  ci_datagrams :: "(bytes \<times> u64) list"
  ci_stdin :: "string option option"
  ci_stop_schedule :: "nat list"
  ci_workers :: "nat list"
  ci_clock :: "nat \<Rightarrow> u64"
  ci_bootstrap_workers :: "nat \<Rightarrow> nat list"
  ci_bootstrap_schedules :: "nat \<Rightarrow> nat list"

fun client_receive :: "TransportSettings \<Rightarrow> (bytes \<times> u64) list \<Rightarrow> SessionState \<Rightarrow> SessionState" where
  "client_receive cfg [] session = session"
| "client_receive cfg ((bs, now) # rest) session =
     client_receive cfg rest (on_datagram_received cfg bs now session)"

definition client_stdin ::
  "RuntimeProfile \<Rightarrow> string option option \<Rightarrow> nat list \<Rightarrow> ClientApp \<Rightarrow> ClientApp"
where
  "client_stdin profile stdin schedule app =
     (if ca_stdin_enabled app then
        (case stdin of
           None \<Rightarrow> app
         | Some None \<Rightarrow> app\<lparr>ca_stdin_enabled := False\<rparr>
         | Some (Some line) \<Rightarrow> snd (process_client_command profile schedule line app))
      else app)"

fun queue_generated :: "QueuedSend list \<Rightarrow> SessionState \<Rightarrow> SessionState" where
  "queue_generated [] session = session"
| "queue_generated (generated # rest) session =
     queue_generated rest
       (queue_send (qs_channel_id generated) (qs_channel_type generated)
         (bytes_of_text (qs_payload generated)) session)"

text \<open>At most \<open>budget\<close> polls, until one yields nothing; the \<open>i\<close>-th reads the clock \<open>clock i\<close>.\<close>

fun poll_loop ::
  "TransportSettings \<Rightarrow> (nat \<Rightarrow> u64) \<Rightarrow> nat \<Rightarrow> nat \<Rightarrow> SessionState \<Rightarrow> bytes list \<times> SessionState"
where
  "poll_loop cfg clock i 0 session = ([], session)"
| "poll_loop cfg clock i (Suc budget) session =
     (case poll_tx cfg (clock i) session of
        (None, session) \<Rightarrow> ([], session)
      | (Some outbound, session) \<Rightarrow>
          let (sent, session) = poll_loop cfg clock (i + 1) budget session
          in (outbound # sent, session))"

text \<open>The workers take the steps \<open>workers i\<close> while the \<open>i\<close>-th command is being reached.\<close>

fun bootstrap_loop ::
  "RuntimeProfile \<Rightarrow> (nat \<Rightarrow> nat list) \<Rightarrow> (nat \<Rightarrow> nat list) \<Rightarrow> nat \<Rightarrow> string list \<Rightarrow> ClientApp \<Rightarrow> ClientApp"
where
  "bootstrap_loop profile workers schedules i [] app = app"
| "bootstrap_loop profile workers schedules i (command # rest) app =
     (let app = client_log [''[client] bootstrap> '' @ command] app;
          app = app\<lparr>ca_load := run_workers (workers i) (ca_load app)\<rparr>;
          app = snd (process_client_command profile (schedules i) command app)
      in if ca_should_exit app then app else bootstrap_loop profile workers schedules (i + 1) rest app)"

definition client_output :: "TransportSettings \<Rightarrow> RuntimeProfile \<Rightarrow> ClientInput \<Rightarrow> ClientApp \<Rightarrow> ClientApp" where
  "client_output cfg profile input app =
     (let (messages, load) = lg_drain (run_workers (ci_workers input) (ca_load app));
          session = queue_generated messages (ca_session app);
          (sent, session) = poll_loop cfg (ci_clock input) 0 (unat (rp_poll_budget profile)) session;
          app = app\<lparr>ca_load := load, ca_session := session, ca_sent := ca_sent app @ sent\<rparr>;
          app = drain_client_events app;
          app = (if \<not> ca_bootstrap_applied app \<and> s_connection_state (ca_session app) = Established
                 then (bootstrap_loop profile (ci_bootstrap_workers input) (ci_bootstrap_schedules input) 0
                        (ca_bootstrap_commands app) app)
                        \<lparr>ca_bootstrap_applied := True\<rparr>
                 else app)
      in if s_connection_state (ca_session app) = Reset
         then (client_log [''[client] session entered Reset, exiting''] app)\<lparr>ca_should_exit := True\<rparr>
         else app)"

text \<open>
  One pass of the loop. Leaving it by \<open>break\<close> and ending it by \<open>should_exit\<close> have the same effect, the
  flag stands for both.
\<close>

definition client_iteration ::
  "TransportSettings \<Rightarrow> RuntimeProfile \<Rightarrow> ClientInput \<Rightarrow> ClientApp \<Rightarrow> ClientApp"
where
  "client_iteration cfg profile input app =
     (let app = app\<lparr>ca_load := run_workers (ci_workers_before input) (ca_load app)\<rparr> in
      if ci_stop_requested input then app\<lparr>ca_should_exit := True\<rparr>
      else if ci_select_failed input then app\<lparr>ca_should_exit := True\<rparr>
      else
        let app = app\<lparr>ca_session := client_receive cfg (ci_datagrams input) (ca_session app)\<rparr>;
            app = client_stdin profile (ci_stdin input) (ci_stop_schedule input) app
        in if ca_should_exit app then app else client_output cfg profile input app)"

fun client_loop ::
  "TransportSettings \<Rightarrow> RuntimeProfile \<Rightarrow> ClientInput list \<Rightarrow> ClientApp \<Rightarrow> ClientApp"
where
  "client_loop cfg profile [] app = app"
| "client_loop cfg profile (input # inputs) app =
     (if ca_should_exit app then app
      else client_loop cfg profile inputs (client_iteration cfg profile input app))"

definition client_start ::
  "RuntimeProfile \<Rightarrow> environment \<Rightarrow> files \<Rightarrow> bool \<Rightarrow> u32 \<Rightarrow> u32 \<Rightarrow> ClientApp"
where
  "client_start profile getenv fs isatty rd1 rd2 =
     (let (commands, lines) = load_bootstrap_commands getenv fs in
      \<lparr>ca_session = Session_random Client rd1 rd2,
       ca_load = empty_generator,
       ca_bootstrap_commands = commands,
       ca_bootstrap_applied = (commands = []),
       ca_stdin_enabled = isatty,
       ca_should_exit = False,
       ca_log = lines @
         [''client targeting '' @ rp_remote_address profile @ '':'' @ to_string (rp_remote_port profile),
          if isatty
          then ''type a line to send it on the default channel; use: send <channel> <message>, '' @
               ''/spawn <channel> <threads> <count> <interval-ms> <payload>, /workers, '' @
               ''/stop-load, /channels, /quit''
          else ''[client] stdin is not interactive; runtime commands disabled''],
       ca_sent = []\<rparr>)"

definition client_finish :: "nat list \<Rightarrow> nat list \<Rightarrow> ClientApp \<Rightarrow> ClientApp" where
  "client_finish workers schedule app =
     (client_log [format_session_summary ''[client]'' (s_stats (ca_session app))] app)
       \<lparr>ca_load := stop_all schedule (run_workers workers (ca_load app))\<rparr>"

section \<open>The contracts it keeps\<close>

interpretation client_channels: channel_directory find_channel default_channel
  by unfold_locales (auto simp: find_channel_def default_channel_def hd_conv_nth split: list.splits)

interpretation client_main: main_loop "\<lambda>input app. Some (client_iteration cfg profile input app)" ca_should_exit
  "\<lambda>inputs app. Some (client_loop cfg profile inputs app)" for cfg profile
  by unfold_locales simp_all

end
