(* ===== verification/Client_Spec.thy ===== *)
theory Client_Spec
  imports Client_App
begin

text \<open>
  What the client application promises: whatever the peer, the terminal, the clock and the load workers
  do, its session is only ever used as the session's own theory assumes, so that everything proved of
  reachable sessions holds of the session of the running client; what it sends per pass is bounded;
  and the command language means what the help text says.
\<close>

section \<open>The load queue carries named channels only\<close>

definition load_named :: "LoadGenerator \<Rightarrow> bool" where
  "load_named lg \<longleftrightarrow> list_all (\<lambda>w. named_channel (w_channel_type w)) (lg_workers lg) \<and>
     list_all (\<lambda>m. named_channel (qs_channel_type m)) (lg_queue lg)"

lemma load_named_empty [simp]: "load_named empty_generator"
  by (simp add: load_named_def empty_generator_def)

lemma list_all_update: "list_all P xs \<Longrightarrow> P x \<Longrightarrow> list_all P (xs[i := x])"
  using set_update_subset_insert [of xs i x] by (auto simp: list_all_iff)

lemma load_named_step:
  assumes "load_named lg"
  shows "load_named (worker_step i lg)"
proof (cases "i < length (lg_workers lg)")
  case True
  then have "named_channel (w_channel_type (lg_workers lg ! i))"
    using assms by (simp add: load_named_def list_all_length)
  then show ?thesis using assms True
    by (simp add: load_named_def worker_step_def Let_def worker_message_def list_all_update
        split: WorkerPhase.splits)
qed (use assms in \<open>simp add: worker_step_def\<close>)

lemma load_named_run: "load_named lg \<Longrightarrow> load_named (run_workers schedule lg)"
  by (induction schedule lg rule: run_workers.induct) (auto intro: load_named_step)

lemma load_named_finish: "load_named lg \<Longrightarrow> load_named (finish_workers schedule lg)"
  by (induction schedule lg rule: finish_workers.induct) (auto simp: finish_worker_def intro: load_named_step)

lemma load_named_stop:
  assumes "load_named lg"
  shows "load_named (stop_all schedule lg)"
proof -
  have "load_named (finish_workers (schedule @ [0..<length (lg_workers lg)]) (lg\<lparr>lg_stop_requested := True\<rparr>))"
    using assms by (intro load_named_finish) (simp add: load_named_def)
  then show ?thesis by (simp add: stop_all_def Let_def load_named_def)
qed

lemma load_named_spawn:
  "load_named lg \<Longrightarrow> named_channel (chn_type channel) \<Longrightarrow> load_named (spawn channel threads messages payload lg)"
  by (auto simp: load_named_def spawn_def spawn_loop_workers list_all_iff new_worker_def)

section \<open>The session of the client\<close>

abbreviation session_reachable :: "TransportSettings \<Rightarrow> SessionState \<Rightarrow> bool" where
  "session_reachable cfg \<equiv> reachable session_init (session_step cfg)"

lemma reachable_session_step:
  "session_reachable cfg s \<Longrightarrow> session_step cfg s s' \<Longrightarrow> session_reachable cfg s'"
  by (rule reach_step)

lemma reachable_queue:
  "session_reachable cfg s \<Longrightarrow> named_channel t \<Longrightarrow> session_reachable cfg (queue_send c t payload s)"
  by (erule reachable_session_step) (rule step_queue)

lemma reachable_poll:
  "session_reachable cfg s \<Longrightarrow> poll_tx cfg now s = (out, s') \<Longrightarrow> session_reachable cfg s'"
  by (erule reachable_session_step) (rule step_poll)

lemma reachable_receive: "session_reachable cfg s \<Longrightarrow> session_reachable cfg (client_receive cfg ds s)"
  by (induction cfg ds s rule: client_receive.induct) (auto intro: reachable_session_step step_datagram)

lemma reachable_generated:
  "session_reachable cfg s \<Longrightarrow> list_all (\<lambda>m. named_channel (qs_channel_type m)) ms \<Longrightarrow>
   session_reachable cfg (queue_generated ms s)"
  by (induction ms s rule: queue_generated.induct) (auto intro: reachable_queue)

lemma poll_loop_length: "poll_loop cfg clock i budget s = (sent, s') \<Longrightarrow> length sent \<le> budget"
  by (induction budget arbitrary: i s sent s') (auto split: prod.splits option.splits)

lemma poll_loop_reachable:
  "session_reachable cfg s \<Longrightarrow> poll_loop cfg clock i budget s = (sent, s') \<Longrightarrow> session_reachable cfg s'"
proof (induction budget arbitrary: i s sent s')
  case (Suc budget)
  obtain out s1 where p: "poll_tx cfg (clock i) s = (out, s1)" by fastforce
  note r = reachable_poll [OF Suc.prems(1) p]
  show ?case
  proof (cases out)
    case None
    then show ?thesis using Suc.prems(2) p r by simp
  next
    case (Some bs)
    obtain sent1 s2 where q: "poll_loop cfg clock (i + 1) budget s1 = (sent1, s2)" by fastforce
    from Suc.IH [OF r q] show ?thesis using Suc.prems(2) p q Some by simp
  qed
qed simp

lemma reachable_drain:
  "session_reachable cfg s \<Longrightarrow> drain_events s = (events, s') \<Longrightarrow> session_reachable cfg s'"
  by (erule reachable_session_step) (rule step_drain)

definition client_inv :: "TransportSettings \<Rightarrow> ClientApp \<Rightarrow> bool" where
  "client_inv cfg app \<longleftrightarrow> session_reachable cfg (ca_session app) \<and> load_named (ca_load app)"

lemma cli_profile_channels:
  assumes "cli_profile fs file_exists getenv argv g_settings = CliRun settings profile"
  shows "rp_channels profile \<noteq> []" "list_all (\<lambda>c. named_channel (chn_type c)) (rp_channels profile)"
proof -
  obtain path loaded where l: "load_runtime_profile_from_yaml fs path settings = Inr loaded"
    and p: "profile = apply_log_path_override getenv (apply_connection_overrides getenv loaded)"
    using assms by (auto simp: cli_profile_def split: prod.splits sum.splits if_splits)
  have "rp_channels profile = rp_channels loaded"
    by (simp add: p apply_log_path_override_def apply_connection_overrides_def Let_def split: option.splits)
  then show "rp_channels profile \<noteq> []" "list_all (\<lambda>c. named_channel (chn_type c)) (rp_channels profile)"
    using loaded_profile_fit [OF l] by (simp_all add: profile_ok_def)
qed

lemma parsed_channels_named:
  assumes "channels_usable profile"
  shows "parse_client_send_command profile line = Some (c, payload) \<Longrightarrow> named_channel (chn_type c)"
    and "parse_spawn_command profile line = Some command \<Longrightarrow> named_channel (chn_type (sc_channel command))"
  using client_channels.usable [OF assms]
  by (auto simp: parse_client_send_command_def parse_spawn_command_def Let_def
      split: if_splits option.splits prod.splits)

lemma client_inv_log [simp]: "client_inv cfg (client_log lines app) = client_inv cfg app"
  by (simp add: client_inv_def client_log_def)

lemma client_inv_flags [simp]:
  "client_inv cfg (app\<lparr>ca_should_exit := b\<rparr>) = client_inv cfg app"
  "client_inv cfg (app\<lparr>ca_stdin_enabled := b\<rparr>) = client_inv cfg app"
  "client_inv cfg (app\<lparr>ca_bootstrap_applied := b\<rparr>) = client_inv cfg app"
  by (simp_all add: client_inv_def)

lemma client_inv_command:
  assumes "channels_usable profile" and "client_inv cfg app"
  shows "client_inv cfg (snd (process_client_command profile schedule line app))"
  using assms parsed_channels_named [OF assms(1)]
  by (auto simp: process_client_command_def split: option.splits prod.splits)
    (auto simp: client_inv_def intro: load_named_stop load_named_spawn reachable_queue)

lemma client_inv_workers:
  "client_inv cfg app \<Longrightarrow> client_inv cfg (app\<lparr>ca_load := run_workers schedule (ca_load app)\<rparr>)"
  by (simp add: client_inv_def load_named_run)

lemma client_inv_bootstrap:
  "channels_usable profile \<Longrightarrow> client_inv cfg app \<Longrightarrow>
   client_inv cfg (bootstrap_loop profile workers schedules i commands app)"
proof (induction profile workers schedules i commands app rule: bootstrap_loop.induct)
  case (2 profile workers schedules i command rest app)
  let ?app = "client_log [''[client] bootstrap> '' @ command] app"
  have "client_inv cfg ?app" using "2.prems" by simp
  note inv = client_inv_command [OF "2.prems"(1) client_inv_workers [OF this, of "workers i"],
      of "schedules i" command]
  with 2 show ?case by (simp only: bootstrap_loop.simps Let_def split: if_split) blast
qed simp

lemma client_inv_stdin:
  "channels_usable profile \<Longrightarrow> client_inv cfg app \<Longrightarrow> client_inv cfg (client_stdin profile stdin schedule app)"
  by (auto simp: client_stdin_def client_inv_command split: option.splits)

lemma client_inv_drain: "client_inv cfg app \<Longrightarrow> client_inv cfg (drain_client_events app)"
  by (auto simp: drain_client_events_def split: prod.splits)
    (auto simp: client_inv_def intro: reachable_drain)

lemma client_inv_output:
  assumes "channels_usable profile" and "client_inv cfg app"
  shows "client_inv cfg (client_output cfg profile input app)"
proof -
  obtain messages load where d: "lg_drain (run_workers (ci_workers input) (ca_load app)) = (messages, load)"
    by fastforce
  obtain sent session where p: "poll_loop cfg (ci_clock input) 0 (unat (rp_poll_budget profile))
      (queue_generated messages (ca_session app)) = (sent, session)" by fastforce
  have l: "load_named (run_workers (ci_workers input) (ca_load app))"
    using assms(2) by (intro load_named_run) (simp add: client_inv_def)
  then have "load_named load" "list_all (\<lambda>m. named_channel (qs_channel_type m)) messages"
    using d by (auto simp: lg_drain_def load_named_def)
  then have "client_inv cfg (app\<lparr>ca_load := load, ca_session := session, ca_sent := ca_sent app @ sent\<rparr>)"
    using assms(2) poll_loop_reachable [OF reachable_generated p] by (simp add: client_inv_def)
  note inv = client_inv_drain [OF this]
  show ?thesis
    using inv client_inv_bootstrap [OF assms(1) inv] by (simp add: client_output_def d p Let_def)
qed

lemma client_inv_iteration:
  assumes "channels_usable profile" and "client_inv cfg app"
  shows "client_inv cfg (client_iteration cfg profile input app)"
proof -
  let ?app = "app\<lparr>ca_load := run_workers (ci_workers_before input) (ca_load app)\<rparr>"
  note inv = client_inv_workers [OF assms(2), of "ci_workers_before input"]
  have recv: "client_inv cfg (?app\<lparr>ca_session := client_receive cfg (ci_datagrams input) (ca_session ?app)\<rparr>)"
    using inv by (simp add: client_inv_def reachable_receive)
  show ?thesis
    using inv client_inv_stdin [OF assms(1) recv] client_inv_output [OF assms(1) client_inv_stdin [OF assms(1) recv]]
    by (simp add: client_iteration_def Let_def)
qed

lemma client_inv_loop:
  assumes "channels_usable profile" and "client_inv cfg app"
  shows "client_inv cfg (client_loop cfg profile inputs app)"
  by (rule client_main.run_inv [where P = "client_inv cfg", OF _ assms(2) refl])
    (auto intro: client_inv_iteration [OF assms(1)])

lemma client_inv_start: "client_inv cfg (client_start profile getenv fs isatty rd1 rd2)"
  by (auto simp: client_inv_def client_start_def Session_random_def session_init_def
      intro!: reach_init exI [of _ Client] split: prod.splits)

text \<open>
  C17. The program composes: when start-up loads a client profile and the client runs, then after any
  number of passes, whatever datagrams arrive, whatever is typed, however the clock runs and the load
  workers are scheduled, its session is one a fresh session reaches by its own operations, and so its
  in-flight window is bounded; every channel it can send on is one the codec accepts.
\<close>

theorem client_session_reachable:
  assumes "cli_profile fs file_exists getenv argv g_settings = CliRun settings profile"
    and "app = client_loop (st_transport settings) profile inputs (client_start profile getenv fs isatty rd1 rd2)"
  shows "reachable session_init (session_step (st_transport settings)) (ca_session app) \<and>
    length (tx_inflight (s_tx (ca_session app))) \<le> kReliableWindowSize \<and>
    list_all (\<lambda>c. named_channel (chn_type c)) (rp_channels profile)"
proof -
  have c: "channels_usable profile" using cli_profile_channels [OF assms(1)] by (simp add: channels_usable_def)
  have r: "session_reachable (st_transport settings) (ca_session app)"
    using client_inv_loop [OF c client_inv_start] by (simp add: assms(2) client_inv_def)
  from session_sys.reachable_inv [OF this]
  have "inflight_inv (st_transport settings) (tx_next_seq (s_tx (ca_session app)))
      (tx_remote_ack (s_tx (ca_session app))) (tx_inflight (s_tx (ca_session app)))"
    by (simp add: session_inv_def tx_inv_def)
  from inflight_inv_length [OF this] r c show ?thesis
    by (simp add: channels_usable_def kReliableWindowSize_def)
qed

lemma no_overrides:
  "apply_log_path_override (\<lambda>_. None) p = p" "apply_connection_overrides (\<lambda>_. None) p = p"
  by (simp_all add: apply_log_path_override_def apply_connection_overrides_def apply_string_override_def
      apply_u16_override_def)

lemma cli_profile_printed:
  assumes "profile_ok p" and "profile_printable p"
  shows "cli_profile (\<lambda>_. Some (print_profile p)) (\<lambda>_. False) (\<lambda>_. None) [''rudp'', ''profile.yaml''] g_settings =
    CliRun g_settings p"
  using print_profile_loads [of "\<lambda>_. Some (print_profile p)" "''profile.yaml''" p g_settings] assms
  by (simp add: cli_profile_def parse_args_def no_overrides)

theorem client_session_reachable_witness:
  "length (tx_inflight (s_tx (ca_session (client_loop default_transport sample_profile
     [\<lparr>ci_stop_requested = False, ci_workers_before = [], ci_select_failed = False,
       ci_datagrams = [([1, 2, 3], 4)], ci_stdin = Some (Some ''/spawn chat 1 1 0 x''), ci_stop_schedule = [],
       ci_workers = [0, 0], ci_clock = (\<lambda>i. 5), ci_bootstrap_workers = (\<lambda>i. []), ci_bootstrap_schedules = (\<lambda>i. [])\<rparr>]
     (client_start sample_profile (\<lambda>_. None) (\<lambda>_. None) True 7 8))))) \<le> kReliableWindowSize"
proof -
  have st: "st_transport default_settings = default_transport" by (simp add: default_settings_def)
  have start: "client_start sample_profile (\<lambda>_. None) (\<lambda>_. None) True 7 8 =
      client_start sample_profile (\<lambda>_. None) (\<lambda>_. Some (print_profile sample_profile)) True 7 8"
    by (simp add: client_start_def load_bootstrap_commands_def)
  show ?thesis
    using client_session_reachable [OF cli_profile_printed [OF sample_profile_ok, of default_settings] refl]
    unfolding st start by blast
qed

section \<open>Commands\<close>

lemma queue_send_pending:
  "tx_pending_send (s_tx (queue_send c t payload s)) =
     tx_pending_send (s_tx s) @ [\<lparr>sr_channel_id = c, sr_channel_type = t, sr_payload = payload\<rparr>]"
  by (simp add: queue_send_def queue_app_data_def copy_payload_def)

lemma send_command_line:
  assumes "CHR '' '' \<notin> set token" and "find_channel profile token = Some c"
  shows "process_client_command profile schedule (''send '' @ token @ '' '' @ payload) app =
    (True, app\<lparr>ca_session := queue_send (chn_id c) (chn_type c) (bytes_of_text payload) (ca_session app)\<rparr>)"
proof -
  have "find_char (CHR '' '') (token @ CHR '' '' # payload) = Some (length token)"
    using assms(1) by (rule find_char_append)
  then show ?thesis using assms(2)
    by (simp add: process_client_command_def parse_spawn_command_def parse_client_send_command_def
        starts_with_def)
qed

text \<open>
  The client's send command means what its help text says: \<open>send <channel> <message>\<close> appends the
  bytes of the message, spaces included, to the session's send queue on the first channel with that
  name; and if no channel has the name, a decimal number selects the channel with that id. Nothing is
  logged and nothing else changes.
\<close>

lemma client_send_command:
  assumes "CHR '' '' \<notin> set name" and "find (\<lambda>c. chn_name c = name) (rp_channels profile) = Some c"
    and "find (\<lambda>c. chn_name c = to_string i) (rp_channels profile) = None"
    and "find (\<lambda>c. chn_id c = i) (rp_channels profile) = Some d"
  shows "process_client_command profile schedule (''send '' @ name @ '' '' @ payload) app =
      (True, app\<lparr>ca_session := queue_send (chn_id c) (chn_type c) (bytes_of_text payload) (ca_session app)\<rparr>) \<and>
    process_client_command profile schedule (''send '' @ to_string i @ '' '' @ payload) app =
      (True, app\<lparr>ca_session := queue_send i (chn_type d) (bytes_of_text payload) (ca_session app)\<rparr>) \<and>
    tx_pending_send (s_tx (queue_send i (chn_type d) (bytes_of_text payload) s)) = tx_pending_send (s_tx s) @
      [\<lparr>sr_channel_id = i, sr_channel_type = chn_type d, sr_payload = bytes_of_text payload\<rparr>] \<and>
    text_of_bytes (bytes_of_text payload) = payload"
proof -
  have "chn_id d = i" using find_member [OF assms(4)] by simp
  moreover have "CHR '' '' \<notin> set (to_string i)"
    using decimal_digits [of "unat i"] by (auto simp: to_string_def list_all_iff isdigit_def)
  ultimately show ?thesis
    using send_command_line [OF assms(1) client_channels.by_name [OF assms(2)]]
      send_command_line [OF _ client_channels.lookup_id [OF assms(3,4)]] queue_send_pending by simp
qed

end
