(* ===== verification/Server_App.thy ===== *)
theory Server_App
  imports Manager_Spec Runtime_Logger Client_App
begin

text \<open>
  Model of \<open>src/BsdServerApp.cpp\<close>: the server's bookkeeping of sessions for its operator, its command
  language and its main loop around the session manager. As for the client, one pass of the loop is a
  function of the state and of what the world supplies; a pass has no result (\<open>None\<close>) only when the
  random draws supplied for a new connection id run out. The iteration order of \<open>active_endpoints\<close> is
  the order of its association list.
\<close>

section \<open>Events\<close>

record ServerApp =
  sa_manager :: ServerSessionManager
  sa_preferred_conn_id :: "u32 option"
  sa_active_endpoints :: "(u32, EndpointKey) unordered_map"
  sa_stdin_enabled :: bool
  sa_should_exit :: bool
  sa_log :: Log
  sa_sent :: "OutboundDatagram list"

definition server_log :: "Log \<Rightarrow> ServerApp \<Rightarrow> ServerApp" where
  "server_log lines app = app\<lparr>sa_log := sa_log app @ lines\<rparr>"

definition endpoint_text :: "EndpointKey \<Rightarrow> string" where
  "endpoint_text endpoint = ek_address endpoint @ '':'' @ to_string (ek_port endpoint)"

definition server_event_line :: "ServerSessionManager \<Rightarrow> ServerSessionEvent \<Rightarrow> string" where
  "server_event_line manager wrapped =
     (let prefix = ''[server] endpoint='' @ endpoint_text (se_endpoint wrapped);
          prefix = (case se_conn_id wrapped of
                      Some conn_id \<Rightarrow> prefix @ '' conn_id='' @ to_string conn_id
                    | None \<Rightarrow> prefix)
      in format_session_event prefix (se_event wrapped) @
         (case se_conn_id wrapped of
            Some conn_id \<Rightarrow>
              (case active_stats conn_id manager of
                 Some stats \<Rightarrow> format_session_stats stats
               | None \<Rightarrow> [])
          | None \<Rightarrow> []))"

definition ends_session :: "SessionEventType \<Rightarrow> bool" where
  "ends_session type = (type = ConnectionReset \<or> type = ConnectionClosed \<or> type = ErrorEvent)"

definition server_event :: "ServerSessionEvent \<Rightarrow> ServerApp \<Rightarrow> ServerApp" where
  "server_event wrapped app =
     (let app = (case se_conn_id wrapped of
                   Some conn_id \<Rightarrow>
                     app\<lparr>sa_preferred_conn_id := Some conn_id,
                         sa_active_endpoints :=
                           umap_assign conn_id (se_endpoint wrapped) (sa_active_endpoints app)\<rparr>
                 | None \<Rightarrow> app);
          app = server_log [server_event_line (sa_manager app) wrapped] app
      in case se_conn_id wrapped of
           Some conn_id \<Rightarrow>
             if ends_session (ev_type (se_event wrapped)) then
               app\<lparr>sa_active_endpoints := map_erase conn_id (sa_active_endpoints app),
                   sa_preferred_conn_id :=
                     (if sa_preferred_conn_id app = Some conn_id then None
                      else sa_preferred_conn_id app)\<rparr>
             else app
         | None \<Rightarrow> app)"

fun server_events :: "ServerSessionEvent list \<Rightarrow> ServerApp \<Rightarrow> ServerApp" where
  "server_events [] app = app"
| "server_events (wrapped # rest) app = server_events rest (server_event wrapped app)"

definition drain_server_events :: "ServerApp \<Rightarrow> ServerApp" where
  "drain_server_events app =
     (let (events, manager) = ssm_drain_events (sa_manager app)
      in server_events events (app\<lparr>sa_manager := manager\<rparr>))"

section \<open>Channels and summaries\<close>

definition server_default_channel :: "RuntimeProfile \<Rightarrow> ChannelDefinition option" where
  "server_default_channel profile =
     (case find chn_is_default (rp_channels profile) of
        Some channel \<Rightarrow> Some channel
      | None \<Rightarrow> (case rp_channels profile of [] \<Rightarrow> None | first # _ \<Rightarrow> Some first))"

definition server_find_channel :: "RuntimeProfile \<Rightarrow> string \<Rightarrow> ChannelDefinition option" where
  "server_find_channel profile token =
     (case find (\<lambda>channel. chn_name channel = token) (rp_channels profile) of
        Some channel \<Rightarrow> Some channel
      | None \<Rightarrow>
          (case stoul token of
             None \<Rightarrow> None
           | Some v \<Rightarrow> find (\<lambda>channel. chn_id channel = ucast v) (rp_channels profile)))"

definition server_log_channels :: "RuntimeProfile \<Rightarrow> Log" where
  "server_log_channels profile = map (channel_line ''[server]'') (rp_channels profile)"

definition log_server_summaries :: "ServerApp \<Rightarrow> Log" where
  "log_server_summaries app =
     (if sa_active_endpoints app = [] then [''[server] summary no-active-sessions'']
      else
        List.map_filter (\<lambda>(conn_id, endpoint).
          map_option (format_session_summary (''[server] endpoint='' @ endpoint_text endpoint @
              '' conn_id='' @ to_string conn_id))
            (active_stats conn_id (sa_manager app)))
          (sa_active_endpoints app))"

section \<open>Commands\<close>

record ServerSendCommand =
  ss_conn_id :: u32
  ss_channel :: ChannelDefinition
  ss_payload :: string

definition parse_server_send_command ::
  "RuntimeProfile \<Rightarrow> string \<Rightarrow> u32 option \<Rightarrow> ServerSendCommand option"
where
  "parse_server_send_command profile line preferred_conn_id =
     (let prefix = ''send '' in
      if starts_with prefix line then
        let rest = drop (length prefix) line in
        (case find_char (CHR '' '') rest of
           None \<Rightarrow> None
         | Some first_space \<Rightarrow>
             (case find_char_from (CHR '' '') rest (first_space + 1) of
                None \<Rightarrow> None
              | Some second_space \<Rightarrow>
                  (case stoul (take first_space rest) of
                     None \<Rightarrow> None
                   | Some conn_id \<Rightarrow>
                       (case server_find_channel profile
                               (substr rest (first_space + 1) (second_space - first_space - 1)) of
                          None \<Rightarrow> None
                        | Some channel \<Rightarrow>
                            Some \<lparr>ss_conn_id = ucast conn_id, ss_channel = channel,
                                  ss_payload = drop (second_space + 1) rest\<rparr>))))
      else
        (case preferred_conn_id of
           None \<Rightarrow> None
         | Some conn_id \<Rightarrow>
             (case server_default_channel profile of
                None \<Rightarrow> None
              | Some channel \<Rightarrow>
                  Some \<lparr>ss_conn_id = conn_id, ss_channel = channel, ss_payload = line\<rparr>)))"

text \<open>\<open>line\<close> is what \<open>getline\<close> reads, None at the end of the input.\<close>

definition handle_server_stdin :: "RuntimeProfile \<Rightarrow> string option \<Rightarrow> ServerApp \<Rightarrow> ServerApp" where
  "handle_server_stdin profile line app =
     (case line of
        None \<Rightarrow> app\<lparr>sa_should_exit := True\<rparr>
      | Some line \<Rightarrow>
          if line = ''/quit'' then app\<lparr>sa_should_exit := True\<rparr>
          else if line = ''/sessions'' then
            server_log
              (if sa_active_endpoints app = [] then [''[server] no active sessions'']
               else map (\<lambda>(conn_id, endpoint). ''[server] active conn_id='' @ to_string conn_id @
                      '' endpoint='' @ endpoint_text endpoint) (sa_active_endpoints app)) app
          else if line = ''/channels'' then server_log (server_log_channels profile) app
          else
            (case parse_server_send_command profile line (sa_preferred_conn_id app) of
               None \<Rightarrow>
                 server_log [''[server] unable to resolve target session; use: send <conn_id> '' @
                   ''<channel> <message>''] app
             | Some command \<Rightarrow>
                 let (queued, manager) = ssm_queue_send (ss_conn_id command)
                       (chn_id (ss_channel command)) (chn_type (ss_channel command))
                       (bytes_of_text (ss_payload command)) (sa_manager app);
                     app = app\<lparr>sa_manager := manager\<rparr>
                 in if \<not> queued
                    then server_log [''[server] unknown active conn_id='' @ to_string (ss_conn_id command)] app
                    else app))"

section \<open>The main loop\<close>

record ServerDatagram =
  sd_endpoint :: EndpointKey
  sd_bytes :: bytes
  sd_now :: u64
  sd_draws :: "u32 list"

record ServerInput =
  si_stop_requested :: bool
  si_select_failed :: bool
  si_datagrams :: "ServerDatagram list"
  si_stdin_ready :: bool
  si_stdin_good :: bool
  si_line :: "string option"
  si_stdin_good_after :: bool
  si_now :: u64

fun server_receive :: "TransportSettings \<Rightarrow> ServerDatagram list \<Rightarrow> ServerApp \<Rightarrow> ServerApp option" where
  "server_receive cfg [] app = Some app"
| "server_receive cfg (received # rest) app =
     (case ssm_on_datagram_received cfg (sd_draws received) (sd_endpoint received) (sd_bytes received)
             (sd_now received) (sa_manager app) of
        None \<Rightarrow> None
      | Some manager \<Rightarrow>
          server_receive cfg rest (drain_server_events (app\<lparr>sa_manager := manager\<rparr>)))"

definition server_stdin :: "RuntimeProfile \<Rightarrow> ServerInput \<Rightarrow> ServerApp \<Rightarrow> ServerApp" where
  "server_stdin profile input app =
     (if sa_stdin_enabled app \<and> si_stdin_ready input then
        if \<not> si_stdin_good input then app\<lparr>sa_stdin_enabled := False\<rparr>
        else
          let app = handle_server_stdin profile (si_line input) app
          in if \<not> si_stdin_good_after input then app\<lparr>sa_stdin_enabled := False\<rparr> else app
      else app)"

definition server_output :: "TransportSettings \<Rightarrow> u64 \<Rightarrow> ServerApp \<Rightarrow> ServerApp" where
  "server_output cfg now app =
     (let (outbound, manager) = ssm_poll_tx cfg now (sa_manager app)
      in drain_server_events (app\<lparr>sa_manager := manager, sa_sent := sa_sent app @ outbound\<rparr>))"

definition server_iteration ::
  "TransportSettings \<Rightarrow> RuntimeProfile \<Rightarrow> ServerInput \<Rightarrow> ServerApp \<Rightarrow> ServerApp option"
where
  "server_iteration cfg profile input app =
     (if si_stop_requested input then Some (app\<lparr>sa_should_exit := True\<rparr>)
      else if si_select_failed input then Some (app\<lparr>sa_should_exit := True\<rparr>)
      else
        case server_receive cfg (si_datagrams input) app of
          None \<Rightarrow> None
        | Some app \<Rightarrow> Some (server_output cfg (si_now input) (server_stdin profile input app)))"

fun server_loop ::
  "TransportSettings \<Rightarrow> RuntimeProfile \<Rightarrow> ServerInput list \<Rightarrow> ServerApp \<Rightarrow> ServerApp option"
where
  "server_loop cfg profile [] app = Some app"
| "server_loop cfg profile (input # inputs) app =
     (if sa_should_exit app then Some app
      else case server_iteration cfg profile input app of
             None \<Rightarrow> None
           | Some app \<Rightarrow> server_loop cfg profile inputs app)"

definition server_start :: "RuntimeProfile \<Rightarrow> bool \<Rightarrow> ServerApp" where
  "server_start profile isatty =
     \<lparr>sa_manager = empty_manager, sa_preferred_conn_id = None, sa_active_endpoints = [],
      sa_stdin_enabled = isatty, sa_should_exit = False,
      sa_log =
        [''server listening on '' @ rp_bind_address profile @ '':'' @ to_string (rp_bind_port profile),
         if isatty
         then ''type a line to send on the default channel, or use: send <conn_id> <channel> '' @
              ''<message>, /channels''
         else ''[server] stdin is not interactive; runtime commands disabled''],
      sa_sent = []\<rparr>"

section \<open>The contracts it keeps\<close>

interpretation server_channels: channel_directory server_find_channel server_default_channel
  by unfold_locales (auto simp: server_find_channel_def server_default_channel_def split: list.splits)

interpretation server_main: main_loop "server_iteration cfg profile" sa_should_exit
  "server_loop cfg profile" for cfg profile
  by unfold_locales (simp_all split: option.splits)

end
