(* ===== verification/Server_Spec.thy ===== *)
theory Server_Spec
  imports Server_App Client_Spec
begin

text \<open>
  What the server application promises: its manager is only ever used as the manager's theory assumes,
  so that everything proved of reachable managers holds of the running server; its preferred session
  is one of those it lists. And what it does not: it keeps listing sessions that are gone.
\<close>

section \<open>The manager of the server\<close>

abbreviation manager_reachable :: "TransportSettings \<Rightarrow> ServerSessionManager \<Rightarrow> bool" where
  "manager_reachable cfg \<equiv> reachable manager_init (manager_step cfg)"

lemma reachable_manager_step:
  "manager_reachable cfg m \<Longrightarrow> manager_step cfg m m' \<Longrightarrow> manager_reachable cfg m'"
  by (rule reach_step)

definition listing_ok :: "ServerApp \<Rightarrow> bool" where
  "listing_ok app \<longleftrightarrow> umap_ok (sa_active_endpoints app) \<and>
     (\<forall>c. sa_preferred_conn_id app = Some c \<longrightarrow> map_find (sa_active_endpoints app) c \<noteq> None)"

definition server_inv :: "TransportSettings \<Rightarrow> ServerApp \<Rightarrow> bool" where
  "server_inv cfg app \<longleftrightarrow> manager_reachable cfg (sa_manager app) \<and> listing_ok app"

lemma server_log_frame [simp]:
  "sa_manager (server_log lines app) = sa_manager app"
  "sa_active_endpoints (server_log lines app) = sa_active_endpoints app"
  "sa_preferred_conn_id (server_log lines app) = sa_preferred_conn_id app"
  by (simp_all add: server_log_def)

lemma listing_ok_cong:
  "sa_active_endpoints app' = sa_active_endpoints app \<Longrightarrow> sa_preferred_conn_id app' = sa_preferred_conn_id app \<Longrightarrow>
   listing_ok app' = listing_ok app"
  by (simp add: listing_ok_def)

lemma server_event_manager [simp]: "sa_manager (server_event wrapped app) = sa_manager app"
  by (simp add: server_event_def Let_def split: option.splits)

lemma server_event_listing: "listing_ok app \<Longrightarrow> listing_ok (server_event wrapped app)"
  by (auto simp: listing_ok_def server_event_def Let_def umap.lookup_assign umap.lookup_erase
      umap.ok_assign umap.ok_erase split: option.splits)

lemma server_events_sound:
  "sa_manager (server_events events app) = sa_manager app"
  "listing_ok app \<Longrightarrow> listing_ok (server_events events app)"
  by (induction events app rule: server_events.induct) (simp_all add: server_event_listing)

lemma server_inv_drain:
  assumes "server_inv cfg app"
  shows "server_inv cfg (drain_server_events app)"
proof -
  obtain events m where d: "ssm_drain_events (sa_manager app) = (events, m)" by fastforce
  have "manager_reachable cfg m"
    using assms d by (auto simp: server_inv_def intro: reachable_manager_step ms_drain)
  moreover have "listing_ok (app\<lparr>sa_manager := m\<rparr>)"
    using assms by (simp add: server_inv_def listing_ok_def)
  ultimately show ?thesis
    by (simp add: drain_server_events_def d server_inv_def server_events_sound)
qed

lemma server_inv_receive:
  "server_inv cfg app \<Longrightarrow> server_receive cfg ds app = Some app' \<Longrightarrow> server_inv cfg app'"
proof (induction cfg ds app rule: server_receive.induct)
  case (2 cfg d ds app)
  obtain m where m: "ssm_on_datagram_received cfg (sd_draws d) (sd_endpoint d) (sd_bytes d) (sd_now d)
      (sa_manager app) = Some m" using 2(3) by (auto split: option.splits)
  have "manager_reachable cfg m"
    using 2(2) m by (auto simp: server_inv_def intro: reachable_manager_step ms_datagram)
  then have "server_inv cfg (drain_server_events (app\<lparr>sa_manager := m\<rparr>))"
    using 2(2) by (intro server_inv_drain) (simp add: server_inv_def listing_ok_def)
  then show ?case using 2(1) [OF m] 2(3) m by simp
qed simp

lemma parsed_server_channel_named:
  assumes "channels_usable profile" and "parse_server_send_command profile line preferred = Some command"
  shows "named_channel (chn_type (ss_channel command))"
  using assms(2) server_channels.usable [OF assms(1)]
  by (auto simp: parse_server_send_command_def Let_def split: if_splits option.splits)

lemma server_inv_frame:
  "server_inv cfg app \<Longrightarrow> server_inv cfg (server_log lines app)"
  "server_inv cfg app \<Longrightarrow> server_inv cfg (app\<lparr>sa_should_exit := b\<rparr>)"
  "server_inv cfg app \<Longrightarrow> server_inv cfg (app\<lparr>sa_stdin_enabled := b\<rparr>)"
  by (simp_all add: server_inv_def listing_ok_def)

lemma server_inv_queue:
  assumes "server_inv cfg app" and "named_channel t"
    and "ssm_queue_send c ch t payload (sa_manager app) = (ok, m)"
  shows "server_inv cfg (app\<lparr>sa_manager := m\<rparr>)"
  using assms by (auto simp: server_inv_def listing_ok_def intro: reachable_manager_step ms_queue)

lemma server_inv_stdin:
  assumes "channels_usable profile" and "server_inv cfg app"
  shows "server_inv cfg (server_stdin profile input app)"
proof -
  have "server_inv cfg (handle_server_stdin profile line app)" for line
    using assms(2) parsed_server_channel_named [OF assms(1)]
    by (auto simp: handle_server_stdin_def server_inv_frame Let_def
        intro!: server_inv_frame intro: server_inv_queue split: option.splits prod.splits)
  then show ?thesis using assms(2) by (auto simp: server_stdin_def Let_def intro: server_inv_frame)
qed

lemma server_inv_output:
  assumes "server_inv cfg app"
  shows "server_inv cfg (server_output cfg now app)"
proof -
  obtain out m where p: "ssm_poll_tx cfg now (sa_manager app) = (out, m)" by fastforce
  have "manager_reachable cfg m"
    using assms p by (auto simp: server_inv_def intro: reachable_manager_step ms_poll)
  then show ?thesis
    using assms unfolding server_output_def p Let_def split
    by (intro server_inv_drain) (simp add: server_inv_def listing_ok_def)
qed

lemma server_inv_iteration:
  assumes "channels_usable profile" and "server_inv cfg app"
    and "server_iteration cfg profile input app = Some app'"
  shows "server_inv cfg app'"
  using assms
  by (auto simp: server_iteration_def server_inv_frame split: if_splits option.splits
      intro!: server_inv_output server_inv_stdin dest: server_inv_receive)

lemma server_inv_loop:
  assumes "channels_usable profile" and "server_inv cfg app"
    and "server_loop cfg profile inputs app = Some app'"
  shows "server_inv cfg app'"
  by (rule server_main.run_inv [where P = "server_inv cfg", OF _ assms(2,3)])
    (rule server_inv_iteration [OF assms(1)])

lemma server_inv_start: "server_inv cfg (server_start profile isatty)"
  by (auto simp: server_inv_def server_start_def listing_ok_def manager_init_def intro!: reach_init)

text \<open>
  C18. The server composes: with a profile that start-up loaded, after any number of passes, whatever
  datagrams arrive from wherever, whatever is typed and however the clock runs, the manager is in a
  state a fresh manager reaches by its own operations (so that its table is consistent and refines the
  abstract one), and the session that typed lines go to is one of the sessions listed.
\<close>

theorem server_manager_reachable:
  assumes "cli_profile fs file_exists getenv argv g_settings = CliRun settings profile"
    and "server_loop (st_transport settings) profile inputs (server_start profile isatty) = Some app"
  shows "reachable manager_init (manager_step (st_transport settings)) (sa_manager app) \<and>
    (\<forall>c. sa_preferred_conn_id app = Some c \<longrightarrow> map_find (sa_active_endpoints app) c \<noteq> None)"
proof -
  have "channels_usable profile" using cli_profile_channels [OF assms(1)] by (simp add: channels_usable_def)
  from server_inv_loop [OF this server_inv_start assms(2)] show ?thesis
    by (simp add: server_inv_def listing_ok_def)
qed

definition sample_server_profile :: RuntimeProfile where
  "sample_server_profile = sample_profile\<lparr>rp_mode := ServerMode, rp_remote_address := [], rp_remote_port := 0\<rparr>"

lemma sample_server_profile_ok: "profile_ok sample_server_profile" "profile_printable sample_server_profile"
  using sample_profile_ok by (simp_all add: profile_ok_def profile_printable_def sample_server_profile_def one_line_def)

theorem server_manager_reachable_witness:
  "\<exists>app. server_loop default_transport sample_server_profile
     [\<lparr>si_stop_requested = False, si_select_failed = False, si_datagrams = [], si_stdin_ready = True,
       si_stdin_good = True, si_line = Some ''/sessions'', si_stdin_good_after = True, si_now = 5\<rparr>]
     (server_start sample_server_profile True) = Some app \<and>
   reachable manager_init (manager_step default_transport) (sa_manager app)"
proof -
  have st: "st_transport default_settings = default_transport" by (simp add: default_settings_def)
  obtain app where app: "server_loop default_transport sample_server_profile
     [\<lparr>si_stop_requested = False, si_select_failed = False, si_datagrams = [], si_stdin_ready = True,
       si_stdin_good = True, si_line = Some ''/sessions'', si_stdin_good_after = True, si_now = 5\<rparr>]
     (server_start sample_server_profile True) = Some app"
    by (simp add: server_start_def server_iteration_def)
  then show ?thesis
    using server_manager_reachable [OF cli_profile_printed [OF sample_server_profile_ok, of default_settings],
        unfolded st, OF app] by blast
qed

section \<open>Sessions that are gone\<close>

lemma drain_pending_conn_ids:
  "ev \<in> set (snd (drain_pending_loop ps)) \<Longrightarrow> se_conn_id ev = Some c \<Longrightarrow> c \<in> (\<lambda>p. s_conn_id (snd p)) ` set ps"
  by (induction ps rule: drain_pending_loop.induct)
    (auto simp: Let_def drain_events_def rx_drain_events_def split: prod.splits if_splits)

lemma drain_active_conn_ids:
  "ev \<in> set (snd (drain_active_loop idx active)) \<Longrightarrow> se_conn_id ev = Some c \<Longrightarrow> c \<in> snd ` set idx"
proof (induction idx arbitrary: active)
  case (Cons p idx)
  obtain e c' where p: "p = (e, c')" by fastforce
  show ?case
  proof (cases "map_find active c'")
    case None
    then show ?thesis using Cons by (simp add: p)
  next
    case (Some s)
    then show ?thesis
      using Cons.prems Cons.IH [of "map_modify c' (\<lambda>_. snd (drain_events s)) active"]
      by (auto simp: p split_beta)
  qed
qed simp

lemma drained_not_retired:
  assumes "manager_inv cfg m" and "c \<in> retired_conn_ids m" and "ev \<in> set (fst (ssm_drain_events m))"
  shows "se_conn_id ev \<noteq> Some c"
proof
  assume c: "se_conn_id ev = Some c"
  have ok: "table_ok m" using assms(1) by (simp add: manager_inv_def)
  from assms(3) consider "ev \<in> set (snd (drain_pending_loop (pending_by_endpoint m)))"
    | "ev \<in> set (snd (drain_active_loop (active_conn_id_by_endpoint m) (active_by_conn_id m)))"
    by (auto simp: ssm_drain_events_def split: prod.splits)
  then show False
  proof cases
    case 1
    from drain_pending_conn_ids [OF this c] have "c \<in> snd ` set (pending_ids m)"
      by (force simp: pending_ids_def)
    then show False using ok assms(2) ids_ok_pendingD by fastforce
  next
    case 2
    from drain_active_conn_ids [OF this c] show False using ok assms(2) ids_ok_indexD by fastforce
  qed
qed

lemma server_events_keep:
  "(\<And>ev. ev \<in> set events \<Longrightarrow> se_conn_id ev \<noteq> Some c) \<Longrightarrow> umap_ok (sa_active_endpoints app) \<Longrightarrow>
   map_find (sa_active_endpoints (server_events events app)) c = map_find (sa_active_endpoints app) c"
proof (induction events app rule: server_events.induct)
  case (2 wrapped rest app)
  have "map_find (sa_active_endpoints (server_event wrapped app)) c = map_find (sa_active_endpoints app) c"
    "umap_ok (sa_active_endpoints (server_event wrapped app))"
    using 2(2) [of wrapped] 2(3)
    by (auto simp: server_event_def Let_def umap.lookup_assign umap.lookup_erase umap.ok_assign
        umap.ok_erase split: option.splits)
  then show ?case using 2 by simp
qed simp

text \<open>An id that is retired but still listed stays so.\<close>

definition stale :: "TransportSettings \<Rightarrow> u32 \<Rightarrow> ServerApp \<Rightarrow> bool" where
  "stale cfg c app \<longleftrightarrow> server_inv cfg app \<and> c \<in> retired_conn_ids (sa_manager app) \<and>
     map_find (sa_active_endpoints app) c \<noteq> None"

lemma stale_manager:
  assumes "stale cfg c app" and "manager_step cfg (sa_manager app) m"
    and "sa_manager app' = m" and "sa_active_endpoints app' = sa_active_endpoints app"
    and "sa_preferred_conn_id app' = sa_preferred_conn_id app"
  shows "stale cfg c app'"
proof -
  have "manager_reachable cfg (sa_manager app)" using assms(1) by (simp add: stale_def server_inv_def)
  then have "manager_reachable cfg m" "retired_conn_ids (sa_manager app) \<subseteq> retired_conn_ids m"
    using assms(2) manager_sys.reachable_inv retired_mono by (blast intro: reachable_manager_step)+
  then show ?thesis using assms by (auto simp: stale_def server_inv_def listing_ok_def)
qed

lemma stale_drain:
  assumes "server_inv cfg app" and "c \<in> retired_conn_ids (sa_manager app)"
    and "map_find (sa_active_endpoints app) c \<noteq> None"
  shows "stale cfg c (drain_server_events app)"
proof -
  obtain events m where d: "ssm_drain_events (sa_manager app) = (events, m)" by fastforce
  have inv: "manager_inv cfg (sa_manager app)"
    using assms(1) manager_sys.reachable_inv by (auto simp: server_inv_def)
  have "se_conn_id ev \<noteq> Some c" if "ev \<in> set events" for ev
    using drained_not_retired [OF inv assms(2)] that by (simp add: d)
  then have "map_find (sa_active_endpoints (drain_server_events app)) c = map_find (sa_active_endpoints app) c"
    using assms(1) server_events_keep [of events c "app\<lparr>sa_manager := m\<rparr>"]
    by (simp add: drain_server_events_def d server_inv_def listing_ok_def)
  moreover have "retired_conn_ids (sa_manager app) \<subseteq> retired_conn_ids m"
    using retired_mono [OF inv ms_drain [OF d]] .
  ultimately show ?thesis
    using server_inv_drain [OF assms(1)] assms(2,3)
    by (auto simp: stale_def drain_server_events_def d server_events_sound)
qed

lemma stale_drained: "stale cfg c app \<Longrightarrow> stale cfg c (drain_server_events app)"
  by (rule stale_drain) (auto simp: stale_def)

lemma stale_receive:
  "stale cfg c app \<Longrightarrow> server_receive cfg ds app = Some app' \<Longrightarrow> stale cfg c app'"
proof (induction cfg ds app rule: server_receive.induct)
  case (2 cfg d ds app)
  obtain m where m: "ssm_on_datagram_received cfg (sd_draws d) (sd_endpoint d) (sd_bytes d) (sd_now d)
      (sa_manager app) = Some m" using 2(3) by (auto split: option.splits)
  have "stale cfg c (app\<lparr>sa_manager := m\<rparr>)"
    using stale_manager [OF 2(2) ms_datagram [OF m]] by simp
  then show ?case using 2(1) [OF m] 2(3) m stale_drained by simp
qed simp

lemma stale_frame:
  "stale cfg c app \<Longrightarrow> stale cfg c (server_log lines app)"
  "stale cfg c app \<Longrightarrow> stale cfg c (app\<lparr>sa_should_exit := b\<rparr>)"
  "stale cfg c app \<Longrightarrow> stale cfg c (app\<lparr>sa_stdin_enabled := b\<rparr>)"
  by (simp_all add: stale_def server_inv_frame)

lemma stale_stdin:
  assumes "channels_usable profile" and "stale cfg c app"
  shows "stale cfg c (server_stdin profile input app)"
proof -
  have "stale cfg c (app\<lparr>sa_manager := m\<rparr>)"
    if "parse_server_send_command profile line pref = Some command"
      and "ssm_queue_send k ch (chn_type (ss_channel command)) payload (sa_manager app) = (ok, m)"
    for line pref command k ch payload ok m
    using stale_manager [OF assms(2) ms_queue [OF parsed_server_channel_named [OF assms(1) that(1)] that(2)]]
    by simp
  then have "stale cfg c (handle_server_stdin profile line app)" for line
    using assms(2) by (auto simp: handle_server_stdin_def Let_def
        intro!: stale_frame split: option.splits prod.splits)
  then show ?thesis using assms(2) by (auto simp: server_stdin_def Let_def intro: stale_frame)
qed

lemma stale_iteration:
  assumes "channels_usable profile" and "stale cfg c app" and "server_iteration cfg profile input app = Some app'"
  shows "stale cfg c app'"
proof -
  have out: "stale cfg c (server_output cfg now app)" if "stale cfg c app" for now app
  proof -
    obtain out m where p: "ssm_poll_tx cfg now (sa_manager app) = (out, m)" by fastforce
    have "stale cfg c (app\<lparr>sa_manager := m, sa_sent := sa_sent app @ out\<rparr>)"
      using stale_manager [OF that ms_poll [OF p]] by simp
    then show ?thesis using stale_drained by (simp add: server_output_def p)
  qed
  show ?thesis
    using assms by (auto simp: server_iteration_def split: if_splits option.splits
        intro!: out stale_stdin stale_frame dest: stale_receive)
qed

lemma stale_loop:
  assumes "channels_usable profile" and "stale cfg c app"
    and "server_loop cfg profile inputs app = Some app'"
  shows "stale cfg c app'"
  by (rule server_main.run_inv [where P = "stale cfg c", OF _ assms(2,3)])
    (rule stale_iteration [OF assms(1)])

lemma stale_inactive:
  assumes "stale cfg c app"
  shows "\<not> has_active_session c (sa_manager app)"
proof -
  have "table_ok (sa_manager app)"
    using assms manager_sys.reachable_inv by (auto simp: stale_def server_inv_def manager_inv_def)
  then have "c \<notin> set (active_ids (sa_manager app))" using assms by (auto simp: stale_def ids_ok_def)
  then show ?thesis
    by (simp add: has_active_session_def find_active_session_def map_find_None_iff active_ids_def)
qed

lemma rst_makes_stale:
  assumes "server_inv cfg app" and "active_conn_id e (sa_manager app) = Some c"
    and "map_find (sa_active_endpoints app) c \<noteq> None"
    and "decode (sd_bytes d) = Some pv" and "h_conn_id (pv_header pv) = c"
    and "classify_control_kind (pv_header pv) = KindRst" and "sd_endpoint d = e"
    and "server_receive cfg (d # rest) app = Some app'"
  shows "stale cfg c app'"
proof -
  obtain m where m: "ssm_on_datagram_received cfg (sd_draws d) e (sd_bytes d) (sd_now d)
      (sa_manager app) = Some m" using assms(7,8) by (auto split: option.splits)
  have r: "manager_reachable cfg (sa_manager app)" using assms(1) by (simp add: server_inv_def)
  have gone: "c \<in> retired_conn_ids m"
    using rst_ends_session [OF r assms(2) assms(4-6) m] by simp
  have "server_inv cfg (app\<lparr>sa_manager := m\<rparr>)"
    using assms(1) reachable_manager_step [OF r ms_datagram [OF m]] by (simp add: server_inv_def listing_ok_def)
  then have "stale cfg c (drain_server_events (app\<lparr>sa_manager := m\<rparr>))"
    using gone assms(3) by (intro stale_drain) simp_all
  then show ?thesis using stale_receive assms(7,8) m by simp
qed

text \<open>
  C40. The server never learns that a connection was reset. The RST of a connected peer ends its session
  and the manager removes it, queued event included, before the events are drained; and since the id
  is never used again, no later event removes it from the application's list either: in every later
  state of the run the session does not exist and is still listed.
\<close>

theorem dead_session_listed_forever:
  assumes "cli_profile fs file_exists getenv argv g_settings = CliRun settings profile"
    and "server_loop (st_transport settings) profile earlier (server_start profile isatty) = Some app"
    and "\<not> sa_should_exit app" and "\<not> si_stop_requested input" and "\<not> si_select_failed input"
    and "active_conn_id e (sa_manager app) = Some c" and "map_find (sa_active_endpoints app) c \<noteq> None"
    and "si_datagrams input = d # rest" and "sd_endpoint d = e" and "decode (sd_bytes d) = Some pv"
    and "h_conn_id (pv_header pv) = c" and "classify_control_kind (pv_header pv) = KindRst"
    and "server_loop (st_transport settings) profile (input # later) app = Some app'"
  shows "\<not> has_active_session c (sa_manager app') \<and> map_find (sa_active_endpoints app') c \<noteq> None"
proof -
  let ?cfg = "st_transport settings"
  have ch: "channels_usable profile" using cli_profile_channels [OF assms(1)] by (simp add: channels_usable_def)
  have inv: "server_inv ?cfg app" by (rule server_inv_loop [OF ch server_inv_start assms(2)])
  obtain app1 where r: "server_receive ?cfg (d # rest) app = Some app1"
    and l: "server_loop ?cfg profile later (server_output ?cfg (si_now input) (server_stdin profile input app1))
      = Some app'"
    using assms(3-5,8,13) by (auto simp: server_iteration_def split: option.splits)
  have s: "stale ?cfg c app1"
    by (rule rst_makes_stale [OF inv assms(6,7,10-12,9) r])
  have "server_iteration ?cfg profile (input\<lparr>si_datagrams := []\<rparr>) app1 =
      Some (server_output ?cfg (si_now input) (server_stdin profile input app1))"
    using assms(4,5) by (simp add: server_iteration_def server_stdin_def)
  from stale_loop [OF ch stale_iteration [OF ch s this] l] show ?thesis
    using stale_inactive by (auto simp: stale_def)
qed

definition sample_input :: "(bytes \<times> u64 \<times> u32 list) list \<Rightarrow> ServerInput" where
  "sample_input ds =
     \<lparr>si_stop_requested = False, si_select_failed = False,
      si_datagrams = map (\<lambda>(bs, now, rd). \<lparr>sd_endpoint = sample_endpoint, sd_bytes = bs, sd_now = now,
        sd_draws = rd\<rparr>) ds,
      si_stdin_ready = False, si_stdin_good = True, si_line = None, si_stdin_good_after = True, si_now = 6\<rparr>"

definition drained_sample :: SessionState where
  "drained_sample = snd (drain_events active_sample)"

definition polled_sample :: SessionState where
  "polled_sample = snd (poll_tx default_transport 6 drained_sample)"

lemma sample_sessions:
  "rx_pending_events (s_rx pending_sample) = []"
  "map ev_type (fst (drain_events active_sample)) = [Connected]"
  "fst (poll_tx default_transport 6 drained_sample) = None"
  "s_connection_state polled_sample = Established"
  "rx_pending_events (s_rx polled_sample) = []"
  by code_simp+

lemma drain_no_events: "rx_pending_events (s_rx s) = [] \<Longrightarrow> drain_events s = ([], s)"
  by (simp add: drain_events_def rx_drain_events_def)

lemma sample_server_established:
  "\<exists>app. server_loop default_transport sample_server_profile
      [sample_input [(sample_syn, 5, [1, 2, 3, 4]), (sample_ack 0x30004, 6, [])]]
      (server_start sample_server_profile False) = Some app \<and>
    active_conn_id sample_endpoint (sa_manager app) = Some 0x30004 \<and>
    map_find (sa_active_endpoints app) 0x30004 \<noteq> None \<and> \<not> sa_should_exit app \<and>
    has_active_session 0x30004 (sa_manager app)"
proof -
  obtain ev where ev: "drain_events active_sample = ([ev], drained_sample)" "ev_type ev = Connected"
    using sample_sessions(2) by (cases "drain_events active_sample") (auto simp: drained_sample_def)
  have p: "poll_tx default_transport 6 drained_sample = (None, polled_sample)"
    using sample_sessions(3) by (simp add: polled_sample_def prod_eq_iff)
  let ?m3 = "sample_manager2\<lparr>active_by_conn_id := [(0x30004, drained_sample)]\<rparr>"
  let ?m4 = "sample_manager2\<lparr>active_by_conn_id := [(0x30004, polled_sample)]\<rparr>"
  have d1: "ssm_drain_events sample_manager1 = ([], sample_manager1)"
    by (simp add: ssm_drain_events_def sample_manager1_def empty_manager_def
        drain_no_events [OF sample_sessions(1)])
  have d2: "ssm_drain_events sample_manager2 =
      ([\<lparr>se_endpoint = sample_endpoint, se_conn_id = Some 0x30004, se_event = ev\<rparr>], ?m3)"
    by (simp add: ssm_drain_events_def sample_manager2_def empty_manager_def ev map_find_def map_modify_def)
  have p3: "ssm_poll_tx default_transport 6 ?m3 = ([], ?m4)"
    by (simp add: ssm_poll_tx_def sample_manager2_def empty_manager_def map_find_def map_modify_def p
        sample_sessions(4) is_terminal_state_def find_active_session_def)
  have d4: "ssm_drain_events ?m4 = ([], ?m4)"
    by (simp add: ssm_drain_events_def sample_manager2_def empty_manager_def map_find_def map_modify_def
        drain_no_events [OF sample_sessions(5)])
  show ?thesis
    by (simp add: sample_input_def server_iteration_def server_start_def sample_manager1_step
        sample_manager2_step drain_server_events_def d1 d2 d4 p3 server_stdin_def server_output_def
        server_event_def server_log_def ev(2) ends_session_def umap_assign_def map_find_def
        active_conn_id_def has_active_session_def find_active_session_def) (simp add: sample_manager2_def)
qed

theorem dead_session_listed_forever_witness:
  "\<exists>app app'. server_loop default_transport sample_server_profile
      [sample_input [(sample_syn, 5, [1, 2, 3, 4]), (sample_ack 0x30004, 6, [])]]
      (server_start sample_server_profile False) = Some app \<and>
    server_loop default_transport sample_server_profile [sample_input [(sample_rst 0x30004, 7, [])]] app = Some app' \<and>
    \<not> has_active_session 0x30004 (sa_manager app') \<and> map_find (sa_active_endpoints app') 0x30004 \<noteq> None"
proof -
  have st: "st_transport default_settings = default_transport" by (simp add: default_settings_def)
  obtain app where app: "server_loop default_transport sample_server_profile
      [sample_input [(sample_syn, 5, [1, 2, 3, 4]), (sample_ack 0x30004, 6, [])]]
      (server_start sample_server_profile False) = Some app"
    and a: "active_conn_id sample_endpoint (sa_manager app) = Some 0x30004"
      "map_find (sa_active_endpoints app) 0x30004 \<noteq> None" "\<not> sa_should_exit app"
      "has_active_session 0x30004 (sa_manager app)"
    using sample_server_established by blast
  have k: "classify_control_kind (default_header\<lparr>h_conn_id := 0x30004, h_flags := 4\<rparr>) = KindRst"
    by (simp add: classify_control_kind_def hasFlag_def)
  obtain app' where app': "server_loop default_transport sample_server_profile
      [sample_input [(sample_rst 0x30004, 7, [])]] app = Some app'"
    using a(1,3,4) by (auto simp: sample_input_def server_iteration_def ssm_on_datagram_received_def
        decode_sample_control default_header_def route_existing_active_def has_active_session_def
        is_active_endpoint_match_def active_conn_id_def try_dispatch_active_def Let_def)
  let ?d = "\<lparr>sd_endpoint = sample_endpoint, sd_bytes = sample_rst 0x30004, sd_now = 7, sd_draws = []\<rparr>"
  have i: "\<not> si_stop_requested (sample_input ds)" "\<not> si_select_failed (sample_input ds)"
    "si_datagrams (sample_input [(sample_rst 0x30004, 7, [])]) = ?d # []" for ds
    by (simp_all add: sample_input_def)
  from dead_session_listed_forever [OF cli_profile_printed [OF sample_server_profile_ok, of default_settings],
      unfolded st, OF app a(3) i(1,2) a(1,2) i(3) _ _ _ _ app'] k app app'
  show ?thesis by (auto simp: decode_sample_control)
qed
end
