(* ===== verification/Udp_Socket.thy ===== *)
theory Udp_Socket
  imports Server_Session_Manager Std_String
begin

text \<open>
  Model of \<open>src/BsdUdpSocket.cpp\<close>, the owner of one UDP socket. The operating system is a parameter: a
  record of the system calls the class makes, each a function on the state \<open>'w\<close> of the world. What the
  class relies on (\<open>socket\<close> returns a fresh descriptor, \<open>close\<close> releases it, \<open>recvfrom\<close> discards what does
  not fit the buffer) are hypotheses of the theorems that need it.
\<close>

section \<open>The system calls\<close>

text \<open>The port of a \<open>sockaddr_in\<close> is in network byte order: the two bytes as they lie in memory.\<close>

record sockaddr_in =
  sin_addr :: u32
  sin_port :: "u8 \<times> u8"

definition ntohs :: "u8 \<times> u8 \<Rightarrow> u16" where
  "ntohs p = push_bit 8 (ucast (fst p)) OR ucast (snd p)"

datatype errno = EAGAIN | EWOULDBLOCK | OtherError int

datatype recv_outcome = RecvFailed errno | RecvOk (recv_count: nat) (recv_buffer: bytes) (recv_addr: sockaddr_in)

record 'w posix =
  sys_socket :: "'w \<Rightarrow> int \<times> 'w"
  sys_getfl :: "int \<Rightarrow> 'w \<Rightarrow> int \<times> 'w"
  sys_setfl :: "int \<Rightarrow> int \<Rightarrow> 'w \<Rightarrow> int \<times> 'w"
  sys_reuseaddr :: "int \<Rightarrow> 'w \<Rightarrow> 'w"
  sys_getaddrinfo :: "string \<Rightarrow> string \<Rightarrow> 'w \<Rightarrow> (int \<times> sockaddr_in list) \<times> 'w"
  sys_bind :: "int \<Rightarrow> sockaddr_in \<Rightarrow> 'w \<Rightarrow> int \<times> 'w"
  sys_sendto :: "int \<Rightarrow> bytes \<Rightarrow> sockaddr_in \<Rightarrow> 'w \<Rightarrow> int \<times> 'w"
  sys_recvfrom :: "int \<Rightarrow> nat \<Rightarrow> 'w \<Rightarrow> recv_outcome \<times> 'w"
  sys_inet_ntop :: "u32 \<Rightarrow> string option"
  sys_close :: "int \<Rightarrow> 'w \<Rightarrow> 'w"
  sys_perror :: "string \<Rightarrow> 'w \<Rightarrow> 'w"
  sys_cerr :: "string \<Rightarrow> 'w \<Rightarrow> 'w"
  o_nonblock :: int

text \<open>A C string ends at the first zero byte.\<close>

definition c_str :: "string \<Rightarrow> string" where
  "c_str s = takeWhile (\<lambda>c. c \<noteq> CHR 0x00) s"

text \<open>\<open>std::vector::resize\<close>.\<close>

definition resize :: "nat \<Rightarrow> bytes \<Rightarrow> bytes" where
  "resize n bs = take n bs @ replicate (n - length bs) 0"

section \<open>The socket\<close>

record ReceivedDatagram =
  rd_endpoint :: EndpointKey
  rd_bytes :: bytes

record BsdUdpSocket =
  sock_fd :: int

definition default_socket :: BsdUdpSocket where
  "default_socket = \<lparr>sock_fd = - 1\<rparr>"

definition make_sockaddr :: "'w posix \<Rightarrow> string \<Rightarrow> u16 \<Rightarrow> 'w \<Rightarrow> sockaddr_in option \<times> 'w" where
  "make_sockaddr os address port w =
     (let service = to_string port;
          ((status, result), w) = sys_getaddrinfo os (c_str address) (c_str service) w
      in if status \<noteq> 0 \<or> result = [] then (None, w) else (Some (hd result), w))"

definition sock_close :: "'w posix \<Rightarrow> BsdUdpSocket \<Rightarrow> 'w \<Rightarrow> BsdUdpSocket \<times> 'w" where
  "sock_close os s w =
     (if 0 \<le> sock_fd s then (s\<lparr>sock_fd := - 1\<rparr>, sys_close os (sock_fd s) w) else (s, w))"

definition sock_destroy :: "'w posix \<Rightarrow> BsdUdpSocket \<Rightarrow> 'w \<Rightarrow> 'w" where
  "sock_destroy os s w = snd (sock_close os s w)"

text \<open>The move constructor returns the new socket and what is left of the old one.\<close>

definition sock_move :: "BsdUdpSocket \<Rightarrow> BsdUdpSocket \<times> BsdUdpSocket" where
  "sock_move other = (\<lparr>sock_fd = sock_fd other\<rparr>, other\<lparr>sock_fd := - 1\<rparr>)"

text \<open>
  Move assignment between two distinct objects. The operator compares the addresses first: assigning an
  object to itself changes nothing, the step \<open>self_assign\<close> below.
\<close>

definition sock_move_assign ::
  "'w posix \<Rightarrow> BsdUdpSocket \<Rightarrow> BsdUdpSocket \<Rightarrow> 'w \<Rightarrow> (BsdUdpSocket \<times> BsdUdpSocket) \<times> 'w"
where
  "sock_move_assign os this other w =
     (let (this, w) = sock_close os this w
      in ((this\<lparr>sock_fd := sock_fd other\<rparr>, other\<lparr>sock_fd := - 1\<rparr>), w))"

definition create_non_blocking :: "'w posix \<Rightarrow> 'w \<Rightarrow> BsdUdpSocket option \<times> 'w" where
  "create_non_blocking os w =
     (let (fd, w) = sys_socket os w in
      if fd < 0 then (None, sys_perror os ''socket'' w)
      else
        let (current_flags, w) = sys_getfl os fd w in
        if current_flags < 0 then (None, sys_close os fd (sys_perror os ''fcntl'' w))
        else
          let (status, w) = sys_setfl os fd (current_flags OR o_nonblock os) w in
          if status < 0 then (None, sys_close os fd (sys_perror os ''fcntl'' w))
          else (Some \<lparr>sock_fd = fd\<rparr>, w))"

definition sock_bind :: "'w posix \<Rightarrow> string \<Rightarrow> u16 \<Rightarrow> BsdUdpSocket \<Rightarrow> 'w \<Rightarrow> bool \<times> 'w" where
  "sock_bind os address port s w =
     (case make_sockaddr os address port w of
        (None, w) \<Rightarrow> (False, sys_cerr os (''Invalid IPv4 address: '' @ address @ [newline]) w)
      | (Some addr, w) \<Rightarrow>
          let w = sys_reuseaddr os (sock_fd s) w;
              (status, w) = sys_bind os (sock_fd s) addr w
          in if status < 0 then (False, sys_perror os ''bind'' w) else (True, w))"

definition send_to :: "'w posix \<Rightarrow> EndpointKey \<Rightarrow> bytes \<Rightarrow> BsdUdpSocket \<Rightarrow> 'w \<Rightarrow> bool \<times> 'w" where
  "send_to os endpoint bs s w =
     (case make_sockaddr os (ek_address endpoint) (ek_port endpoint) w of
        (None, w) \<Rightarrow>
          (False, sys_cerr os (''Invalid endpoint address: '' @ ek_address endpoint @ [newline]) w)
      | (Some addr, w) \<Rightarrow>
          let (sent, w) = sys_sendto os (sock_fd s) bs addr w
          in if sent < 0 then (False, sys_perror os ''sendto'' w) else (True, w))"

definition recv_from :: "'w posix \<Rightarrow> nat \<Rightarrow> BsdUdpSocket \<Rightarrow> 'w \<Rightarrow> ReceivedDatagram option \<times> 'w" where
  "recv_from os buffer_size s w =
     (case sys_recvfrom os (sock_fd s) buffer_size w of
        (RecvFailed err, w) \<Rightarrow>
          if err = EAGAIN \<or> err = EWOULDBLOCK then (None, w) else (None, sys_perror os ''recvfrom'' w)
      | (RecvOk received buffer addr, w) \<Rightarrow>
          (case sys_inet_ntop os (sin_addr addr) of
             None \<Rightarrow> (None, sys_perror os ''inet_ntop'' w)
           | Some address \<Rightarrow>
               (Some \<lparr>rd_endpoint = \<lparr>ek_address = address, ek_port = ntohs (sin_port addr)\<rparr>,
                      rd_bytes = resize received buffer\<rparr>, w)))"

definition native_handle :: "BsdUdpSocket \<Rightarrow> int" where
  "native_handle s = sock_fd s"

section \<open>Ownership of the descriptor\<close>

text \<open>What POSIX promises of the descriptors in use.\<close>

definition fd_laws :: "'w posix \<Rightarrow> ('w \<Rightarrow> int set) \<Rightarrow> bool" where
  "fd_laws os open_fds \<longleftrightarrow>
     (\<forall>w fd w'. sys_socket os w = (fd, w') \<longrightarrow>
        (if fd < 0 then open_fds w' = open_fds w
         else fd \<notin> open_fds w \<and> open_fds w' = insert fd (open_fds w))) \<and>
     (\<forall>fd w. open_fds (sys_close os fd w) = open_fds w - {fd}) \<and>
     (\<forall>fd w. open_fds (snd (sys_getfl os fd w)) = open_fds w) \<and>
     (\<forall>fd flags w. open_fds (snd (sys_setfl os fd flags w)) = open_fds w) \<and>
     (\<forall>fd w. open_fds (sys_reuseaddr os fd w) = open_fds w) \<and>
     (\<forall>node service w. open_fds (snd (sys_getaddrinfo os node service w)) = open_fds w) \<and>
     (\<forall>fd addr w. open_fds (snd (sys_bind os fd addr w)) = open_fds w) \<and>
     (\<forall>fd bs addr w. open_fds (snd (sys_sendto os fd bs addr w)) = open_fds w) \<and>
     (\<forall>fd n w. open_fds (snd (sys_recvfrom os fd n w)) = open_fds w) \<and>
     (\<forall>what w. open_fds (sys_perror os what w) = open_fds w) \<and>
     (\<forall>what w. open_fds (sys_cerr os what w) = open_fds w)"

text \<open>A program that uses sockets: its live objects by name, and the world.\<close>

type_synonym 'w socket_program = "(nat \<rightharpoonup> BsdUdpSocket) \<times> 'w"

inductive socket_step :: "'w posix \<Rightarrow> 'w socket_program \<Rightarrow> 'w socket_program \<Rightarrow> bool" for os :: "'w posix" where
  construct: "x \<notin> dom objs \<Longrightarrow> socket_step os (objs, w) (objs(x \<mapsto> default_socket), w)"
| create: "x \<notin> dom objs \<Longrightarrow> create_non_blocking os w = (Some s, w') \<Longrightarrow>
    socket_step os (objs, w) (objs(x \<mapsto> s), w')"
| create_failed: "create_non_blocking os w = (None, w') \<Longrightarrow> socket_step os (objs, w) (objs, w')"
| move: "x \<notin> dom objs \<Longrightarrow> objs y = Some other \<Longrightarrow> sock_move other = (this, rest) \<Longrightarrow>
    socket_step os (objs, w) (objs(y \<mapsto> rest, x \<mapsto> this), w)"
| move_assign: "x \<noteq> y \<Longrightarrow> objs x = Some this \<Longrightarrow> objs y = Some other \<Longrightarrow>
    sock_move_assign os this other w = ((this', rest), w') \<Longrightarrow>
    socket_step os (objs, w) (objs(y \<mapsto> rest, x \<mapsto> this'), w')"
| self_assign: "objs x = Some s \<Longrightarrow> socket_step os (objs, w) (objs, w)"
| destroy: "objs x = Some s \<Longrightarrow> socket_step os (objs, w) (objs(x := None), sock_destroy os s w)"
| bind: "objs x = Some s \<Longrightarrow> sock_bind os address port s w = (ok, w') \<Longrightarrow> socket_step os (objs, w) (objs, w')"
| send: "objs x = Some s \<Longrightarrow> send_to os endpoint bs s w = (ok, w') \<Longrightarrow> socket_step os (objs, w) (objs, w')"
| recv: "objs x = Some s \<Longrightarrow> recv_from os n s w = (received, w') \<Longrightarrow> socket_step os (objs, w) (objs, w')"

inductive_cases socket_stepE: "socket_step os p p'"

definition owned :: "(nat \<rightharpoonup> BsdUdpSocket) \<Rightarrow> int set" where
  "owned objs = {fd. 0 \<le> fd \<and> (\<exists>x s. objs x = Some s \<and> sock_fd s = fd)}"

definition socket_inv :: "('w \<Rightarrow> int set) \<Rightarrow> int set \<Rightarrow> 'w socket_program \<Rightarrow> bool" where
  "socket_inv open_fds others p \<longleftrightarrow>
     open_fds (snd p) = others \<union> owned (fst p) \<and> others \<inter> owned (fst p) = {} \<and>
     (\<forall>x y s t. fst p x = Some s \<and> fst p y = Some t \<and> sock_fd s = sock_fd t \<and> 0 \<le> sock_fd s \<longrightarrow> x = y)"

lemma fd_lawsD:
  assumes "fd_laws os open_fds"
  shows "sys_socket os w = (fd, w') \<Longrightarrow> fd < 0 \<Longrightarrow> open_fds w' = open_fds w"
    and "sys_socket os w = (fd, w') \<Longrightarrow> 0 \<le> fd \<Longrightarrow> fd \<notin> open_fds w \<and> open_fds w' = insert fd (open_fds w)"
    and "open_fds (sys_close os fd w) = open_fds w - {fd}"
    and "sys_getfl os fd w = (r, w') \<Longrightarrow> open_fds w' = open_fds w"
    and "sys_setfl os fd flags w = (r, w') \<Longrightarrow> open_fds w' = open_fds w"
    and "open_fds (sys_reuseaddr os fd w) = open_fds w"
    and "sys_getaddrinfo os node service w = (res, w') \<Longrightarrow> open_fds w' = open_fds w"
    and "sys_bind os fd addr w = (r, w') \<Longrightarrow> open_fds w' = open_fds w"
    and "sys_sendto os fd bs addr w = (r, w') \<Longrightarrow> open_fds w' = open_fds w"
    and "sys_recvfrom os fd n w = (outcome, w') \<Longrightarrow> open_fds w' = open_fds w"
    and "open_fds (sys_perror os what w) = open_fds w"
    and "open_fds (sys_cerr os what w) = open_fds w"
  using assms unfolding fd_laws_def by (metis linorder_not_le snd_conv)+

lemma make_sockaddr_fds:
  assumes "fd_laws os open_fds" and "make_sockaddr os address port w = (addr, w')"
  shows "open_fds w' = open_fds w"
  using assms(2) by (auto simp: make_sockaddr_def Let_def dest: fd_lawsD(7) [OF assms(1)]
      split: prod.splits if_splits)

lemma traffic_fds:
  assumes "fd_laws os open_fds"
  shows "sock_bind os address port s w = (ok, w') \<Longrightarrow> open_fds w' = open_fds w"
    and "send_to os endpoint bs s w = (ok, w') \<Longrightarrow> open_fds w' = open_fds w"
    and "recv_from os n s w = (received, w') \<Longrightarrow> open_fds w' = open_fds w"
proof -
  note quiet = fd_lawsD(6,11,12) [OF assms]
  show "open_fds w' = open_fds w" if b: "sock_bind os address port s w = (ok, w')"
  proof -
    obtain addr w1 where m: "make_sockaddr os address port w = (addr, w1)" by fastforce
    obtain st w2 where "sys_bind os (sock_fd s) (the addr) (sys_reuseaddr os (sock_fd s) w1) = (st, w2)" by fastforce
    with b m show ?thesis using make_sockaddr_fds [OF assms m] fd_lawsD(8) [OF assms] quiet
      by (cases addr) (auto simp: sock_bind_def Let_def split: if_splits)
  qed
  show "open_fds w' = open_fds w" if b: "send_to os endpoint bs s w = (ok, w')"
  proof -
    obtain addr w1 where m: "make_sockaddr os (ek_address endpoint) (ek_port endpoint) w = (addr, w1)" by fastforce
    obtain st w2 where "sys_sendto os (sock_fd s) bs (the addr) w1 = (st, w2)" by fastforce
    with b m show ?thesis using make_sockaddr_fds [OF assms m] fd_lawsD(9) [OF assms] quiet
      by (cases addr) (auto simp: send_to_def Let_def split: if_splits)
  qed
  show "open_fds w' = open_fds w" if b: "recv_from os n s w = (received, w')"
  proof -
    obtain outcome w1 where m: "sys_recvfrom os (sock_fd s) n w = (outcome, w1)" by fastforce
    with b show ?thesis using fd_lawsD(10) [OF assms m] quiet
      by (auto simp: recv_from_def split: recv_outcome.splits option.splits if_splits)
  qed
qed

lemma create_fds:
  assumes "fd_laws os open_fds" and "create_non_blocking os w = (created, w')"
  shows "case created of None \<Rightarrow> open_fds w' = open_fds w
    | Some s \<Rightarrow> 0 \<le> sock_fd s \<and> sock_fd s \<notin> open_fds w \<and> open_fds w' = insert (sock_fd s) (open_fds w)"
proof -
  obtain fd w1 where s: "sys_socket os w = (fd, w1)" by fastforce
  obtain flags w2 where g: "sys_getfl os fd w1 = (flags, w2)" by fastforce
  obtain st w3 where f: "sys_setfl os fd (flags OR o_nonblock os) w2 = (st, w3)" by fastforce
  show ?thesis
    using assms(2) s g f fd_lawsD(1,2) [OF assms(1) s] fd_lawsD(4) [OF assms(1) g] fd_lawsD(5) [OF assms(1) f]
    by (auto simp: create_non_blocking_def Let_def fd_lawsD(3,11) [OF assms(1)] split: if_splits)
qed

lemma close_fds:
  assumes "fd_laws os open_fds" and "sock_close os s w = (s', w')"
  shows "open_fds w' = open_fds w - (if 0 \<le> sock_fd s then {sock_fd s} else {})" and "sock_fd s' < 0"
  using assms(2) by (auto simp: sock_close_def fd_lawsD(3) [OF assms(1)] split: if_splits)

lemma owned_put:
  "x \<notin> dom objs \<Longrightarrow> owned (objs(x \<mapsto> s)) = (if 0 \<le> sock_fd s then insert (sock_fd s) (owned objs) else owned objs)"
  by (auto simp: owned_def)

lemma ownedI: "objs x = Some s \<Longrightarrow> sock_fd s = fd \<Longrightarrow> 0 \<le> fd \<Longrightarrow> fd \<in> owned objs"
  unfolding owned_def by blast

lemma ownedE:
  assumes "fd \<in> owned objs"
  obtains x s where "objs x = Some s" and "sock_fd s = fd" and "0 \<le> fd"
  using assms unfolding owned_def by blast

lemma owned_removed:
  assumes "objs x = Some s" and "\<And>y t. objs y = Some t \<Longrightarrow> sock_fd t = sock_fd s \<Longrightarrow> 0 \<le> sock_fd s \<Longrightarrow> y = x"
  shows "owned (objs(x := None)) = owned objs - (if 0 \<le> sock_fd s then {sock_fd s} else {})"
proof (intro equalityI subsetI)
  fix fd assume "fd \<in> owned (objs(x := None))"
  then obtain y t where y: "(objs(x := None)) y = Some t" "sock_fd t = fd" "0 \<le> fd" by (rule ownedE)
  then have "y \<noteq> x" "objs y = Some t" by (auto split: if_splits)
  then show "fd \<in> owned objs - (if 0 \<le> sock_fd s then {sock_fd s} else {})"
    using y assms(2) [of y t] by (auto intro: ownedI)
next
  fix fd assume fd: "fd \<in> owned objs - (if 0 \<le> sock_fd s then {sock_fd s} else {})"
  then obtain y t where y: "objs y = Some t" "sock_fd t = fd" "0 \<le> fd" by (auto elim: ownedE)
  then have "y \<noteq> x" using fd assms(1) by auto
  then show "fd \<in> owned (objs(x := None))" using y by (auto intro: ownedI [of _ y])
qed

lemma owned_moved:
  assumes "x \<noteq> y" and "objs y = Some other" and "sock_fd rest < 0" and "sock_fd this = sock_fd other"
  shows "owned (objs(y \<mapsto> rest, x \<mapsto> this)) = owned (objs(x := None))"
proof (intro equalityI subsetI)
  fix fd assume "fd \<in> owned (objs(y \<mapsto> rest, x \<mapsto> this))"
  then obtain z t where z: "(objs(y \<mapsto> rest, x \<mapsto> this)) z = Some t" "sock_fd t = fd" "0 \<le> fd" by (rule ownedE)
  then show "fd \<in> owned (objs(x := None))"
    using assms by (cases "z = x") (auto intro: ownedI [of _ y] ownedI [of _ z] split: if_splits)
next
  fix fd assume "fd \<in> owned (objs(x := None))"
  then obtain z t where z: "(objs(x := None)) z = Some t" "sock_fd t = fd" "0 \<le> fd" by (rule ownedE)
  then show "fd \<in> owned (objs(y \<mapsto> rest, x \<mapsto> this))"
    using assms by (cases "z = y") (auto intro: ownedI [of _ x] ownedI [of _ z] split: if_splits)
qed

lemma socket_step_inv:
  assumes "fd_laws os open_fds" and "socket_step os p p'" and "socket_inv open_fds others p"
  shows "socket_inv open_fds others p'"
  using assms(2)
proof cases
  case (create x objs w s w')
  then show ?thesis using assms(3) create_fds [OF assms(1) create(4)]
    by (auto simp: socket_inv_def owned_put) (auto simp: owned_def)
next
  case (create_failed w w' objs)
  then show ?thesis using assms(3) create_fds [OF assms(1) create_failed(3)] by (simp add: socket_inv_def)
next
  case (move x objs y other this rest w)
  then have xy: "x \<noteq> y" "objs(x := None) = objs" by auto
  have fds: "sock_fd rest < 0" "sock_fd this = sock_fd other" using move(5) by (auto simp: sock_move_def)
  show ?thesis using move(1,2,4) assms(3) fds owned_moved [of x y objs, OF xy(1) move(4) fds] xy
    by (auto simp: socket_inv_def)
next
  case (move_assign x y objs this other w this' rest w')
  obtain s1 where c: "sock_close os this w = (s1, w')" and r: "this' = s1\<lparr>sock_fd := sock_fd other\<rparr>"
    "rest = other\<lparr>sock_fd := - 1\<rparr>"
    using move_assign(6) by (auto simp: sock_move_assign_def split: prod.splits)
  have fds: "sock_fd rest < 0" "sock_fd this' = sock_fd other" by (simp_all add: r)
  have "owned (objs(x := None)) = owned objs - (if 0 \<le> sock_fd this then {sock_fd this} else {})"
    using assms(3) move_assign(1,4) by (intro owned_removed) (auto simp: socket_inv_def)
  then have "owned (objs(y \<mapsto> rest, x \<mapsto> this')) = owned objs - (if 0 \<le> sock_fd this then {sock_fd this} else {})"
    using owned_moved [of x y objs, OF move_assign(3,5) fds] by simp
  moreover have "sock_fd this \<notin> others" if "0 \<le> sock_fd this"
    using assms(3) move_assign(1,4) ownedI [of objs x this] that by (auto simp: socket_inv_def)
  ultimately show ?thesis using assms(3) move_assign(1-5) close_fds [OF assms(1) c] fds
    by (auto simp: socket_inv_def split: if_splits)
next
  case (destroy objs x s w)
  obtain s' w' where c: "sock_close os s w = (s', w')" by fastforce
  have "owned (objs(x := None)) = owned objs - (if 0 \<le> sock_fd s then {sock_fd s} else {})"
    using assms(3) destroy by (intro owned_removed) (auto simp: socket_inv_def)
  moreover have "sock_fd s \<notin> others" if "0 \<le> sock_fd s"
    using assms(3) destroy ownedI [of objs x s] that by (auto simp: socket_inv_def)
  ultimately show ?thesis using assms(3) destroy close_fds [OF assms(1) c]
    by (auto simp: socket_inv_def sock_destroy_def c split: if_splits)
qed (use assms(3) in \<open>auto simp: socket_inv_def owned_put default_socket_def traffic_fds [OF assms(1)]\<close>)

section \<open>A system to run on\<close>

text \<open>
  A small system that keeps the laws: descriptors are handed out in order from 3, the socket holds the
  datagrams that arrived, what is sent and logged is recorded, the resolver knows one name.
\<close>

record loop_world =
  lw_next :: nat
  lw_open :: "int set"
  lw_queue :: "(bytes \<times> sockaddr_in) list"
  lw_sent :: "(bytes \<times> sockaddr_in) list"
  lw_lines :: "string list"
  lw_stderr :: "string list"

definition loop_os :: "int \<Rightarrow> loop_world posix" where
  "loop_os bind_status =
     \<lparr>sys_socket = (\<lambda>w. (int (lw_next w), w\<lparr>lw_next := lw_next w + 1, lw_open := insert (int (lw_next w)) (lw_open w)\<rparr>)),
      sys_getfl = (\<lambda>fd w. (2, w)),
      sys_setfl = (\<lambda>fd flags w. (0, w)),
      sys_reuseaddr = (\<lambda>fd w. w),
      sys_getaddrinfo = (\<lambda>node service w.
        ((0, if node = ''127.0.0.1'' then [\<lparr>sin_addr = 0x7f000001, sin_port = (0x23, 0x28)\<rparr>] else []), w)),
      sys_bind = (\<lambda>fd addr w. (bind_status, w)),
      sys_sendto = (\<lambda>fd bs addr w. (int (length bs), w\<lparr>lw_sent := lw_sent w @ [(bs, addr)]\<rparr>)),
      sys_recvfrom = (\<lambda>fd n w. case lw_queue w of
          [] \<Rightarrow> (RecvFailed EAGAIN, w)
        | (bs, addr) # rest \<Rightarrow> (RecvOk (min n (length bs)) (take n bs @ replicate (n - length bs) 0) addr,
            w\<lparr>lw_queue := rest\<rparr>)),
      sys_inet_ntop = (\<lambda>a. Some ''127.0.0.1''),
      sys_close = (\<lambda>fd w. w\<lparr>lw_open := lw_open w - {fd}\<rparr>),
      sys_perror = (\<lambda>what w. w\<lparr>lw_stderr := lw_stderr w @ [what]\<rparr>),
      sys_cerr = (\<lambda>what w. w\<lparr>lw_stderr := lw_stderr w @ [what]\<rparr>),
      o_nonblock = 0x800\<rparr>"

text \<open>Its descriptors in use, as far as they have been handed out.\<close>

definition loop_fds :: "loop_world \<Rightarrow> int set" where
  "loop_fds w = {fd \<in> lw_open w. fd < int (lw_next w)}"

lemma loop_os_laws: "fd_laws (loop_os st) loop_fds"
  by (auto simp: fd_laws_def loop_os_def loop_fds_def split: list.splits)

definition start_world :: loop_world where
  "start_world = \<lparr>lw_next = 3, lw_open = {0, 1, 2}, lw_queue = [], lw_sent = [], lw_lines = [],
     lw_stderr = []\<rparr>"

section \<open>Properties\<close>

text \<open>
  C16. The socket class owns its descriptor: however a program creates, moves, assigns, uses and
  destroys sockets, and whichever of the system calls fail, every descriptor held by a live object is open
  and was not open before the program started, no two objects hold the same one (so that none is closed
  twice or under its user), and the descriptors open are exactly those open before and those held by live
  objects: a failed creation, an assignment over an open socket and a destruction leak nothing.
\<close>

theorem socket_ownership:
  assumes "fd_laws os open_fds"
    and "reachable (\<lambda>p. fst p = Map.empty \<and> open_fds (snd p) = others) (socket_step os) (objs, w)"
  shows "(\<forall>x s. objs x = Some s \<and> 0 \<le> sock_fd s \<longrightarrow> sock_fd s \<in> open_fds w \<and> sock_fd s \<notin> others) \<and>
    (\<forall>x y s t. objs x = Some s \<and> objs y = Some t \<and> sock_fd s = sock_fd t \<and> 0 \<le> sock_fd s \<longrightarrow> x = y) \<and>
    open_fds w = others \<union> {fd. 0 \<le> fd \<and> (\<exists>x s. objs x = Some s \<and> sock_fd s = fd)}"
proof -
  have "inductive_invariant (\<lambda>p. fst p = Map.empty \<and> open_fds (snd p) = others) (socket_step os)
      (socket_inv open_fds others)"
    using socket_step_inv [OF assms(1)] by unfold_locales (simp add: socket_inv_def owned_def, blast)
  from inductive_invariant.reachable_inv [OF this assms(2)]
  have inv: "open_fds w = others \<union> owned objs" "others \<inter> owned objs = {}"
    "\<And>x y s t. objs x = Some s \<Longrightarrow> objs y = Some t \<Longrightarrow> sock_fd s = sock_fd t \<Longrightarrow> 0 \<le> sock_fd s \<Longrightarrow> x = y"
    by (auto simp: socket_inv_def)
  show ?thesis
  proof (intro conjI allI impI)
    fix x s assume "objs x = Some s \<and> 0 \<le> sock_fd s"
    then have "sock_fd s \<in> owned objs" by (auto intro: ownedI)
    then show "sock_fd s \<in> open_fds w" "sock_fd s \<notin> others" using inv(1,2) by auto
  next
    show "open_fds w = others \<union> {fd. 0 \<le> fd \<and> (\<exists>x s. objs x = Some s \<and> sock_fd s = fd)}"
      using inv(1) by (simp add: owned_def)
  qed (use inv(3) in blast)
qed

theorem socket_ownership_witness:
  "sock_fd (the ([0 \<mapsto> \<lparr>sock_fd = 3\<rparr>] 0)) \<in> loop_fds (snd (create_non_blocking (loop_os 0) start_world))"
proof -
  let ?init = "\<lambda>p :: loop_world socket_program. fst p = Map.empty \<and> loop_fds (snd p) = {0, 1, 2}"
  have c: "create_non_blocking (loop_os 0) start_world =
      (Some \<lparr>sock_fd = 3\<rparr>, start_world\<lparr>lw_next := 4, lw_open := {0, 1, 2, 3}\<rparr>)"
    by (auto simp: create_non_blocking_def loop_os_def start_world_def)
  have "reachable ?init (socket_step (loop_os 0)) (Map.empty, start_world)"
    by (rule reach_init) (auto simp: loop_fds_def start_world_def)
  then have "reachable ?init (socket_step (loop_os 0))
      ([0 \<mapsto> \<lparr>sock_fd = 3\<rparr>], snd (create_non_blocking (loop_os 0) start_world))"
    by (rule reach_step) (rule create, simp_all add: c)
  from socket_ownership [OF loop_os_laws this, THEN conjunct1, rule_format, of 0 "\<lparr>sock_fd = 3\<rparr>"]
  show ?thesis by simp
qed

end
