(* ===== verification/App_Sockets.thy ===== *)
theory App_Sockets
  imports Session_Exchange Client_Spec Server_Spec Udp_Socket
begin

text \<open>
  The applications on a real socket: how \<open>BsdClientApp.cpp\<close> and \<open>BsdServerApp.cpp\<close> open it and how their
  main loops use it. The models of the main loops take the datagrams of a pass as a list and collect what
  is sent and logged; here the datagrams are what the socket yields, and what is sent and logged reaches
  the world in the order of the code: a pass receives, handles the typed line, sends, and logs.
\<close>

section \<open>Opening the socket\<close>

text \<open>The first lines of both applications; a socket that cannot be bound is destroyed on return.\<close>

definition open_app_socket :: "'w posix \<Rightarrow> RuntimeProfile \<Rightarrow> 'w \<Rightarrow> BsdUdpSocket option \<times> 'w" where
  "open_app_socket os profile w =
     (case create_non_blocking os w of
        (None, w) \<Rightarrow> (None, w)
      | (Some s, w) \<Rightarrow>
          (case sock_bind os (rp_bind_address profile) (rp_bind_port profile) s w of
             (False, w) \<Rightarrow> (None, sock_destroy os s w)
           | (True, w) \<Rightarrow> (Some s, w)))"

section \<open>The receive loops\<close>

text \<open>\<open>clock i\<close> is the time read for the \<open>i\<close>-th datagram; no result while datagrams keep coming.\<close>

fun client_recv_loop ::
  "'w posix \<Rightarrow> TransportSettings \<Rightarrow> RuntimeProfile \<Rightarrow> BsdUdpSocket \<Rightarrow> (nat \<Rightarrow> u64) \<Rightarrow> nat \<Rightarrow> nat \<Rightarrow> SessionState
   \<Rightarrow> 'w \<Rightarrow> (SessionState \<times> 'w) option"
where
  "client_recv_loop os cfg profile s clock i 0 session w = None"
| "client_recv_loop os cfg profile s clock i (Suc fuel) session w =
     (case recv_from os (unat (rp_socket_buffer_size profile)) s w of
        (None, w) \<Rightarrow> Some (session, w)
      | (Some received, w) \<Rightarrow>
          client_recv_loop os cfg profile s clock (i + 1) fuel
            (on_datagram_received cfg (rd_bytes received) (clock i) session) w)"

text \<open>What a step of the application added to its log, handed to the logger.\<close>

definition server_flush :: "'w LogSink \<Rightarrow> ServerApp \<Rightarrow> ServerApp \<Rightarrow> 'w \<Rightarrow> 'w" where
  "server_flush logger before after w = log_lines logger (drop (length (sa_log before)) (sa_log after)) w"

definition client_flush :: "'w LogSink \<Rightarrow> ClientApp \<Rightarrow> ClientApp \<Rightarrow> 'w \<Rightarrow> 'w" where
  "client_flush logger before after w = log_lines logger (drop (length (ca_log before)) (ca_log after)) w"

fun server_recv_loop ::
  "'w posix \<Rightarrow> 'w LogSink \<Rightarrow> TransportSettings \<Rightarrow> RuntimeProfile \<Rightarrow> BsdUdpSocket \<Rightarrow> (nat \<Rightarrow> u64)
   \<Rightarrow> (nat \<Rightarrow> u32 list) \<Rightarrow> nat \<Rightarrow> nat \<Rightarrow> ServerApp \<Rightarrow> 'w \<Rightarrow> (ServerApp \<times> 'w) option"
where
  "server_recv_loop os logger cfg profile s clock draws i 0 app w = None"
| "server_recv_loop os logger cfg profile s clock draws i (Suc fuel) app w =
     (case recv_from os (unat (rp_socket_buffer_size profile)) s w of
        (None, w) \<Rightarrow> Some (app, w)
      | (Some received, w) \<Rightarrow>
          (case ssm_on_datagram_received cfg (draws i) (rd_endpoint received) (rd_bytes received) (clock i)
                  (sa_manager app) of
             None \<Rightarrow> None
           | Some manager \<Rightarrow>
               let drained = drain_server_events (app\<lparr>sa_manager := manager\<rparr>)
               in server_recv_loop os logger cfg profile s clock draws (i + 1) fuel drained
                    (server_flush logger app drained w)))"

section \<open>The main loops on the socket\<close>

text \<open>
  \<open>wi_env\<close> is what happens in the world between two passes (datagrams arrive); \<open>wi_readable\<close> is whether
  \<open>select\<close> reports the socket; \<open>wi_fuel\<close> bounds the datagrams handled in one pass, no result if more keep
  coming. The other inputs are those of the models
  of the loops, whose list of datagrams is not used.
\<close>

record ('w, 'i) WorldInput =
  wi_env :: "'w \<Rightarrow> 'w"
  wi_readable :: bool
  wi_fuel :: nat
  wi_clock :: "nat \<Rightarrow> u64"
  wi_draws :: "nat \<Rightarrow> u32 list"
  wi_input :: 'i

fun send_all :: "'w posix \<Rightarrow> BsdUdpSocket \<Rightarrow> OutboundDatagram list \<Rightarrow> 'w \<Rightarrow> 'w" where
  "send_all os s [] w = w"
| "send_all os s (outbound # rest) w =
     send_all os s rest (snd (send_to os (od_endpoint outbound) (od_bytes outbound) s w))"

definition client_world_pass ::
  "'w posix \<Rightarrow> 'w LogSink \<Rightarrow> TransportSettings \<Rightarrow> RuntimeProfile \<Rightarrow> BsdUdpSocket
   \<Rightarrow> ('w, ClientInput) WorldInput \<Rightarrow> ClientApp \<times> 'w \<Rightarrow> (ClientApp \<times> 'w) option"
where
  "client_world_pass os logger cfg profile s wi state =
     (let input = wi_input wi;
          (app, w) = state;
          w = wi_env wi w;
          app = app\<lparr>ca_load := run_workers (ci_workers_before input) (ca_load app)\<rparr> in
      if ci_stop_requested input then Some (app\<lparr>ca_should_exit := True\<rparr>, w)
      else if ci_select_failed input then Some (app\<lparr>ca_should_exit := True\<rparr>, sys_perror os ''select'' w)
      else
        case if wi_readable wi
             then client_recv_loop os cfg profile s (wi_clock wi) 0 (wi_fuel wi) (ca_session app) w
             else Some (ca_session app, w) of
          None \<Rightarrow> None
        | Some (session, w) \<Rightarrow>
            let app = app\<lparr>ca_session := session\<rparr>;
                typed = client_stdin profile (ci_stdin input) (ci_stop_schedule input) app;
                w = client_flush logger app typed w
            in if ca_should_exit typed then Some (typed, w)
               else
                 let done = client_output cfg profile input typed;
                     sent = map (\<lambda>bs. \<lparr>od_endpoint = \<lparr>ek_address = rp_remote_address profile,
                                                      ek_port = rp_remote_port profile\<rparr>, od_bytes = bs\<rparr>)
                              (drop (length (ca_sent typed)) (ca_sent done));
                     w = send_all os s sent w
                 in Some (done, client_flush logger typed done w))"

definition server_world_pass ::
  "'w posix \<Rightarrow> 'w LogSink \<Rightarrow> TransportSettings \<Rightarrow> RuntimeProfile \<Rightarrow> BsdUdpSocket
   \<Rightarrow> ('w, ServerInput) WorldInput \<Rightarrow> ServerApp \<times> 'w \<Rightarrow> (ServerApp \<times> 'w) option"
where
  "server_world_pass os logger cfg profile s wi state =
     (let input = wi_input wi;
          (app, w) = state;
          w = wi_env wi w in
      if si_stop_requested input then Some (app\<lparr>sa_should_exit := True\<rparr>, w)
      else if si_select_failed input then Some (app\<lparr>sa_should_exit := True\<rparr>, sys_perror os ''select'' w)
      else
        case if wi_readable wi
             then server_recv_loop os logger cfg profile s (wi_clock wi) (wi_draws wi) 0 (wi_fuel wi) app w
             else Some (app, w) of
          None \<Rightarrow> None
        | Some (app, w) \<Rightarrow>
            let typed = server_stdin profile input app;
                w = server_flush logger app typed w;
                done = server_output cfg (si_now input) typed;
                w = send_all os s (drop (length (sa_sent typed)) (sa_sent done)) w
            in Some (done, server_flush logger typed done w))"

fun client_world_loop ::
  "'w posix \<Rightarrow> 'w LogSink \<Rightarrow> TransportSettings \<Rightarrow> RuntimeProfile \<Rightarrow> BsdUdpSocket
   \<Rightarrow> ('w, ClientInput) WorldInput list \<Rightarrow> ClientApp \<times> 'w \<Rightarrow> (ClientApp \<times> 'w) option"
where
  "client_world_loop os logger cfg profile s [] state = Some state"
| "client_world_loop os logger cfg profile s (wi # wis) state =
     (if ca_should_exit (fst state) then Some state
      else case client_world_pass os logger cfg profile s wi state of
             None \<Rightarrow> None
           | Some state \<Rightarrow> client_world_loop os logger cfg profile s wis state)"

fun server_world_loop ::
  "'w posix \<Rightarrow> 'w LogSink \<Rightarrow> TransportSettings \<Rightarrow> RuntimeProfile \<Rightarrow> BsdUdpSocket
   \<Rightarrow> ('w, ServerInput) WorldInput list \<Rightarrow> ServerApp \<times> 'w \<Rightarrow> (ServerApp \<times> 'w) option"
where
  "server_world_loop os logger cfg profile s [] state = Some state"
| "server_world_loop os logger cfg profile s (wi # wis) state =
     (if sa_should_exit (fst state) then Some state
      else case server_world_pass os logger cfg profile s wi state of
             None \<Rightarrow> None
           | Some state \<Rightarrow> server_world_loop os logger cfg profile s wis state)"

interpretation client_world: main_loop "client_world_pass os logger cfg profile s" "\<lambda>state. ca_should_exit (fst state)"
  "client_world_loop os logger cfg profile s" for os logger cfg profile s
  by unfold_locales (simp_all split: option.splits)

interpretation server_world: main_loop "server_world_pass os logger cfg profile s" "\<lambda>state. sa_should_exit (fst state)"
  "server_world_loop os logger cfg profile s" for os logger cfg profile s
  by unfold_locales (simp_all split: option.splits)

text \<open>
  The applications. \<open>AppRunning\<close>: the loop is still running when the inputs end (or never gets there). On
  return the socket is destroyed.
\<close>

datatype 'a AppRun = AppNoSocket | AppRunning | AppDone 'a

definition run_client_app ::
  "'w posix \<Rightarrow> 'w LogSink \<Rightarrow> TransportSettings \<Rightarrow> RuntimeProfile \<Rightarrow> environment \<Rightarrow> files \<Rightarrow> bool \<Rightarrow> u32 \<Rightarrow> u32
   \<Rightarrow> ('w, ClientInput) WorldInput list \<Rightarrow> nat list \<Rightarrow> nat list \<Rightarrow> 'w \<Rightarrow> ClientApp AppRun \<times> 'w"
where
  "run_client_app os logger cfg profile getenv fs isatty rd1 rd2 inputs workers schedule w =
     (case open_app_socket os profile w of
        (None, w) \<Rightarrow> (AppNoSocket, w)
      | (Some s, w) \<Rightarrow>
          let start = client_start profile getenv fs isatty rd1 rd2 in
          (case client_world_loop os logger cfg profile s inputs (start, log_lines logger (ca_log start) w) of
             None \<Rightarrow> (AppRunning, w)
           | Some (app, w) \<Rightarrow>
               if \<not> ca_should_exit app then (AppRunning, w)
               else
                 let done = client_finish workers schedule app
                 in (AppDone done, sock_destroy os s (client_flush logger app done w))))"

definition run_server_app ::
  "'w posix \<Rightarrow> 'w LogSink \<Rightarrow> TransportSettings \<Rightarrow> RuntimeProfile \<Rightarrow> bool
   \<Rightarrow> ('w, ServerInput) WorldInput list \<Rightarrow> 'w \<Rightarrow> ServerApp AppRun \<times> 'w"
where
  "run_server_app os logger cfg profile isatty inputs w =
     (case open_app_socket os profile w of
        (None, w) \<Rightarrow> (AppNoSocket, w)
      | (Some s, w) \<Rightarrow>
          let start = server_start profile isatty in
          (case server_world_loop os logger cfg profile s inputs (start, log_lines logger (sa_log start) w) of
             None \<Rightarrow> (AppRunning, w)
           | Some (app, w) \<Rightarrow>
               if \<not> sa_should_exit app then (AppRunning, w)
               else
                 let done = server_log (log_server_summaries app) app
                 in (AppDone done, sock_destroy os s (server_flush logger app done w))))"

section \<open>What the socket yields\<close>

text \<open>
  What POSIX promises of a datagram socket that holds the datagrams \<open>arrived w\<close> and nothing else arrives:
  \<open>recvfrom\<close> takes the oldest, as much of it as fits into the buffer, and discards the rest of it; on an
  empty socket it fails with \<open>EAGAIN\<close>; and every IPv4 address can be written out.
\<close>

definition recv_laws :: "'w posix \<Rightarrow> int \<Rightarrow> ('w \<Rightarrow> (bytes \<times> sockaddr_in) list) \<Rightarrow> bool" where
  "recv_laws os fd arrived \<longleftrightarrow>
     (\<forall>n w. arrived w = [] \<longrightarrow> fst (sys_recvfrom os fd n w) = RecvFailed EAGAIN) \<and>
     (\<forall>n w d addr rest. arrived w = (d, addr) # rest \<longrightarrow>
        (\<exists>buffer w'. sys_recvfrom os fd n w = (RecvOk (min n (length d)) buffer addr, w') \<and>
           length buffer = n \<and> take (length d) buffer = take n d \<and> arrived w' = rest)) \<and>
     (\<forall>a. sys_inet_ntop os a \<noteq> None)"

definition source_endpoint :: "'w posix \<Rightarrow> sockaddr_in \<Rightarrow> EndpointKey" where
  "source_endpoint os addr =
     \<lparr>ek_address = the (sys_inet_ntop os (sin_addr addr)), ek_port = ntohs (sin_port addr)\<rparr>"

lemma recv_from_empty:
  assumes "recv_laws os (sock_fd s) arrived" and "arrived w = []"
  obtains w' where "recv_from os n s w = (None, w')"
proof -
  obtain w' where "sys_recvfrom os (sock_fd s) n w = (RecvFailed EAGAIN, w')"
    using assms unfolding recv_laws_def by (metis prod.collapse)
  with that show ?thesis by (simp add: recv_from_def)
qed

lemma resize_received:
  assumes "length buffer = n" and "take (length d) buffer = take n d"
  shows "resize (min n (length d)) buffer = take n d"
  using assms by (simp add: resize_def min_def) (metis nat_le_linear take_all)

lemma recv_from_next:
  assumes "recv_laws os (sock_fd s) arrived" and "arrived w = (d, addr) # rest"
  obtains w' where "recv_from os n s w =
      (Some \<lparr>rd_endpoint = source_endpoint os addr, rd_bytes = take n d\<rparr>, w')" and "arrived w' = rest"
proof -
  obtain buffer w' where r: "sys_recvfrom os (sock_fd s) n w = (RecvOk (min n (length d)) buffer addr, w')"
    and b: "length buffer = n" "take (length d) buffer = take n d" and a: "arrived w' = rest"
    using assms unfolding recv_laws_def by blast
  obtain address where "sys_inet_ntop os (sin_addr addr) = Some address"
    using assms(1) unfolding recv_laws_def by blast
  then have "recv_from os n s w = (Some \<lparr>rd_endpoint = source_endpoint os addr, rd_bytes = take n d\<rparr>, w')"
    by (simp add: recv_from_def r resize_received [OF b] source_endpoint_def)
  with that a show ?thesis by blast
qed

text \<open>The datagrams as they reach the application: cut to the buffer, with the time each is handled.\<close>

fun stamped :: "nat \<Rightarrow> (nat \<Rightarrow> u64) \<Rightarrow> nat \<Rightarrow> (bytes \<times> sockaddr_in) list \<Rightarrow> (bytes \<times> u64) list" where
  "stamped n clock i [] = []"
| "stamped n clock i ((d, addr) # rest) = (take n d, clock i) # stamped n clock (i + 1) rest"

fun stamped_server ::
  "'w posix \<Rightarrow> nat \<Rightarrow> (nat \<Rightarrow> u64) \<Rightarrow> (nat \<Rightarrow> u32 list) \<Rightarrow> nat \<Rightarrow> (bytes \<times> sockaddr_in) list \<Rightarrow> ServerDatagram list"
where
  "stamped_server os n clock draws i [] = []"
| "stamped_server os n clock draws i ((d, addr) # rest) =
     \<lparr>sd_endpoint = source_endpoint os addr, sd_bytes = take n d, sd_now = clock i, sd_draws = draws i\<rparr>
     # stamped_server os n clock draws (i + 1) rest"

lemma client_recv_loop_exact:
  assumes "recv_laws os (sock_fd s) arrived" and "length (arrived w) < fuel"
  shows "\<exists>w'. client_recv_loop os cfg profile s clock i fuel session w =
    Some (client_receive cfg (stamped (unat (rp_socket_buffer_size profile)) clock i (arrived w)) session, w')"
  using assms(2)
proof (induction fuel arbitrary: i session w)
  case (Suc fuel)
  let ?n = "unat (rp_socket_buffer_size profile)"
  show ?case
  proof (cases "arrived w")
    case Nil
    obtain w1 where "recv_from os ?n s w = (None, w1)" using recv_from_empty [OF assms(1) Nil] .
    then show ?thesis by (simp add: Nil)
  next
    case (Cons da rest)
    obtain d addr where da: "da = (d, addr)" by fastforce
    obtain w1 where r: "recv_from os ?n s w =
        (Some \<lparr>rd_endpoint = source_endpoint os addr, rd_bytes = take ?n d\<rparr>, w1)" and a: "arrived w1 = rest"
      using recv_from_next [OF assms(1) Cons [unfolded da]] .
    have "length (arrived w1) < fuel" using Suc.prems Cons a by simp
    from Suc.IH [OF this, of "i + 1" "on_datagram_received cfg (take ?n d) (clock i) session"]
    show ?thesis by (simp add: r a Cons da)
  qed
qed simp

text \<open>The small system keeps the laws.\<close>

lemma loop_os_recv: "recv_laws (loop_os st) fd lw_queue"
proof -
  have "take (length d) (take n d @ replicate (n - length d) 0) = take n d" for n and d :: bytes
    by (cases "n \<le> length d") simp_all
  then show ?thesis by (auto simp: recv_laws_def loop_os_def min_def split: list.splits)
qed

section \<open>Datagrams that do not fit\<close>

lemma take_writes:
  "take n (writeU32 bs i v) = writeU32 (take n bs) i v" "take n (writeU64 bs i u) = writeU64 (take n bs) i u"
  by (simp_all add: writeU32_def writeU64_def upt_8 Let_def take_update_swap)

lemma encode_append: "encode h p = encode h [] @ p"
  by (simp add: encode_def Let_def copy_at_def take_writes take_update_swap)

lemma take_encode:
  assumes "kHeaderLength \<le> n"
  shows "take n (encode h p) = encode h (take (n - kHeaderLength) p)"
  using assms by (subst (1 2) encode_append) (simp add: length_encode)

text \<open>
  C34. A message that does not fit the receiver's socket buffer is delivered cut off, as if it were the
  whole message. The system discards what does not fit and the header carries no length, so for every
  payload the application gets the first \<open>socket_buffer_size - 28\<close> bytes of it in a regular data event, and
  the packet counts as received: it will be acknowledged and not sent again.
\<close>

theorem oversized_payload_truncated:
  assumes "recv_laws os (sock_fd s) arrived" and "arrived w = [(encode h payload, addr)]" and "2 \<le> fuel"
    and "kHeaderLength \<le> unat (rp_socket_buffer_size profile)"
    and "listening b" and "ready_receiver t n (s_rx b)" and "isReliableChannel t"
    and "h = data_header (s_conn_id b) n ch t rx"
  shows "\<exists>b' w'. client_recv_loop os cfg profile s clock 0 fuel b w = Some (b', w') \<and>
    fst (drain_events b') = fst (drain_events b) @
      [data_event n ch t (take (unat (rp_socket_buffer_size profile) - kHeaderLength) payload)] \<and>
    rx_next_expected (s_rx b') = n + 1 \<and> tx_reliable_ack_pending (s_tx b') \<and>
    s_connection_state b' = Established"
proof -
  let ?n = "unat (rp_socket_buffer_size profile)"
  have "length (arrived w) < fuel" using assms(2,3) by simp
  from client_recv_loop_exact [OF assms(1) this, of cfg profile clock 0 b]
  obtain w' where l: "client_recv_loop os cfg profile s clock 0 fuel b w =
      Some (on_datagram_received cfg (encode h (take (?n - kHeaderLength) payload)) (clock 0) b, w')"
    by (auto simp: assms(2) take_encode [OF assms(4)])
  note r = receives_message [where cfg = cfg and now = "clock 0" and payload = "take (?n - kHeaderLength) payload", OF assms(5-8) refl]
  show ?thesis
    by (intro exI conjI, rule l)
      (use r(1,2,6) in \<open>simp_all add: drain_events_def rx_drain_events_def owes_ack_def listening_def\<close>)
qed

theorem oversized_payload_truncated_witness:
  "\<exists>b' w'. client_recv_loop (loop_os 0) default_transport (sample_profile\<lparr>rp_socket_buffer_size := 30\<rparr>)
      \<lparr>sock_fd = 3\<rparr> (\<lambda>i. 101) 0 2 (sample_end Client 9 50)
      (start_world\<lparr>lw_queue := [(encode (data_header 7 50 3 ReliableOrdered default_rx) [1, 2, 3, 4],
        \<lparr>sin_addr = 1, sin_port = (0, 9)\<rparr>)]\<rparr>) = Some (b', w') \<and>
    map ev_payload (fst (drain_events b')) = [[1, 2]]"
proof -
  let ?b = "sample_end Client 9 50" and ?p = "sample_profile\<lparr>rp_socket_buffer_size := 30\<rparr>"
  let ?d = "encode (data_header (s_conn_id ?b) 50 3 ReliableOrdered default_rx) [1, 2, 3, 4]"
  have id: "s_conn_id ?b = 7" "ready_receiver ReliableOrdered 50 (s_rx ?b)" "isReliableChannel ReliableOrdered"
    "fst (drain_events ?b) = []"
    by (simp_all add: sample_end_ready isReliableChannel_def)
  have size: "kHeaderLength \<le> unat (rp_socket_buffer_size ?p)" "unat (rp_socket_buffer_size ?p) - kHeaderLength = 2"
    by (simp_all add: kHeaderLength_def)
  have q: "lw_queue (start_world\<lparr>lw_queue := [(?d, \<lparr>sin_addr = 1, sin_port = (0, 9)\<rparr>)]\<rparr>) =
    [(?d, \<lparr>sin_addr = 1, sin_port = (0, 9)\<rparr>)]" by simp
  note o = oversized_payload_truncated [where s = "\<lparr>sock_fd = 3\<rparr>" and clock = "\<lambda>i. 101", OF loop_os_recv q
      order_refl size(1) idle_listening [OF sample_end_idle] id(2,3) refl]
  obtain b' w' where r: "client_recv_loop (loop_os 0) default_transport ?p \<lparr>sock_fd = 3\<rparr> (\<lambda>i. 101) 0 2 ?b
      (start_world\<lparr>lw_queue := [(?d, \<lparr>sin_addr = 1, sin_port = (0, 9)\<rparr>)]\<rparr>) = Some (b', w')"
    "fst (drain_events b') = fst (drain_events ?b) @
      [data_event 50 3 ReliableOrdered (take 2 [1, 2, 3, 4])]"
    using o unfolding size(2) by blast
  have "map ev_payload (fst (drain_events b')) = [[1, 2]]" using r(2) id(4) by (simp add: data_event_def)
  with r(1) [unfolded id(1)] show ?thesis by (intro exI [of _ b'] exI [of _ w'] conjI) assumption+
qed

section \<open>Datagrams from anyone\<close>

lemma poll_loop_reset:
  "s_connection_state s = Reset \<Longrightarrow> s_connection_state (snd (poll_loop cfg clock i budget s)) = Reset"
proof (induction budget arbitrary: i s)
  case (Suc budget)
  obtain out s1 where p: "poll_tx cfg (clock i) s = (out, s1)" by fastforce
  have "s_connection_state s1 = Reset" using poll_tx_identity(3) [OF p] Suc.prems by auto
  from Suc.IH [OF this] this show ?case by (cases out) (simp_all add: p split_beta Let_def)
qed simp

lemma queue_generated_state: "s_connection_state (queue_generated ms s) = s_connection_state s"
  by (induction ms s rule: queue_generated.induct) (simp_all add: queue_send_def)

lemma client_output_reset:
  assumes "s_connection_state (ca_session app) = Reset"
  shows "ca_should_exit (client_output cfg profile input app)"
proof -
  obtain messages load where d: "lg_drain (run_workers (ci_workers input) (ca_load app)) = (messages, load)"
    by fastforce
  obtain sent session where p: "poll_loop cfg (ci_clock input) 0 (unat (rp_poll_budget profile))
      (queue_generated messages (ca_session app)) = (sent, session)" by fastforce
  have "s_connection_state session = Reset"
    using poll_loop_reset [of "queue_generated messages (ca_session app)" cfg "ci_clock input" 0
        "unat (rp_poll_budget profile)"] assms by (simp add: p queue_generated_state)
  then show ?thesis
    by (simp add: client_output_def d p Let_def drain_client_events_def drain_events_def client_log_def
        split: prod.splits)
qed

text \<open>
  C35. The client takes datagrams from anyone: it does not compare the address a datagram came from with the
  server's. One datagram from any address that names another connection and is not a SYN resets a client
  in an open connection, and the client program ends in the same pass.
\<close>

theorem stranger_ends_client:
  assumes "recv_laws os (sock_fd s) arrived" and "arrived w = [(d, addr)]" and "2 \<le> fuel"
    and "decode (take (unat (rp_socket_buffer_size profile)) d) = Some pv"
    and "s_conn_id (ca_session app) \<noteq> 0" and "h_conn_id (pv_header pv) \<noteq> s_conn_id (ca_session app)"
    and "classify_control_kind (pv_header pv) \<noteq> KindSyn"
    and "s_connection_state (ca_session app) \<noteq> Closed"
  shows "\<exists>session w'.
    client_recv_loop os cfg profile s clock 0 fuel (ca_session app) w = Some (session, w') \<and>
    s_connection_state session = Reset \<and>
    ca_should_exit (client_output cfg profile input (app\<lparr>ca_session := session\<rparr>))"
proof -
  let ?n = "unat (rp_socket_buffer_size profile)"
  have "length (arrived w) < fuel" using assms(2,3) by simp
  from client_recv_loop_exact [OF assms(1) this, of cfg profile clock 0 "ca_session app"]
  obtain w' where l: "client_recv_loop os cfg profile s clock 0 fuel (ca_session app) w =
      Some (on_datagram_received cfg (take ?n d) (clock 0) (ca_session app), w')"
    by (auto simp: assms(2))
  note r = foreign_datagram_resets [OF assms(4-8), THEN conjunct1]
  show ?thesis
    by (rule exI conjI l r)+ (simp add: client_output_reset r)
qed

theorem stranger_ends_client_witness:
  "\<exists>session w'.
    client_recv_loop (loop_os 0) default_transport sample_profile \<lparr>sock_fd = 3\<rparr> (\<lambda>i. 101) 0 2
      (sample_end Client 9 50)
      (start_world\<lparr>lw_queue := [(encode (data_header 8 50 3 ReliableOrdered default_rx) [],
        \<lparr>sin_addr = 99, sin_port = (0, 9)\<rparr>)]\<rparr>) = Some (session, w') \<and>
    s_connection_state session = Reset"
proof -
  let ?app = "(client_start sample_profile (\<lambda>_. None) (\<lambda>_. None) True 7 8)\<lparr>ca_session := sample_end Client 9 50\<rparr>"
  let ?d = "encode (data_header 8 50 3 ReliableOrdered default_rx) []"
  have id: "s_conn_id (ca_session ?app) = 7" "s_connection_state (ca_session ?app) \<noteq> Closed"
    by (simp_all add: sample_end_def Session_def)
  have "kHeaderLength \<le> unat (rp_socket_buffer_size sample_profile)"
    by (simp add: kHeaderLength_def sample_profile_def)
  then have d: "decode (take (unat (rp_socket_buffer_size sample_profile)) ?d) =
      Some \<lparr>pv_header = data_header 8 50 3 ReliableOrdered default_rx, pv_payload = []\<rparr>"
    by (simp add: take_encode decode_encode_valid data_header_valid isReliableChannel_def)
  have q: "lw_queue (start_world\<lparr>lw_queue := [(?d, \<lparr>sin_addr = 99, sin_port = (0, 9)\<rparr>)]\<rparr>) =
    [(?d, \<lparr>sin_addr = 99, sin_port = (0, 9)\<rparr>)]" by simp
  have c: "s_conn_id (ca_session ?app) \<noteq> 0"
    "h_conn_id (pv_header \<lparr>pv_header = data_header 8 50 3 ReliableOrdered default_rx, pv_payload = []\<rparr>) \<noteq>
      s_conn_id (ca_session ?app)"
    "classify_control_kind (pv_header \<lparr>pv_header = data_header 8 50 3 ReliableOrdered default_rx,
      pv_payload = []\<rparr>) \<noteq> KindSyn"
    using id(1) by simp_all
  note s = stranger_ends_client [where s = "\<lparr>sock_fd = 3\<rparr>", OF loop_os_recv q order_refl d c id(2)]
  have a: "ca_session ?app = sample_end Client 9 50" by simp
  from s show ?thesis unfolding a by blast
qed

end
