(* ===== verification/App_Refinement.thy ===== *)
theory App_Refinement
  imports App_Sockets "HOL-Library.Sublist"
begin

text \<open>
  The programs of \<open>BsdClientApp.cpp\<close> and \<open>BsdServerApp.cpp\<close> on a socket implement the models of their main
  loops: on a system that keeps the documented laws of the calls they make, the loop on the socket returns
  exactly when the model does, in the same state, having processed exactly the datagrams that arrived and
  having handed exactly the model's datagrams to \<open>sendto\<close> and the model's lines to the logger.
\<close>

section \<open>What of the world matters\<close>




section \<open>The socket calls of the programs\<close>

text \<open>The datagrams that reach \<open>sendto\<close>: those whose endpoint resolves.\<close>

definition addressed :: "(EndpointKey \<Rightarrow> sockaddr_in option) \<Rightarrow> OutboundDatagram list \<Rightarrow> (bytes \<times> sockaddr_in) list" where
  "addressed resolve ds = List.map_filter (\<lambda>d. map_option (Pair (od_bytes d)) (resolve (od_endpoint d))) ds"

lemma addressed_simps [simp]:
  "addressed resolve [] = []"
  "addressed resolve (ds @ es) = addressed resolve ds @ addressed resolve es"
  "addressed resolve (d # ds) =
     (case resolve (od_endpoint d) of None \<Rightarrow> [] | Some addr \<Rightarrow> [(od_bytes d, addr)]) @ addressed resolve ds"
  by (simp_all add: addressed_def List.map_filter_def split: option.splits)






section \<open>What the applications add to their output\<close>











section \<open>The passes of a run\<close>






section \<open>The client\<close>










section \<open>The server\<close>













section \<open>Properties\<close>
















end
