(* ===== verification/Rudp_Program.thy ===== *)
theory Rudp_Program
  imports App_Sockets
begin

text \<open>
  Model of \<open>src/BsdRuntime.cpp\<close>, second part, and of \<open>src/main.cpp\<close>: the logger of the program, and the whole
  program from the command line to its exit code.
\<close>

section \<open>The logger of the program\<close>

text \<open>An exception that is not of the logging library is not caught: the result is \<open>Inl\<close>.\<close>

definition make_runtime_logger ::
  "'w posix \<Rightarrow> ('w, 'h) log_library \<Rightarrow> RuntimeProfile \<Rightarrow> 'w \<Rightarrow> (LogException + 'w LogSink) \<times> 'w"
where
  "make_runtime_logger os lib profile w =
     (let sinks = [make_console_logger lib];
          logger_name = (if rp_mode profile = ServerMode then ''rudp_server_file'' else ''rudp_client_file'')
      in case make_text_logger lib logger_name (rp_log_path profile) w of
           (Inr sink, w) \<Rightarrow> (Inr (compose_loggers (sinks @ [sink])), w)
         | (Inl (SpdlogException what), w) \<Rightarrow>
             (Inr (compose_loggers sinks), sys_cerr os (''failed to create file logger: '' @ what @ [newline]) w)
         | (Inl error, w) \<Rightarrow> (Inl error, w))"

section \<open>The program\<close>

text \<open>What the world supplies to a run besides its state.\<close>

record 'w RunInputs =
  ri_fs :: files
  ri_file_exists :: "string \<Rightarrow> bool"
  ri_getenv :: environment
  ri_isatty :: bool
  ri_rd1 :: u32
  ri_rd2 :: u32
  ri_client_inputs :: "('w, ClientInput) WorldInput list"
  ri_server_inputs :: "('w, ServerInput) WorldInput list"
  ri_workers :: "nat list"
  ri_schedule :: "nat list"

datatype CliEnd = CliExit int | CliTerminated LogException | CliRunning

definition run_cli ::
  "'w posix \<Rightarrow> ('w, 'h) log_library \<Rightarrow> 'w RunInputs \<Rightarrow> string list \<Rightarrow> Settings \<Rightarrow> 'w \<Rightarrow> CliEnd \<times> 'w"
where
  "run_cli os lib ri argv g_settings w =
     (case cli_profile (ri_fs ri) (ri_file_exists ri) (ri_getenv ri) argv g_settings of
        CliFailed message \<Rightarrow> (CliExit 1, sys_cerr os message w)
      | CliRun settings profile \<Rightarrow>
          (case make_runtime_logger os lib profile w of
             (Inl error, w) \<Rightarrow> (CliTerminated error, w)
           | (Inr logger, w) \<Rightarrow>
               if rp_mode profile = ServerMode then
                 (case run_server_app os logger (st_transport settings) profile (ri_isatty ri)
                         (ri_server_inputs ri) w of
                    (AppRunning, w) \<Rightarrow> (CliRunning, w)
                  | (_, w) \<Rightarrow> (CliExit 0, w))
               else
                 (case run_client_app os logger (st_transport settings) profile (ri_getenv ri) (ri_fs ri)
                         (ri_isatty ri) (ri_rd1 ri) (ri_rd2 ri) (ri_client_inputs ri) (ri_workers ri)
                         (ri_schedule ri) w of
                    (AppRunning, w) \<Rightarrow> (CliRunning, w)
                  | (_, w) \<Rightarrow> (CliExit 0, w))))"

text \<open>\<open>main\<close> starts with the default settings.\<close>

definition main ::
  "'w posix \<Rightarrow> ('w, 'h) log_library \<Rightarrow> 'w RunInputs \<Rightarrow> string list \<Rightarrow> 'w \<Rightarrow> CliEnd \<times> 'w"
where
  "main os lib ri argv w = run_cli os lib ri argv default_settings w"

section \<open>Properties\<close>

lemma log_lines_composed:
  "log_lines (compose_loggers [make_console_logger lib]) lines w =
     fold (\<lambda>line. out_cout lib (line @ [newline])) lines w"
  "log_lines (compose_loggers [make_console_logger lib, Some f]) lines w =
     fold (\<lambda>line w. f line (out_cout lib (line @ [newline]) w)) lines w"
  by (induction lines arbitrary: w)
    (simp_all add: log_line_def compose_loggers_def make_console_logger_def)

text \<open>
  The program's logger, case by case: when the directory of the log file and the file logger can be made,
  every line goes to the console, with a line end, and to the file, in the order logged; when the logging
  library refuses, the reason is printed and every line still goes to the console; but when the directory
  cannot be made, the exception is not of the type that is caught, and no logger results.
\<close>

lemma runtime_logger_exact:
  "(case fs_create_directories lib (parent_path (rp_log_path profile)) w of
      (Some what, w1) \<Rightarrow> make_runtime_logger os lib profile w = (Inl (FilesystemError what), w1)
    | (None, w1) \<Rightarrow>
        (case spd_basic_logger lib (if rp_mode profile = ServerMode then ''rudp_server_file''
                 else ''rudp_client_file'') (rp_log_path profile) True w1 of
           (Inl what, w2) \<Rightarrow>
             \<exists>logger. make_runtime_logger os lib profile w =
                 (Inr logger, sys_cerr os (''failed to create file logger: '' @ what @ [newline]) w2) \<and>
               (\<forall>lines v. log_lines logger lines v = fold (\<lambda>line. out_cout lib (line @ [newline])) lines v)
         | (Inr file, w2) \<Rightarrow>
             \<exists>logger w3. make_runtime_logger os lib profile w = (Inr logger, w3) \<and>
               (\<forall>lines v. log_lines logger lines v =
                  fold (\<lambda>line u. spd_info lib file line (out_cout lib (line @ [newline]) u)) lines v)))"
  by (auto simp: make_runtime_logger_def make_text_logger_def Let_def log_lines_composed split: prod.splits
      option.splits sum.splits)

lemma open_app_socket_fds:
  assumes "fd_laws os open_fds" and "open_app_socket os profile w = (None, w')"
  shows "open_fds w' = open_fds w"
proof -
  obtain created w1 where c: "create_non_blocking os w = (created, w1)" by fastforce
  show ?thesis
  proof (cases created)
    case None
    then show ?thesis using assms c create_fds [OF assms(1) c] by (simp add: open_app_socket_def)
  next
    case (Some s)
    obtain ok w2 where b: "sock_bind os (rp_bind_address profile) (rp_bind_port profile) s w1 = (ok, w2)"
      by fastforce
    obtain s' w3 where d: "sock_close os s w2 = (s', w3)" by fastforce
    have "w' = w3" using assms(2) c b d Some by (cases ok) (simp_all add: open_app_socket_def sock_destroy_def)
    then show ?thesis
      using Some create_fds [OF assms(1) c] traffic_fds(1) [OF assms(1) b] close_fds [OF assms(1) d] by auto
  qed
qed

text \<open>
  C36. The exit code does not tell whether the program ran: it is 1 exactly if the configuration was
  rejected. A program that cannot create or bind its socket closes the descriptor again, runs no pass of
  its loop and exits with code 0.
\<close>

theorem exit_code_only_configuration:
  assumes "fd_laws os open_fds"
  shows "(fst (run_cli os lib ri argv g w) = CliExit 1 \<longleftrightarrow>
      (\<exists>message. cli_profile (ri_fs ri) (ri_file_exists ri) (ri_getenv ri) argv g = CliFailed message)) \<and>
    (\<forall>settings profile logger w1 w2.
      cli_profile (ri_fs ri) (ri_file_exists ri) (ri_getenv ri) argv g = CliRun settings profile \<and>
      make_runtime_logger os lib profile w = (Inr logger, w1) \<and> open_app_socket os profile w1 = (None, w2) \<longrightarrow>
      run_cli os lib ri argv g w = (CliExit 0, w2) \<and> open_fds w2 = open_fds w1)"
proof (intro conjI allI impI)
  show "fst (run_cli os lib ri argv g w) = CliExit 1 \<longleftrightarrow>
      (\<exists>message. cli_profile (ri_fs ri) (ri_file_exists ri) (ri_getenv ri) argv g = CliFailed message)"
    by (auto simp: run_cli_def split: CliOutcome.splits prod.splits sum.splits AppRun.splits)
next
  fix settings profile logger w1 w2
  assume a: "cli_profile (ri_fs ri) (ri_file_exists ri) (ri_getenv ri) argv g = CliRun settings profile \<and>
      make_runtime_logger os lib profile w = (Inr logger, w1) \<and> open_app_socket os profile w1 = (None, w2)"
  then show "run_cli os lib ri argv g w = (CliExit 0, w2)"
    by (simp add: run_cli_def run_server_app_def run_client_app_def)
  show "open_fds w2 = open_fds w1" using a open_app_socket_fds [OF assms] by blast
qed

definition quiet_library :: "(loop_world, nat) log_library" where
  "quiet_library =
     \<lparr>out_cout = (\<lambda>text w. w), fs_create_directories = (\<lambda>path w. (None, w)),
      spd_basic_logger = (\<lambda>name path truncate w. (Inr 0, w)), spd_set_pattern = (\<lambda>h pattern w. w),
      spd_flush_on_info = (\<lambda>h w. w), spd_info = (\<lambda>h text w. w)\<rparr>"

definition sample_run :: "loop_world RunInputs" where
  "sample_run =
     \<lparr>ri_fs = (\<lambda>_. Some (print_profile sample_profile)), ri_file_exists = (\<lambda>_. False), ri_getenv = (\<lambda>_. None),
      ri_isatty = True, ri_rd1 = 7, ri_rd2 = 8, ri_client_inputs = [], ri_server_inputs = [],
      ri_workers = [], ri_schedule = []\<rparr>"

theorem exit_code_only_configuration_witness:
  "\<exists>w2. run_cli (loop_os (- 1)) quiet_library sample_run [''rudp'', ''profile.yaml''] default_settings start_world =
     (CliExit 0, w2) \<and> loop_fds w2 = {0, 1, 2}"
proof -
  have p: "cli_profile (ri_fs sample_run) (ri_file_exists sample_run) (ri_getenv sample_run)
      [''rudp'', ''profile.yaml''] default_settings = CliRun default_settings sample_profile"
    using cli_profile_printed [OF sample_profile_ok] by (simp add: sample_run_def)
  obtain logger where l: "make_runtime_logger (loop_os (- 1)) quiet_library sample_profile start_world =
      (Inr logger, start_world)"
    by (simp add: make_runtime_logger_def make_text_logger_def quiet_library_def)
  obtain w2 where o: "open_app_socket (loop_os (- 1)) sample_profile start_world = (None, w2)"
    by (simp add: open_app_socket_def create_non_blocking_def sock_bind_def make_sockaddr_def loop_os_def c_str_def
        sample_profile_def)
  have f: "loop_fds start_world = {0, 1, 2}" by (auto simp: loop_fds_def start_world_def)
  show ?thesis
    using exit_code_only_configuration [OF loop_os_laws, THEN conjunct2, rule_format, OF conjI [OF p conjI [OF l o]]]
    unfolding f by blast
qed

end
