(* ===== verification/Spec2Isabelle.thy ===== *)
theory Spec2Isabelle
  imports Session_Loss Session_Close Server_Handshake App_Refinement Rudp_Program
begin

text \<open>
  Verification of RUDP, a reliable-datagram transport in C++ with a client and a server program.

  \<^bold>\<open>The program.\<close> A datagram is a 28-byte header and a payload (\<open>Protocol.hpp\<close>, \<open>Codec.cpp\<close>). A \<open>Session\<close>
  (\<open>Session.cpp\<close>) is one connection: \<open>on_datagram_received\<close> decodes a datagram, lets
  \<open>ConnectionStateMachine.cpp\<close> decide the transition, applies the acknowledgement to the send state and
  passes the packet to the receive state; \<open>poll_tx\<close> hands out the next datagram; \<open>queue_send\<close>,
  \<open>request_close\<close> and \<open>drain_events\<close> are the application's side. \<open>RxHandler.cpp\<close> keeps the receive window,
  reassembles the ordered channel and filters the monotonic one; \<open>TxHandler.cpp\<close> keeps the send queue, the
  packets in flight and their retransmission. \<open>ServerSessionManager.cpp\<close> routes datagrams from many
  endpoints to sessions, pending until their handshake is over and active under a drawn id afterwards.
  Around this core, \<open>BsdRuntime.cpp\<close> starts the program: \<open>Config.cpp\<close> loads the settings (\<open>.env\<close>) and a
  profile (YAML), the environment overrides parts of it, and \<open>BsdClientApp.cpp\<close> or \<open>BsdServerApp.cpp\<close>
  runs a \<open>select\<close> loop over the socket (\<open>BsdUdpSocket.cpp\<close>) and the terminal, \<open>RuntimeLogger.cpp\<close> formatting
  what it logs and passing it to console and file. The client has a load generator whose worker threads fill
  a shared queue.

  \<^bold>\<open>The theories\<close>, in the order in which they build on one another. Paths are those of \<open>src/\<close>.
  \<^item> \<open>Rudp_Prelude\<close>: word types and lemmas, reachability of a step relation, and the locale
    \<open>inductive_invariant\<close>, by which every invariant is proved, and \<open>main_loop\<close>, the contract both programs'
    loops keep. \<open>Std_Map\<close>: \<open>std::map\<close> and
    \<open>std::unordered_map\<close> as association lists. \<open>Std_String\<close>: the string operations, \<open>getline\<close>, \<open>stoull\<close> and
    \<open>to_string\<close> of the standard library.
  \<^item> \<open>Rudp_Protocol\<close> (\<open>Protocol.hpp\<close>), \<open>Rudp_Utils\<close> (\<open>Utils.cpp\<close>), \<open>Rudp_Codec\<close> (\<open>Codec.cpp\<close>): header,
    sequence arithmetic at 32 bits, big-endian accessors, encoding.
  \<^item> \<open>Config_Types\<close> (\<open>Config.hpp\<close>), \<open>Config_Loader\<close> (\<open>Config.cpp\<close>) and \<open>Config_Spec\<close> (its properties, with the
    printers the round trips need).
  \<^item> \<open>Session_Types\<close> (\<open>SessionTypes.hpp\<close>), \<open>Connection_State_Machine\<close>, \<open>Rx_Handler\<close>, \<open>Tx_Handler\<close>, one
    theory per class; \<open>Session_Core\<close> (\<open>Session.cpp\<close>), the step relation of a session in use and its
    invariant. Two sessions back to back: \<open>Session_Handshake\<close>, \<open>Session_Exchange\<close> (a stream of messages),
    \<open>Session_Loss\<close> (a network that loses and repeats), \<open>Session_Close\<close>; and \<open>Session_Liveness\<close>, what time
    alone does to one.
  \<^item> \<open>Server_Session_Manager\<close> (\<open>ServerSessionManager.cpp\<close>), \<open>Manager_Invariant\<close> (its step relation and the
    consistency of its tables), \<open>Manager_Spec\<close> (the abstract connection table it refines) and
    \<open>Server_Handshake\<close> (a client connecting to it).
  \<^item> \<open>Channel_Directory\<close> (the contract of the channel lookup both programs have a copy of), \<open>Runtime_Logger\<close>,
    \<open>Bsd_Runtime\<close>, \<open>Load_Generator\<close> (the class in \<open>BsdClientApp.cpp\<close>), \<open>Client_App\<close>,
    \<open>Client_Spec\<close>, \<open>Server_App\<close>, \<open>Server_Spec\<close>: the two programs and how they use the core.
  \<^item> \<open>Udp_Socket\<close> (\<open>BsdUdpSocket.cpp\<close>), \<open>App_Sockets\<close> (\<open>run_client_app\<close> and \<open>run_server_app\<close>: the main loops on
    a socket), \<open>App_Refinement\<close> (that these implement the loops of \<open>Client_App\<close> and \<open>Server_App\<close>) and
    \<open>Rudp_Program\<close> (\<open>run_cli\<close> and \<open>main\<close>): the programs in the world of the operating system.
  \<^item> This theory: the properties that span receiver and sender.

  \<^bold>\<open>How the model corresponds.\<close> A struct is a record with the source's fields under a prefix; an
  enumeration a datatype; \<open>uint8_t\<close> to \<open>uint64_t\<close> are words, so every wrap-around of the code is one of the
  model; a member function is a function from the old state to the new one, named as in the source (a
  prefix \<open>ssm_\<close>, \<open>rx_\<close>, \<open>lg_\<close> or \<open>server_\<close> where two classes share a name). \<open>Config::current()\<close> is an argument;
  loops are recursive functions, all total. What the world supplies is an argument as well: the clock, the
  numbers \<open>std::random_device\<close> draws (a list; \<open>None\<close> only when it is too short for the loop that redraws),
  the file system and the environment (functions), and for a pass of a main loop the outcome of \<open>select\<close>,
  the datagrams received, the line typed and the steps the worker threads take. A worker's loop is cut into
  atomic steps at each access to shared state and the theorems hold for every interleaving; \<open>join\<close> is
  three steps per worker, which are enough once the stop flag is set. The main loops run on a list of
  inputs, one per pass, so a statement about all lists is one about all points of all runs. Containers
  without a specified order iterate in the order of their association lists. The operating system and the
  logging library are parameters: records of functions on a world of arbitrary type (\<open>posix\<close>,
  \<open>log_library\<close>), one per call the code makes, with what is relied on as named hypotheses: \<open>fd_laws\<close> (which
  descriptors are open), \<open>recv_laws\<close> (what \<open>recvfrom\<close> yields), \<open>world_laws\<close> (in addition what \<open>sendto\<close>,
  \<open>getaddrinfo\<close> and the logger do to the datagrams and lines in the world); \<open>loop_os\<close> is an instance that
  meets them. In that world the loops \<open>while (recv_from(...))\<close> run as long as datagrams keep coming, so they
  have fuel: one more than the datagrams waiting is enough, which \<open>client_recv_loop_exact\<close>,
  \<open>client_recv_loop_world\<close> and \<open>server_recv_loop_world\<close> prove.

  \<^bold>\<open>What is shown.\<close>
  \<^item> Wire format and sequence numbers: decoding accepts exactly the encodings of valid headers; the circular
    comparisons are an order on every half ring; eight flag combinations are meaningful.
  \<^item> Receiver: the effect of a packet on the window as a function of its distance; copies are suppressed at
    once and, for packets in order, until the numbers wrap; ordered delivery has no gaps, the newest
    monotonic state wins, and the advance loop ends.
  \<^item> Sender: what an acknowledgement removes and which packets gain evidence; which packet is retransmitted,
    as an equivalence with a definition over the whole map; back-off bounds; a poll that yields nothing had
    nothing to send; the in-flight window is bounded in every reachable state.
  \<^item> Session: the handshake completes, and what each end expects then, for all initial numbers; up to a
    window of reliable messages is delivered exactly once, in order, and acknowledged end to end; a message gets through whichever of its copies the network loses or repeats,
    as long as one arrives before the retries are used up; an orderly close reaches both ends; a connection is
    established only by a handshake; every datagram handed out is well-formed and carries the current
    acknowledgement.
  \<^item> Manager: its tables are consistent, endpoints are isolated from one another, ids are fresh, a poll is
    exact, a new client is accepted from every reachable state, and every operation refines transitions of an
    abstract table.
  \<^item> Configuration: env file and profile round trips, and that a profile that loads is fit for use.
  \<^item> Programs: in every run the client's session and the server's manager are in states their own operations
    reach, so all of the above holds in the running programs; the loops on the socket return in the state of
    these models on the datagrams that arrived, and send and log exactly what the models do; bursts of load
    under every schedule; every descriptor is owned by one socket object and closed once; which outcomes the exit code tells apart.
  \<^item> Behaviour that the code did not intend, each proved as it is: the bitmap off by one, the front that
    wraps to the value for uninitialised, a pure ACK that marks sequence number 0, ordered packets that stay
    undelivered, data sent before the handshake is over, a lost probe, a passive close that never ends, a
    closed client that reconnects, a last retransmission that is given no time, dead sessions that stay
    listed, ports reduced modulo 65536, messages cut to the socket buffer and delivered as complete, a client
    that anyone's datagram can reset.

  \<^bold>\<open>Not modelled.\<close> The signal handlers and \<open>now_ms\<close>, which are the two system calls they make (the stop flag
  and the clock are inputs of a pass); the insides of the operating system, of the C library's address
  functions and of \<open>spdlog\<close>, which are the parameters above; the declarations in the headers, which have no
  behaviour of their own. Concurrency beyond the load generator does not occur in the program.
\<close>

section \<open>Selective acknowledgement across the two ends\<close>

lemma seq_offsets:
  "unat ((n :: u32) + 1 - n) = 1" "unat (n + 2 - n) = 2"
  "unat (n + 2 - (n + 1)) = 1" "unat (n + 3 - (n + 1)) = 2"
  by (simp_all add: algebra_simps)

text \<open>
  C32. The bitmap is off by one after the front advances over a single packet. With front \<open>n\<close>, packet
  \<open>n + 2\<close> arrives and then packet \<open>n\<close>: the front moves to \<open>n + 1\<close>, but the bit that stood for \<open>n + 2\<close>
  is not shifted and now stands for \<open>n + 3\<close>. The sender that reads the acknowledgement drops packet
  \<open>n + 3\<close>, which was never received, and keeps \<open>n + 2\<close>, which was; and the receiver itself discards
  the real \<open>n + 3\<close> as a duplicate and delivers a copy of \<open>n + 2\<close> a second time.
\<close>

theorem sack_bitmap_off_by_one:
  assumes "rx_next_expected rx = n" and "rx_received_bits rx = 0" and "n \<noteq> 0" and "n + 1 \<noteq> 0"
    and "\<And>k. packet k = data_packet ReliableUnordered k payload"
    and "rx' = snd (on_packet (packet n) now KindNone (snd (on_packet (packet (n + 2)) now KindNone rx)))"
  shows "rx_next_expected rx' = n + 1 \<and> rx_received_bits rx' = 2 \<and>
    map_find (tx_inflight (snd (on_remote_ack cfg (rx_next_expected rx') (rx_received_bits rx') tx))) (n + 3)
      = None \<and>
    \<not> is_acknowledged_by_remote (n + 2) (rx_next_expected rx') (rx_received_bits rx') \<and>
    rx_pending_events (snd (on_packet (packet (n + 3)) now KindNone rx')) = rx_pending_events rx' \<and>
    rx_pending_events (snd (on_packet (packet (n + 2)) now KindNone rx')) =
      rx_pending_events rx' @ [make_data_event (packet (n + 2))]"
proof -
  have t: "tracks_reliable (packet k) KindNone" for k
    by (simp add: assms(5) tracks_reliable_def isReliableChannel_def)
  have h: "h_seq (pv_header (packet k)) = k" "h_channel_type (pv_header (packet k)) = ReliableUnordered" for k
    by (simp_all add: assms(5))
  have deliver: "deliver_payload (packet k) rx = push_event (make_data_event (packet k)) rx" for k rx
    by (simp add: deliver_payload_def h handle_reliable_unordered_def)
  let ?rx1 = "push_event (make_data_event (packet (n + 2))) (rx\<lparr>rx_received_bits := 2\<rparr>)"
  have u1: "update_reliable_receive_state (packet (n + 2)) KindNone r rx =
      (True, tracked_result (packet (n + 2)) KindNone r, rx\<lparr>rx_received_bits := 2\<rparr>)" for r
    using update_in_window [OF t, of rx "n + 2" 1 r] assms(1-3) by (simp add: h seq_offsets)
  have r1: "snd (on_packet (packet (n + 2)) now KindNone rx) = ?rx1"
    by (simp add: on_packet_def u1 is_control_only_def deliver)
  have r1f: "rx_next_expected ?rx1 = n" "rx_received_bits ?rx1 = 2" using assms(1) by (simp_all add: push_event_def)
  have adv: "advance_receive_window ?rx1 = ?rx1\<lparr>rx_next_expected := n + 1\<rparr>"
    using r1f by (simp add: advance_receive_window_def advance_receive_loop.simps)
  have u0: "update_reliable_receive_state (packet n) KindNone r ?rx1 =
      (True, tracked_result (packet n) KindNone r, ?rx1\<lparr>rx_next_expected := n + 1\<rparr>)" for r
    using update_in_order [OF t, of ?rx1 n] r1f assms(3) by (simp only: h adv) simp
  have rx': "rx' = push_event (make_data_event (packet n)) (?rx1\<lparr>rx_next_expected := n + 1\<rparr>)"
    unfolding assms(6) r1 by (simp add: on_packet_def u0 is_control_only_def deliver)
  have f: "rx_next_expected rx' = n + 1" "rx_received_bits rx' = 2"
    by (simp_all add: rx' push_event_def)
  have b: "bit (2 :: u64) 1" "\<not> bit (2 :: u64) 0" by (simp_all add: bit_numeral_rec)
  have u3: "update_reliable_receive_state (packet (n + 3)) KindNone r rx' =
      (False, tracked_result (packet (n + 3)) KindNone r, rx')" for r
    using update_in_window [OF t, of rx' "n + 3" 1 r] f assms(4) b by (simp add: h seq_offsets)
  have u2: "fst (update_reliable_receive_state (packet (n + 2)) KindNone r rx')"
    "rx_pending_events (snd (snd (update_reliable_receive_state (packet (n + 2)) KindNone r rx'))) =
      rx_pending_events rx'" for r
    using update_in_window [OF t, of rx' "n + 2" 0 r] f assms(4) b by (simp_all add: h seq_offsets)
  have "rx_pending_events (snd (on_packet (packet (n + 3)) now KindNone rx')) = rx_pending_events rx'"
    by (simp add: on_packet_def u3)
  moreover have "rx_pending_events (snd (on_packet (packet (n + 2)) now KindNone rx')) =
      rx_pending_events rx' @ [make_data_event (packet (n + 2))]"
    using u2 by (simp add: on_packet_def is_control_only_def deliver push_event_def split_beta)
  moreover have "map_find (tx_inflight (snd (on_remote_ack cfg (n + 1) 2 tx))) (n + 3) = None"
    using b by (simp add: on_remote_ack_eq map_find_acknowledged acknowledged_dist seq_offsets)
  moreover have "\<not> is_acknowledged_by_remote (n + 2) (n + 1) 2"
    using b by (simp add: acknowledged_dist seq_offsets)
  ultimately show ?thesis by (simp add: f)
qed

theorem sack_bitmap_off_by_one_witness:
  "is_acknowledged_by_remote 103 101 2 \<and>
   rx_received_bits (snd (on_packet (data_packet ReliableUnordered 100 []) 0 KindNone
     (snd (on_packet (data_packet ReliableUnordered 102 []) 0 KindNone
       (default_rx\<lparr>rx_next_expected := 100\<rparr>))))) = 2"
  using sack_bitmap_off_by_one [where rx = "default_rx\<lparr>rx_next_expected := 100\<rparr>" and n = 100
      and packet = "\<lambda>k. data_packet ReliableUnordered k []" and payload = "[]" and now = 0,
      OF _ _ _ _ refl refl]
  by (simp add: default_rx_def acknowledged_dist)

end
